theory Spec2Isabelle
  imports Main
begin

section \<open>Shared runtime model\<close>

text \<open>
  The two crawlers (\<^verbatim>\<open>iyp/crawlers/bgpkit/as2rel.py\<close> and
  \<^verbatim>\<open>iyp/crawlers/peeringdb/ix.py\<close>) are Python scripts that talk to a graph store
  through a handle object and to the network through \<^verbatim>\<open>requests.get\<close>.
  Every effect is explicit here:
  \<^item> an exception is a value \<open>Inl e\<close>; \<^verbatim>\<open>sys.exit\<close> raises \<open>SystemExit\<close>, which
    \<^verbatim>\<open>except Exception\<close> does not catch;
  \<^item> the store behind the handle is a state of an arbitrary type \<open>'s\<close>, changed by
    the handle's methods, which may raise and change the state all the same;
  \<^item> every method call on the handle and every HTTP fetch is appended to the list
    \<open>events\<close>, in the order the program issues them;
  \<^item> \<^verbatim>\<open>print\<close> appends its argument tuple to \<open>stdout\<close>, \<^verbatim>\<open>sys.stderr.write\<close>
    appends its string to \<open>stderr\<close>.
\<close>

datatype error =
    SystemExit string
  | Exception string

record datetime =
  year :: int
  month :: int
  day :: int
  hour :: int
  minute :: int
  second :: int
  microsecond :: int

record as_rel =
  asn1 :: int
  asn2 :: int

datatype printed =
    PStr string
  | PInt int
  | PRel as_rel
  | PErr error

datatype 'r event =
    Fetch string int
  | Call 'r

record ('s, 'r) world =
  store :: 's
  events :: "'r event list"
  stdout :: "printed list list"
  stderr :: "string list"

text \<open>The world when a process starts on the store \<open>s\<close>: nothing issued or written yet.\<close>

definition world0 :: "'s \<Rightarrow> ('s, 'r) world" where
  "world0 s = \<lparr>store = s, events = [], stdout = [], stderr = []\<rparr>"

record 'a response =
  status_code :: int
  data :: 'a

definition print :: "printed list \<Rightarrow> ('s, 'r) world \<Rightarrow> ('s, 'r) world" where
  "print args w = w\<lparr>stdout := stdout w @ [args]\<rparr>"

definition stderr_write :: "string \<Rightarrow> ('s, 'r) world \<Rightarrow> ('s, 'r) world" where
  "stderr_write s w = w\<lparr>stderr := stderr w @ [s]\<rparr>"

definition requests_get ::
  "(string \<Rightarrow> 'a response) \<Rightarrow> string \<Rightarrow> ('s, 'r) world \<Rightarrow> 'a response \<times> ('s, 'r) world" where
  "requests_get web url w =
     (let req = web url in (req, w\<lparr>events := events w @ [Fetch url (status_code req)]\<rparr>))"

text \<open>Python's \<^verbatim>\<open>str\<close> on an integer: the decimal digits, with a minus sign.\<close>

fun str_nat :: "nat \<Rightarrow> string" where
  "str_nat n =
     (if n < 10 then [''0123456789'' ! n]
      else str_nat (n div 10) @ [''0123456789'' ! (n mod 10)])"

definition str :: "int \<Rightarrow> string" where
  "str i = (if i < 0 then CHR ''-'' # str_nat (nat (- i)) else str_nat (nat i))"

text \<open>
  Python's \<^verbatim>\<open>str.strip()\<close> on a string of code points below 256 (a \<^typ>\<open>char\<close> is
  one of them): the whitespace characters are the codes 9 to 13, 28 to 32, 133 (next
  line) and 160 (no-break space).
\<close>

definition isspace :: "char \<Rightarrow> bool" where
  "isspace c =
     (let n = of_char c :: nat
      in (9 \<le> n \<and> n \<le> 13) \<or> (28 \<le> n \<and> n \<le> 32) \<or> n = 133 \<or> n = 160)"

definition strip :: "string \<Rightarrow> string" where
  "strip s = rev (dropWhile isspace (rev (dropWhile isspace s)))"

section \<open>The BGPKIT AS-relationship crawler\<close>

type_synonym node_id = nat

definition URL_BGPKIT_AS2REL :: string where
  "URL_BGPKIT_AS2REL = ''https://data.bgpkit.com/as2rel/as2rel-latest.json.bz2''"

record reference_info =
  source :: string
  reference_url :: string
  point_in_time :: datetime

type_synonym link = "string \<times> node_id \<times> reference_info"

text \<open>The three methods of the \<^verbatim>\<open>IYP\<close> handle that the crawler calls.\<close>

datatype iyp_call =
    GetNode string int bool
  | AddLinks node_id "link list"
  | Close

record 's IYP =
  get_node :: "string \<Rightarrow> int \<Rightarrow> bool \<Rightarrow> 's \<Rightarrow> (error + node_id) \<times> 's"
  add_links :: "node_id \<Rightarrow> link list \<Rightarrow> 's \<Rightarrow> (error + unit) \<times> 's"
  close :: "'s \<Rightarrow> (error + unit) \<times> 's"

definition iyp_get_node ::
  "'s IYP \<Rightarrow> string \<Rightarrow> int \<Rightarrow> bool \<Rightarrow> ('s, iyp_call) world
     \<Rightarrow> (error + node_id) \<times> ('s, iyp_call) world" where
  "iyp_get_node h label asn create w =
     (case get_node h label asn create (store w) of
        (r, s) \<Rightarrow> (r, w\<lparr>store := s, events := events w @ [Call (GetNode label asn create)]\<rparr>))"

definition iyp_add_links ::
  "'s IYP \<Rightarrow> node_id \<Rightarrow> link list \<Rightarrow> ('s, iyp_call) world
     \<Rightarrow> (error + unit) \<times> ('s, iyp_call) world" where
  "iyp_add_links h n links w =
     (case add_links h n links (store w) of
        (r, s) \<Rightarrow> (r, w\<lparr>store := s, events := events w @ [Call (AddLinks n links)]\<rparr>))"

definition iyp_close ::
  "'s IYP \<Rightarrow> ('s, iyp_call) world \<Rightarrow> (error + unit) \<times> ('s, iyp_call) world" where
  "iyp_close h w =
     (case close h (store w) of
        (r, s) \<Rightarrow> (r, w\<lparr>store := s, events := events w @ [Call Close]\<rparr>))"

record 's as2rel_crawler =
  reference :: reference_info
  iyp :: "'s IYP"

text \<open>
  \<^verbatim>\<open>Crawler.__init__\<close>: \<open>utcnow\<close> is the value of \<^verbatim>\<open>datetime.datetime.utcnow()\<close>
  and \<open>h\<close> the handle \<^verbatim>\<open>IYP()\<close>.
\<close>

definition as2rel_init :: "'s IYP \<Rightarrow> datetime \<Rightarrow> 's as2rel_crawler" where
  "as2rel_init h utcnow =
     \<lparr>reference =
        \<lparr>source = ''BGPKIT'',
         reference_url = URL_BGPKIT_AS2REL,
         point_in_time = utcnow\<lparr>hour := 0, minute := 0, second := 0, microsecond := 0\<rparr>\<rparr>,
      iyp = h\<rparr>"

text \<open>\<^verbatim>\<open>Crawler.update_asn\<close>: only \<^verbatim>\<open>add_links\<close> is inside the \<^verbatim>\<open>try\<close>.\<close>

definition update_asn ::
  "'s as2rel_crawler \<Rightarrow> as_rel \<Rightarrow> ('s, iyp_call) world
     \<Rightarrow> (error + node_id \<times> node_id) \<times> ('s, iyp_call) world" where
  "update_asn self r w0 =
     (case iyp_get_node (iyp self) ''AS'' (asn1 r) True w0 of
        (Inl e, w1) \<Rightarrow> (Inl e, w1)
      | (Inr as1_qid, w1) \<Rightarrow>
          (case iyp_get_node (iyp self) ''AS'' (asn2 r) True w1 of
             (Inl e, w2) \<Rightarrow> (Inl e, w2)
           | (Inr as2_qid, w2) \<Rightarrow>
               (let statements = [] @ [(''PEERS_WITH'', as2_qid, reference self)] in
                case iyp_add_links (iyp self) as1_qid statements w2 of
                  (Inl (Exception err), w3) \<Rightarrow>
                    (Inr (as1_qid, as2_qid),
                     print [PErr (Exception err)] (print [PStr ''Error for: '', PRel r] w3))
                | (Inl (SystemExit m), w3) \<Rightarrow> (Inl (SystemExit m), w3)
                | (Inr u, w3) \<Rightarrow> (Inr (as1_qid, as2_qid), w3))))"

text \<open>
  The loop of \<^verbatim>\<open>Crawler.run\<close>: \<^verbatim>\<open>map\<close> is lazy, so record \<open>i\<close> is updated and
  then its progress line is written, before the next record is touched.
\<close>

fun as2rel_loop ::
  "'s as2rel_crawler \<Rightarrow> nat \<Rightarrow> as_rel list \<Rightarrow> ('s, iyp_call) world
     \<Rightarrow> (error + unit) \<times> ('s, iyp_call) world" where
  "as2rel_loop self i [] w = (Inr (), w)"
| "as2rel_loop self i (r # rs) w =
     (case update_asn self r w of
        (Inl e, w') \<Rightarrow> (Inl e, w')
      | (Inr ids, w') \<Rightarrow>
          as2rel_loop self (Suc i) rs
            (stderr_write (CHR 0x0D # ''Processed '' @ str (int i) @ '' relationships'') w'))"

text \<open>
  \<^verbatim>\<open>Crawler.run\<close>: \<open>web\<close> answers the fetch; its \<open>data\<close> is the decoded JSON array
  (\<^verbatim>\<open>json.load(bz2.open(req.raw))\<close>).
\<close>

definition as2rel_run ::
  "'s as2rel_crawler \<Rightarrow> (string \<Rightarrow> as_rel list response) \<Rightarrow> ('s, iyp_call) world
     \<Rightarrow> (error + unit) \<times> ('s, iyp_call) world" where
  "as2rel_run self web w0 =
     (case requests_get web URL_BGPKIT_AS2REL w0 of
        (req, w1) \<Rightarrow>
          if status_code req \<noteq> 200
          then (Inl (SystemExit ''Error while fetching AS relationships''), w1)
          else
            (case as2rel_loop self 0 (data req) w1 of
               (Inl e, w2) \<Rightarrow> (Inl e, w2)
             | (Inr u, w2) \<Rightarrow> iyp_close (iyp self) (stderr_write [CHR 0x0A] w2)))"

text \<open>
  The main program, \<^verbatim>\<open>asnames = Crawler(); asnames.run()\<close>, as one process on the
  store \<open>s\<close> (the set-up of the log file is left out).
\<close>

definition as2rel_main ::
  "'s IYP \<Rightarrow> (string \<Rightarrow> as_rel list response) \<Rightarrow> datetime \<Rightarrow> 's
     \<Rightarrow> (error + unit) \<times> ('s, iyp_call) world" where
  "as2rel_main h web utcnow s = as2rel_run (as2rel_init h utcnow) web (world0 s)"

section \<open>The PeeringDB exchange-point crawler\<close>

type_synonym qid = string
type_synonym pid = string

definition URL_PDB_IXS :: string where
  "URL_PDB_IXS = ''https://peeringdb.com/api/ix''"

definition URL_PDB_LAN :: string where
  "URL_PDB_LAN = ''https://peeringdb.com/api/ixlan''"

definition IXID_LABEL :: string where
  "IXID_LABEL = ''PeeringDB IX ID''"

definition ORGID_LABEL :: string where
  "ORGID_LABEL = ''PeeringDB organization ID''"

text \<open>
  A statement is a Python list or tuple of two, three or four elements: property and
  value, then the reference, then the qualifiers. A reference is a list of pairs whose
  values are strings or the date.
\<close>

datatype ref_value =
    RStr string
  | RTime datetime

type_synonym wiki_reference = "(pid \<times> ref_value) list"
type_synonym qualifiers = "(pid \<times> string) list"

datatype statement =
    Stmt2 pid string
  | Stmt3 pid string wiki_reference
  | Stmt4 pid string wiki_reference qualifiers

text \<open>The decoded PeeringDB JSON objects, with the keys the crawler reads.\<close>

record ixlan =
  ixlan_id :: int

record ix =
  ix_id :: int
  ix_name :: string
  ix_name_long :: string
  ix_org_id :: int
  ix_country :: string
  ix_website :: string
  ix_url_stats :: string
  ix_ixlan_set :: "ixlan list option"

record ixpfx =
  ixpfx_prefix :: string

record lan =
  ixpfx_set :: "ixpfx list"

record peeringdb_api =
  api_ix :: "string \<Rightarrow> ix list response"
  api_lan :: "string \<Rightarrow> lan list response"

text \<open>
  The \<^verbatim>\<open>Wikihandy\<close> handle. Its label lookups (\<^verbatim>\<open>get_pid\<close>, \<^verbatim>\<open>get_qid\<close> without
  \<^verbatim>\<open>create\<close>, \<^verbatim>\<open>country2qid\<close>) are tables that are fixed for the run; the two
  \<^verbatim>\<open>extid2qid\<close> preloads read the store; the other methods change it and are
  recorded as events.
\<close>

datatype wh_call =
    GetQidCreate string string string
  | Login
  | AddItem string string string "statement list"
  | UpsertStatements string qid "statement list"
  | Prefix2Qid string bool

record 's Wikihandy =
  get_pid :: "string \<Rightarrow> pid"
  get_qid :: "string \<Rightarrow> qid"
  country2qid :: "string \<Rightarrow> qid option"
  extid2qid_qid :: "qid \<Rightarrow> 's \<Rightarrow> (string \<rightharpoonup> qid)"
  extid2qid_label :: "string \<Rightarrow> 's \<Rightarrow> (string \<rightharpoonup> qid)"
  get_qid_create :: "string \<Rightarrow> string \<Rightarrow> string \<Rightarrow> 's \<Rightarrow> (error + qid) \<times> 's"
  login :: "'s \<Rightarrow> (error + unit) \<times> 's"
  add_item :: "string \<Rightarrow> string \<Rightarrow> string \<Rightarrow> statement list \<Rightarrow> 's \<Rightarrow> (error + qid) \<times> 's"
  upsert_statements :: "string \<Rightarrow> qid \<Rightarrow> statement list \<Rightarrow> 's \<Rightarrow> (error + unit) \<times> 's"
  prefix2qid :: "string \<Rightarrow> bool \<Rightarrow> 's \<Rightarrow> (error + qid) \<times> 's"

definition wh_call ::
  "('s \<Rightarrow> (error + 'a) \<times> 's) \<Rightarrow> wh_call \<Rightarrow> ('s, wh_call) world
     \<Rightarrow> (error + 'a) \<times> ('s, wh_call) world" where
  "wh_call method c w =
     (case method (store w) of
        (r, s) \<Rightarrow> (r, w\<lparr>store := s, events := events w @ [Call c]\<rparr>))"

definition wh_get_qid_create ::
  "'s Wikihandy \<Rightarrow> string \<Rightarrow> string \<Rightarrow> string \<Rightarrow> ('s, wh_call) world
     \<Rightarrow> (error + qid) \<times> ('s, wh_call) world" where
  "wh_get_qid_create h label summary description =
     wh_call (get_qid_create h label summary description) (GetQidCreate label summary description)"

definition wh_login ::
  "'s Wikihandy \<Rightarrow> ('s, wh_call) world \<Rightarrow> (error + unit) \<times> ('s, wh_call) world" where
  "wh_login h = wh_call (login h) Login"

definition wh_add_item ::
  "'s Wikihandy \<Rightarrow> string \<Rightarrow> string \<Rightarrow> string \<Rightarrow> statement list \<Rightarrow> ('s, wh_call) world
     \<Rightarrow> (error + qid) \<times> ('s, wh_call) world" where
  "wh_add_item h summary label description statements =
     wh_call (add_item h summary label description statements)
       (AddItem summary label description statements)"

definition wh_upsert_statements ::
  "'s Wikihandy \<Rightarrow> string \<Rightarrow> qid \<Rightarrow> statement list \<Rightarrow> ('s, wh_call) world
     \<Rightarrow> (error + unit) \<times> ('s, wh_call) world" where
  "wh_upsert_statements h summary q statements =
     wh_call (upsert_statements h summary q statements) (UpsertStatements summary q statements)"

definition wh_prefix2qid ::
  "'s Wikihandy \<Rightarrow> string \<Rightarrow> bool \<Rightarrow> ('s, wh_call) world
     \<Rightarrow> (error + qid) \<times> ('s, wh_call) world" where
  "wh_prefix2qid h p create = wh_call (prefix2qid h p create) (Prefix2Qid p create)"

text \<open>
  Modelled from the spec: \<^verbatim>\<open>Wikihandy.today()\<close> is not among the source files. The
  spec's Reference Builder gives the point in time as the start of the current day
  (UTC, truncated to midnight); \<open>utcnow\<close> is the clock reading.
\<close>

definition wh_today :: "datetime \<Rightarrow> datetime" where
  "wh_today utcnow = utcnow\<lparr>hour := 0, minute := 0, second := 0, microsecond := 0\<rparr>"

record 's ix_crawler =
  wh :: "'s Wikihandy"
  ixid2qid :: "string \<rightharpoonup> qid"
  orgid2qid :: "string \<rightharpoonup> qid"
  today :: datetime
  reference_ix :: wiki_reference

text \<open>\<^verbatim>\<open>Crawler.__init__\<close> of the exchange-point crawler.\<close>

definition ix_init ::
  "'s Wikihandy \<Rightarrow> datetime \<Rightarrow> ('s, wh_call) world
     \<Rightarrow> (error + 's ix_crawler) \<times> ('s, wh_call) world" where
  "ix_init h utcnow w0 =
     (case wh_get_qid_create h IXID_LABEL ''add PeeringDB ix IDs''
             ''Identifier for an exchange point in the PeeringDB database'' w0 of
        (Inl e, w1) \<Rightarrow> (Inl e, w1)
      | (Inr ixid_qid, w1) \<Rightarrow>
          (let t = wh_today utcnow in
           (Inr \<lparr>wh = h,
                 ixid2qid = extid2qid_qid h ixid_qid (store w1),
                 orgid2qid = extid2qid_label h ORGID_LABEL (store w1),
                 today = t,
                 reference_ix =
                   [(get_pid h ''source'', RStr (get_qid h ''PeeringDB'')),
                    (get_pid h ''reference URL'', RStr URL_PDB_IXS),
                    (get_pid h ''point in time'', RTime t)]\<rparr>,
            w1)))"

text \<open>\<^verbatim>\<open>Crawler.ix_qid\<close>: the cache \<^verbatim>\<open>self.ixid2qid\<close> is keyed by \<^verbatim>\<open>str(ix['id'])\<close>.\<close>

definition ix_qid ::
  "ix \<Rightarrow> 's ix_crawler \<Rightarrow> ('s, wh_call) world
     \<Rightarrow> (error + qid) \<times> 's ix_crawler \<times> ('s, wh_call) world" where
  "ix_qid x self w0 =
     (case
        (if str (ix_id x) \<notin> dom (ixid2qid self)
         then
           (let ix_qualifiers =
                  [(get_pid (wh self) ''instance of'', get_qid (wh self) IXID_LABEL)];
                statements =
                  [Stmt2 (get_pid (wh self) ''instance of'')
                     (get_qid (wh self) ''Internet exchange point''),
                   Stmt4 (get_pid (wh self) ''external ID'') (str (ix_id x)) [] ix_qualifiers]
            in case wh_add_item (wh self) ''add new peeringDB IX'' (ix_name x) (ix_name_long x)
                      statements w0 of
                 (Inl e, w1) \<Rightarrow> (Inl e, self, w1)
               | (Inr q, w1) \<Rightarrow>
                   (Inr (), self\<lparr>ixid2qid := (ixid2qid self)(str (ix_id x) \<mapsto> q)\<rparr>, w1))
         else (Inr (), self, w0)) of
        (Inl e, self1, w1) \<Rightarrow> (Inl e, self1, w1)
      | (Inr u, self1, w1) \<Rightarrow>
          (case ixid2qid self1 (str (ix_id x)) of
             None \<Rightarrow> (Inl (Exception ''KeyError''), self1, w1)
           | Some q \<Rightarrow> (Inr q, self1, w1)))"

text \<open>The innermost loop of \<^verbatim>\<open>Crawler.update_ix\<close>: the prefixes of one LAN.\<close>

fun update_prefixes ::
  "'s ix_crawler \<Rightarrow> qid \<Rightarrow> wiki_reference \<Rightarrow> ixpfx list \<Rightarrow> ('s, wh_call) world
     \<Rightarrow> (error + unit) \<times> ('s, wh_call) world" where
  "update_prefixes self ixq pfx_ref [] w = (Inr (), w)"
| "update_prefixes self ixq pfx_ref (p # ps) w0 =
     (case wh_prefix2qid (wh self) (ixpfx_prefix p) True w0 of
        (Inl e, w1) \<Rightarrow> (Inl e, w1)
      | (Inr pfx_qid, w1) \<Rightarrow>
          (let pfx_stmts =
                 [Stmt3 (get_pid (wh self) ''instance of'') (get_qid (wh self) ''peering LAN'')
                    pfx_ref,
                  Stmt3 (get_pid (wh self) ''managed by'') ixq pfx_ref]
           in case wh_upsert_statements (wh self) ''update peeringDB ixlan'' pfx_qid pfx_stmts
                     w1 of
                (Inl e, w2) \<Rightarrow> (Inl e, w2)
              | (Inr u, w2) \<Rightarrow> update_prefixes self ixq pfx_ref ps w2))"

text \<open>The loop over the LANs that one per-LAN fetch returns.\<close>

fun update_lans ::
  "'s ix_crawler \<Rightarrow> qid \<Rightarrow> wiki_reference \<Rightarrow> lan list \<Rightarrow> ('s, wh_call) world
     \<Rightarrow> (error + unit) \<times> ('s, wh_call) world" where
  "update_lans self ixq pfx_ref [] w = (Inr (), w)"
| "update_lans self ixq pfx_ref (l # ls) w0 =
     (case update_prefixes self ixq pfx_ref (ixpfx_set l) w0 of
        (Inl e, w1) \<Rightarrow> (Inl e, w1)
      | (Inr u, w1) \<Rightarrow> update_lans self ixq pfx_ref ls w1)"

text \<open>The loop over \<^verbatim>\<open>ix['ixlan_set']\<close>: one fetch for each LAN.\<close>

fun update_ixlans ::
  "peeringdb_api \<Rightarrow> 's ix_crawler \<Rightarrow> qid \<Rightarrow> ixlan list \<Rightarrow> ('s, wh_call) world
     \<Rightarrow> (error + unit) \<times> ('s, wh_call) world" where
  "update_ixlans api self ixq [] w = (Inr (), w)"
| "update_ixlans api self ixq (l # ls) w0 =
     (let pfx_url = URL_PDB_LAN @ ''/'' @ str (ixlan_id l);
          pfx_ref =
            [(get_pid (wh self) ''source'', RStr (get_qid (wh self) ''PeeringDB'')),
             (get_pid (wh self) ''reference URL'', RStr pfx_url),
             (get_pid (wh self) ''point in time'', RTime (today self))]
      in case requests_get (api_lan api) pfx_url w0 of
           (req, w1) \<Rightarrow>
             if status_code req \<noteq> 200
             then (Inl (SystemExit ''Error while fetching IXs data''), w1)
             else
               (case update_lans self ixq pfx_ref (data req) w1 of
                  (Inl e, w2) \<Rightarrow> (Inl e, w2)
                | (Inr u, w2) \<Rightarrow> update_ixlans api self ixq ls w2))"

text \<open>
  The statements that \<^verbatim>\<open>Crawler.update_ix\<close> builds before it resolves the node
  (lines 77 to 104); the missing organization is printed here.
\<close>

definition ix_statements ::
  "'s ix_crawler \<Rightarrow> ix \<Rightarrow> ('s, wh_call) world \<Rightarrow> statement list \<times> ('s, wh_call) world" where
  "ix_statements self x w0 =
     (let h = wh self;
          statements0 =
            [Stmt2 (get_pid h ''instance of'') (get_qid h ''Internet exchange point''),
             Stmt3 (get_pid h ''name'') (strip (ix_name x)) (reference_ix self)];
          org_qid = orgid2qid self (str (ix_org_id x));
          (statements1, w1) =
            (case org_qid of
               Some q \<Rightarrow> (statements0 @ [Stmt3 (get_pid h ''managed by'') q (reference_ix self)], w0)
             | None \<Rightarrow>
                 (statements0,
                  print [PStr ''Error this organization is not in wikibase: '', PInt (ix_org_id x)]
                    w0));
          statements2 =
            (if ix_country x \<noteq> []
             then (case country2qid h (ix_country x) of
                     Some country_qid \<Rightarrow>
                       statements1 @ [Stmt3 (get_pid h ''country'') country_qid (reference_ix self)]
                   | None \<Rightarrow> statements1)
             else statements1);
          statements3 =
            (if ix_website x \<noteq> []
             then statements2 @ [Stmt3 (get_pid h ''website'') (ix_website x) (reference_ix self)]
             else statements2);
          statements4 =
            (if ix_url_stats x \<noteq> []
             then statements3 @
                  [Stmt4 (get_pid h ''website'') (ix_url_stats x) (reference_ix self)
                     [(get_pid h ''instance of'', get_qid h ''traffic statistics'')]]
             else statements3)
      in (statements4, w1))"

text \<open>\<^verbatim>\<open>Crawler.update_ix\<close>: no call is inside a \<^verbatim>\<open>try\<close>.\<close>

definition update_ix ::
  "peeringdb_api \<Rightarrow> ix \<Rightarrow> 's ix_crawler \<Rightarrow> ('s, wh_call) world
     \<Rightarrow> (error + qid) \<times> 's ix_crawler \<times> ('s, wh_call) world" where
  "update_ix api x self w0 =
     (case ix_statements self x w0 of
        (statements, w1) \<Rightarrow>
          (case ix_qid x self w1 of
             (Inl e, self1, w2) \<Rightarrow> (Inl e, self1, w2)
           | (Inr q, self1, w2) \<Rightarrow>
               (case wh_upsert_statements (wh self1) ''update peeringDB ixs'' q statements w2 of
                  (Inl e, w3) \<Rightarrow> (Inl e, self1, w3)
                | (Inr u, w3) \<Rightarrow>
                    (case ix_ixlan_set x of
                       None \<Rightarrow> (Inr q, self1, w3)
                     | Some ixlans \<Rightarrow>
                         (case update_ixlans api self1 q ixlans w3 of
                            (Inl e, w4) \<Rightarrow> (Inl e, self1, w4)
                          | (Inr u, w4) \<Rightarrow> (Inr q, self1, w4))))))"

text \<open>
  The loop of \<^verbatim>\<open>Crawler.run\<close>; \<open>n\<close> is \<^verbatim>\<open>len(ixs)\<close>. The detail is the first element
  of the fetched \<^verbatim>\<open>data\<close>, and an empty \<^verbatim>\<open>data\<close> raises \<^verbatim>\<open>IndexError\<close>.
\<close>

fun ix_loop ::
  "peeringdb_api \<Rightarrow> nat \<Rightarrow> nat \<Rightarrow> ix list \<Rightarrow> 's ix_crawler \<Rightarrow> ('s, wh_call) world
     \<Rightarrow> (error + unit) \<times> 's ix_crawler \<times> ('s, wh_call) world" where
  "ix_loop api n i [] self w = (Inr (), self, w)"
| "ix_loop api n i (x # xs) self w0 =
     (case requests_get (api_ix api) (URL_PDB_IXS @ ''/'' @ str (ix_id x)) w0 of
        (req, w1) \<Rightarrow>
          if status_code req \<noteq> 200
          then (Inl (SystemExit ''Error while fetching IXs data''), self, w1)
          else
            (case data req of
               [] \<Rightarrow> (Inl (Exception ''IndexError''), self, w1)
             | ix_info # rest \<Rightarrow>
                 (case update_ix api ix_info self w1 of
                    (Inl e, self1, w2) \<Rightarrow> (Inl e, self1, w2)
                  | (Inr q, self1, w2) \<Rightarrow>
                      ix_loop api n (Suc i) xs self1
                        (stderr_write
                           (CHR 0x0D # ''Processing... '' @ str (int i + 1) @ ''/'' @ str (int n))
                           w2))))"

text \<open>\<^verbatim>\<open>Crawler.run\<close> of the exchange-point crawler.\<close>

definition ix_run ::
  "peeringdb_api \<Rightarrow> 's ix_crawler \<Rightarrow> ('s, wh_call) world
     \<Rightarrow> (error + unit) \<times> 's ix_crawler \<times> ('s, wh_call) world" where
  "ix_run api self w0 =
     (case requests_get (api_ix api) URL_PDB_IXS w0 of
        (req, w1) \<Rightarrow>
          if status_code req \<noteq> 200
          then (Inl (SystemExit ''Error while fetching IXs data''), self, w1)
          else
            (let ixs = data req in
             case wh_login (wh self) w1 of
               (Inl e, w2) \<Rightarrow> (Inl e, self, w2)
             | (Inr u, w2) \<Rightarrow> ix_loop api (length ixs) 0 ixs self w2))"

text \<open>The main program, \<^verbatim>\<open>pdbn = Crawler(); pdbn.run()\<close>, as one process.\<close>

definition ix_main ::
  "'s Wikihandy \<Rightarrow> peeringdb_api \<Rightarrow> datetime \<Rightarrow> 's
     \<Rightarrow> (error + unit) \<times> ('s, wh_call) world" where
  "ix_main h api utcnow s =
     (case ix_init h utcnow (world0 s) of
        (Inl e, w) \<Rightarrow> (Inl e, w)
      | (Inr pdbn, w) \<Rightarrow> (case ix_run api pdbn w of (r, pdbn1, w1) \<Rightarrow> (r, w1)))"

section \<open>Vocabulary of the properties\<close>

text \<open>The statements that a call hands to the store, and the parts of a statement.\<close>

fun call_statements :: "wh_call \<Rightarrow> statement list" where
  "call_statements (AddItem summary label description statements) = statements"
| "call_statements (UpsertStatements summary q statements) = statements"
| "call_statements (GetQidCreate label summary description) = []"
| "call_statements Login = []"
| "call_statements (Prefix2Qid p create) = []"

fun event_statements :: "wh_call event \<Rightarrow> statement list" where
  "event_statements (Call c) = call_statements c"
| "event_statements (Fetch url status) = []"

fun statement_reference :: "statement \<Rightarrow> wiki_reference option" where
  "statement_reference (Stmt2 p v) = None"
| "statement_reference (Stmt3 p v r) = Some r"
| "statement_reference (Stmt4 p v r q) = Some r"

fun statement_pid :: "statement \<Rightarrow> pid" where
  "statement_pid (Stmt2 p v) = p"
| "statement_pid (Stmt3 p v r) = p"
| "statement_pid (Stmt4 p v r q) = p"

fun is_call :: "'r event \<Rightarrow> bool" where
  "is_call (Call c) = True"
| "is_call (Fetch url status) = False"

fun fetch_ok :: "'r event \<Rightarrow> bool" where
  "fetch_ok (Call c) = True"
| "fetch_ok (Fetch url status) = (status = 200)"

text \<open>
  \<open>fetch_abort ex evs\<close>: in the events \<open>evs\<close>, a fetch that was not answered 200 is the
  last event, and then \<open>ex\<close> holds (the result is a \<open>SystemExit\<close>).
\<close>

fun fetch_abort :: "bool \<Rightarrow> 'r event list \<Rightarrow> bool" where
  "fetch_abort ex [] = True"
| "fetch_abort ex (Call c # evs) = fetch_abort ex evs"
| "fetch_abort ex (Fetch url status # evs) =
     (if status = 200 then fetch_abort ex evs else ex \<and> evs = [])"

definition is_exit :: "error + 'a \<Rightarrow> bool" where
  "is_exit r = (case r of Inl (SystemExit m) \<Rightarrow> True | Inl (Exception m) \<Rightarrow> False | Inr v \<Rightarrow> False)"

text \<open>The reference that \<^verbatim>\<open>update_ix\<close> builds for the LAN fetched from \<open>pfx_url\<close>.\<close>

definition pfx_reference :: "'s ix_crawler \<Rightarrow> string \<Rightarrow> wiki_reference" where
  "pfx_reference self pfx_url =
     [(get_pid (wh self) ''source'', RStr (get_qid (wh self) ''PeeringDB'')),
      (get_pid (wh self) ''reference URL'', RStr pfx_url),
      (get_pid (wh self) ''point in time'', RTime (today self))]"

text \<open>Two crawler states that differ at most in the cache \<^verbatim>\<open>ixid2qid\<close>.\<close>

definition same_cfg :: "'s ix_crawler \<Rightarrow> 's ix_crawler \<Rightarrow> bool" where
  "same_cfg c self =
     (wh self = wh c \<and> orgid2qid self = orgid2qid c \<and> today self = today c \<and>
      reference_ix self = reference_ix c)"

text \<open>
  \<open>is_reference h r\<close>: the reference \<open>r\<close> has the three parts source (the item
  \<^verbatim>\<open>PeeringDB\<close>), reference URL and point in time, under the handle's properties.
\<close>

fun is_reference :: "'s Wikihandy \<Rightarrow> wiki_reference \<Rightarrow> bool" where
  "is_reference h [(p1, RStr src), (p2, RStr url), (p3, RTime t)] =
     (p1 = get_pid h ''source'' \<and> src = get_qid h ''PeeringDB'' \<and>
      p2 = get_pid h ''reference URL'' \<and> p3 = get_pid h ''point in time'')"
| "is_reference h r = False"

definition statement_sourced :: "'s Wikihandy \<Rightarrow> statement \<Rightarrow> bool" where
  "statement_sourced h s =
     (case statement_reference s of None \<Rightarrow> False | Some r \<Rightarrow> is_reference h r)"

text \<open>
  The two statements that the exchange-point crawler writes without a reference: the
  type of the node (a statement of two elements) and, when the node is created, its
  external identifier (with the empty reference list).
\<close>

fun type_or_id_statement :: "'s Wikihandy \<Rightarrow> statement \<Rightarrow> bool" where
  "type_or_id_statement h (Stmt2 p v) =
     (p = get_pid h ''instance of'' \<and> v = get_qid h ''Internet exchange point'')"
| "type_or_id_statement h (Stmt3 p v r) = False"
| "type_or_id_statement h (Stmt4 p v r q) =
     (p = get_pid h ''external ID'' \<and> r = [] \<and>
      q = [(get_pid h ''instance of'', get_qid h IXID_LABEL)])"

text \<open>The points in time that a statement carries in its reference.\<close>

fun reference_times :: "wiki_reference \<Rightarrow> datetime list" where
  "reference_times [] = []"
| "reference_times ((p, RStr v) # r) = reference_times r"
| "reference_times ((p, RTime t) # r) = t # reference_times r"

definition statement_times :: "statement \<Rightarrow> datetime list" where
  "statement_times s =
     (case statement_reference s of None \<Rightarrow> [] | Some r \<Rightarrow> reference_times r)"

text \<open>The links of an \<^verbatim>\<open>add_links\<close> call.\<close>

fun event_links :: "iyp_call event \<Rightarrow> link list" where
  "event_links (Call (AddLinks n links)) = links"
| "event_links (Call (GetNode label asn create)) = []"
| "event_links (Call Close) = []"
| "event_links (Fetch url status) = []"

definition midnight :: "datetime \<Rightarrow> datetime" where
  "midnight t = t\<lparr>hour := 0, minute := 0, second := 0, microsecond := 0\<rparr>"



section \<open>The identifier resolver of the spec\<close>

text \<open>
  Modelled from the spec: the class \<^verbatim>\<open>IYP\<close> (\<^verbatim>\<open>from iyp import IYP\<close>), whose method
  \<^verbatim>\<open>get_node\<close> is the resolver of AS numbers, is not among the source files. Section
  4.2 of the spec describes it: a value is looked up in an in-memory cache; if it is
  absent, the graph store is queried for a node with that identifier, which is cached
  and returned; otherwise the graph store is asked to create the node, which is cached
  and returned; a failure of the creation propagates. The graph store itself stays a
  parameter: its three operations may answer anything. \<open>creations\<close> records the creation
  requests issued to it.
\<close>

record 'g graph_store =
  find_node :: "string \<Rightarrow> int \<Rightarrow> 'g \<Rightarrow> node_id option"
  create_node :: "string \<Rightarrow> int \<Rightarrow> 'g \<Rightarrow> (error + node_id) \<times> 'g"
  merge_links :: "node_id \<Rightarrow> link list \<Rightarrow> 'g \<Rightarrow> (error + unit) \<times> 'g"

record 'g iyp_state =
  node_cache :: "string \<times> int \<rightharpoonup> node_id"
  graph :: 'g
  creations :: "(string \<times> int) list"

definition resolve_or_create ::
  "'g graph_store \<Rightarrow> string \<Rightarrow> int \<Rightarrow> 'g iyp_state \<Rightarrow> (error + node_id) \<times> 'g iyp_state" where
  "resolve_or_create gs namespace v st =
     (case node_cache st (namespace, v) of
        Some n \<Rightarrow> (Inr n, st)
      | None \<Rightarrow>
          (case find_node gs namespace v (graph st) of
             Some n \<Rightarrow> (Inr n, st\<lparr>node_cache := (node_cache st)((namespace, v) \<mapsto> n)\<rparr>)
           | None \<Rightarrow>
               (case create_node gs namespace v (graph st) of
                  (Inl e, g) \<Rightarrow>
                    (Inl e, st\<lparr>graph := g, creations := creations st @ [(namespace, v)]\<rparr>)
                | (Inr n, g) \<Rightarrow>
                    (Inr n,
                     st\<lparr>node_cache := (node_cache st)((namespace, v) \<mapsto> n), graph := g,
                        creations := creations st @ [(namespace, v)]\<rparr>))))"

text \<open>
  The spec says nothing of a \<^verbatim>\<open>get_node\<close> without \<^verbatim>\<open>create\<close> (the crawler never calls
  it so): here it looks the value up the same way and raises when no node is found.
\<close>

definition lookup_node ::
  "'g graph_store \<Rightarrow> string \<Rightarrow> int \<Rightarrow> 'g iyp_state \<Rightarrow> (error + node_id) \<times> 'g iyp_state" where
  "lookup_node gs namespace v st =
     (case node_cache st (namespace, v) of
        Some n \<Rightarrow> (Inr n, st)
      | None \<Rightarrow>
          (case find_node gs namespace v (graph st) of
             Some n \<Rightarrow> (Inr n, st\<lparr>node_cache := (node_cache st)((namespace, v) \<mapsto> n)\<rparr>)
           | None \<Rightarrow> (Inl (Exception ''node not found''), st)))"

definition spec_iyp :: "'g graph_store \<Rightarrow> 'g iyp_state IYP" where
  "spec_iyp gs =
     \<lparr>get_node = (\<lambda>label asn create.
         if create then resolve_or_create gs label asn else lookup_node gs label asn),
      add_links = (\<lambda>n links st.
         case merge_links gs n links (graph st) of (r, g) \<Rightarrow> (r, st\<lparr>graph := g\<rparr>)),
      close = (\<lambda>st. (Inr (), st))\<rparr>"

text \<open>What a sequence of calls on a handle does to the store behind it.\<close>

fun apply_call :: "'s IYP \<Rightarrow> iyp_call \<Rightarrow> 's \<Rightarrow> 's" where
  "apply_call h (GetNode label asn create) s = snd (get_node h label asn create s)"
| "apply_call h (AddLinks n links) s = snd (add_links h n links s)"
| "apply_call h Close s = snd (close h s)"

fun apply_calls :: "'s IYP \<Rightarrow> iyp_call list \<Rightarrow> 's \<Rightarrow> 's" where
  "apply_calls h [] s = s"
| "apply_calls h (c # cs) s = apply_calls h cs (apply_call h c s)"

fun event_calls :: "'r event list \<Rightarrow> 'r list" where
  "event_calls [] = []"
| "event_calls (Call c # evs) = c # event_calls evs"
| "event_calls (Fetch url status # evs) = event_calls evs"

section \<open>The graph store of the spec\<close>

text \<open>
  Modelled from the spec: the graph store behind \<^verbatim>\<open>IYP\<close> is an external collaborator
  and not among the source files. Sections 2 and 3 of the spec give it node lookup by
  property, node creation and the upsert of statements (create if absent, else update
  in place), a statement being identified by its node, relation and target.
\<close>

record graph_db =
  nodes :: "string \<times> int \<rightharpoonup> node_id"
  next_id :: node_id
  links :: "node_id \<times> string \<times> node_id \<rightharpoonup> reference_info"

definition upsert_link :: "node_id \<Rightarrow> link \<Rightarrow> graph_db \<Rightarrow> graph_db" where
  "upsert_link n l g =
     (case l of (relation, target, ref) \<Rightarrow> g\<lparr>links := (links g)((n, relation, target) \<mapsto> ref)\<rparr>)"

definition spec_graph :: "graph_db graph_store" where
  "spec_graph =
     \<lparr>find_node = (\<lambda>label v g. nodes g (label, v)),
      create_node = (\<lambda>label v g.
         (Inr (next_id g),
          g\<lparr>nodes := (nodes g)((label, v) \<mapsto> next_id g), next_id := Suc (next_id g)\<rparr>)),
      merge_links = (\<lambda>n ls g. (Inr (), fold (upsert_link n) ls g))\<rparr>"

definition empty_graph :: graph_db where
  "empty_graph = \<lparr>nodes = Map.empty, next_id = 0, links = Map.empty\<rparr>"

text \<open>The state of a new \<^verbatim>\<open>IYP\<close> handle on the graph \<open>g\<close>: nothing cached yet.\<close>

definition connect :: "'g \<Rightarrow> 'g iyp_state" where
  "connect g = \<lparr>node_cache = Map.empty, graph = g, creations = []\<rparr>"

section \<open>Vocabulary of the idempotence property\<close>

text \<open>
  The node set of a graph is its map from identifiers to nodes (with the counter of
  created nodes); its statement set is the set of the keys (node, relation, target)
  that carry a statement.
\<close>

definition same_sets :: "graph_db \<Rightarrow> graph_db \<Rightarrow> bool" where
  "same_sets g g' =
     (nodes g = nodes g' \<and> next_id g = next_id g' \<and> dom (links g) = dom (links g'))"

definition graph_le :: "graph_db \<Rightarrow> graph_db \<Rightarrow> bool" where
  "graph_le g g' = (nodes g \<subseteq>\<^sub>m nodes g' \<and> dom (links g) \<subseteq> dom (links g'))"

definition cache_ok :: "graph_db iyp_state \<Rightarrow> bool" where
  "cache_ok st = (node_cache st \<subseteq>\<^sub>m nodes (graph st))"

text \<open>The graph holds both nodes of the record and the statement between them.\<close>

definition rel_covered :: "graph_db \<Rightarrow> as_rel \<Rightarrow> bool" where
  "rel_covered g r =
     (case nodes g (''AS'', asn1 r) of
        None \<Rightarrow> False
      | Some n1 \<Rightarrow>
          (case nodes g (''AS'', asn2 r) of
             None \<Rightarrow> False
           | Some n2 \<Rightarrow> (n1, ''PEERS_WITH'', n2) \<in> dom (links g)))"

section \<open>The wikibase of the spec\<close>

text \<open>
  Modelled from the spec: the class \<^verbatim>\<open>Wikihandy\<close> (\<^verbatim>\<open>iyp.wiki.wikihandy\<close>) and the
  wikibase behind it are not among the source files. After sections 3 and 6 of the
  spec, the store maps an external identifier (namespace, value) to at most one node
  and keeps that durably (\<open>ext_index\<close>, from which the bulk preload of one namespace
  is read); a statement is identified by its node, its relation and its target, and
  submitting it is an upsert (create if absent, else update in place); \<^verbatim>\<open>add_item\<close>
  creates a node with its statements, registering the external identifiers among them;
  \<^verbatim>\<open>prefix2qid\<close> resolves the node of a prefix and creates it when asked to. The
  label tables are fixed, so \<^verbatim>\<open>get_qid\<close> with \<^verbatim>\<open>create\<close> answers from the table. No
  operation of this store raises, except the lookup of an unknown prefix without
  \<^verbatim>\<open>create\<close>.
\<close>

record wikibase =
  ext_index :: "qid \<times> string \<rightharpoonup> qid"
  pfx_index :: "string \<rightharpoonup> qid"
  claims :: "qid \<times> pid \<times> string \<rightharpoonup> statement"
  next_item :: nat

fun statement_value :: "statement \<Rightarrow> string" where
  "statement_value (Stmt2 p v) = v"
| "statement_value (Stmt3 p v r) = v"
| "statement_value (Stmt4 p v r q) = v"

definition upsert_statement :: "qid \<Rightarrow> statement \<Rightarrow> wikibase \<Rightarrow> wikibase" where
  "upsert_statement q st s =
     s\<lparr>claims := (claims s)((q, statement_pid st, statement_value st) \<mapsto> st)\<rparr>"

definition new_qid :: "wikibase \<Rightarrow> qid" where
  "new_qid s = CHR ''Q'' # str (int (next_item s))"

definition register_class :: "pid \<Rightarrow> qid \<Rightarrow> string \<Rightarrow> pid \<times> string \<Rightarrow> wikibase \<Rightarrow> wikibase" where
  "register_class inst q v qualifier s =
     (case qualifier of
        (qp, cls) \<Rightarrow> if qp = inst then s\<lparr>ext_index := (ext_index s)((cls, v) \<mapsto> q)\<rparr> else s)"

fun register_identifier :: "pid \<Rightarrow> pid \<Rightarrow> qid \<Rightarrow> statement \<Rightarrow> wikibase \<Rightarrow> wikibase" where
  "register_identifier ext inst q (Stmt2 p v) s = s"
| "register_identifier ext inst q (Stmt3 p v r) s = s"
| "register_identifier ext inst q (Stmt4 p v r quals) s =
     (if p = ext then fold (register_class inst q v) quals s else s)"

definition spec_wh ::
  "(string \<Rightarrow> pid) \<Rightarrow> (string \<Rightarrow> qid) \<Rightarrow> (string \<Rightarrow> qid option) \<Rightarrow> wikibase Wikihandy" where
  "spec_wh pids qids countries =
     \<lparr>get_pid = pids,
      get_qid = qids,
      country2qid = countries,
      extid2qid_qid = (\<lambda>cls s v. ext_index s (cls, v)),
      extid2qid_label = (\<lambda>label s v. ext_index s (qids label, v)),
      get_qid_create = (\<lambda>label summary description s. (Inr (qids label), s)),
      login = (\<lambda>s. (Inr (), s)),
      add_item = (\<lambda>summary label description statements s.
         (Inr (new_qid s),
          fold (register_identifier (pids ''external ID'') (pids ''instance of'') (new_qid s))
            statements
            (fold (upsert_statement (new_qid s)) statements
               (s\<lparr>next_item := Suc (next_item s)\<rparr>)))),
      upsert_statements = (\<lambda>summary q statements s.
         (Inr (), fold (upsert_statement q) statements s)),
      prefix2qid = (\<lambda>p create s.
         case pfx_index s p of
           Some q \<Rightarrow> (Inr q, s)
         | None \<Rightarrow>
             if create
             then (Inr (new_qid s),
                   s\<lparr>pfx_index := (pfx_index s)(p \<mapsto> new_qid s),
                     next_item := Suc (next_item s)\<rparr>)
             else (Inl (Exception ''prefix not found''), s))\<rparr>"

definition empty_wikibase :: wikibase where
  "empty_wikibase =
     \<lparr>ext_index = Map.empty, pfx_index = Map.empty, claims = Map.empty, next_item = 0\<rparr>"

subsection \<open>Node and statement sets of the wikibase\<close>

text \<open>
  The node set is given by the two indexes and the counter of created items, the
  statement set by the keys (node, relation, target) that carry a statement.
\<close>

definition wb_same :: "wikibase \<Rightarrow> wikibase \<Rightarrow> bool" where
  "wb_same s s' =
     (ext_index s = ext_index s' \<and> pfx_index s = pfx_index s' \<and>
      next_item s = next_item s' \<and> dom (claims s) = dom (claims s'))"

text \<open>
  \<open>wb_le ixcls s s'\<close>: from \<open>s\<close> to \<open>s'\<close> nothing was removed or remapped, and identifiers
  were added to the namespace \<open>ixcls\<close> only.
\<close>

definition wb_le :: "qid \<Rightarrow> wikibase \<Rightarrow> wikibase \<Rightarrow> bool" where
  "wb_le ixcls s s' =
     (ext_index s \<subseteq>\<^sub>m ext_index s' \<and> pfx_index s \<subseteq>\<^sub>m pfx_index s' \<and>
      dom (claims s) \<subseteq> dom (claims s') \<and>
      (\<forall>cls v. cls \<noteq> ixcls \<longrightarrow> ext_index s' (cls, v) = ext_index s (cls, v)))"

text \<open>The crawler's cache of exchange points is the store's index of their namespace.\<close>

definition ix_cache_ok :: "wikibase ix_crawler \<Rightarrow> wikibase \<Rightarrow> bool" where
  "ix_cache_ok self s =
     (ixid2qid self = (\<lambda>v. ext_index s (get_qid (wh self) IXID_LABEL, v)))"

text \<open>
  The keys (relation, target) of the statements that \<^verbatim>\<open>update_ix\<close> builds for a
  record, given the handle and the organization map (lemma \<open>ix_statements_keys\<close>).
\<close>

definition ix_keys :: "'s Wikihandy \<Rightarrow> (string \<rightharpoonup> qid) \<Rightarrow> ix \<Rightarrow> (pid \<times> string) list" where
  "ix_keys h orgs x =
     [(get_pid h ''instance of'', get_qid h ''Internet exchange point''),
      (get_pid h ''name'', strip (ix_name x))] @
     (case orgs (str (ix_org_id x)) of
        Some q \<Rightarrow> [(get_pid h ''managed by'', q)]
      | None \<Rightarrow> []) @
     (if ix_country x \<noteq> []
      then (case country2qid h (ix_country x) of
              Some country_qid \<Rightarrow> [(get_pid h ''country'', country_qid)]
            | None \<Rightarrow> [])
      else []) @
     (if ix_website x \<noteq> [] then [(get_pid h ''website'', ix_website x)] else []) @
     (if ix_url_stats x \<noteq> [] then [(get_pid h ''website'', ix_url_stats x)] else [])"

text \<open>
  The store holds everything a run writes for a prefix, for the LANs of an exchange
  point, for an exchange point, and for the exchange points of a list.
\<close>

definition pfx_covered :: "wikibase Wikihandy \<Rightarrow> qid \<Rightarrow> wikibase \<Rightarrow> ixpfx \<Rightarrow> bool" where
  "pfx_covered h q s p =
     (case pfx_index s (ixpfx_prefix p) of
        None \<Rightarrow> False
      | Some pq \<Rightarrow>
          (pq, get_pid h ''instance of'', get_qid h ''peering LAN'') \<in> dom (claims s) \<and>
          (pq, get_pid h ''managed by'', q) \<in> dom (claims s))"

definition lans_covered :: "wikibase Wikihandy \<Rightarrow> qid \<Rightarrow> wikibase \<Rightarrow> lan list \<Rightarrow> bool" where
  "lans_covered h q s lans = (\<forall>l\<in>set lans. \<forall>p\<in>set (ixpfx_set l). pfx_covered h q s p)"

definition ixlans_covered ::
  "wikibase Wikihandy \<Rightarrow> peeringdb_api \<Rightarrow> qid \<Rightarrow> wikibase \<Rightarrow> ixlan list \<Rightarrow> bool" where
  "ixlans_covered h api q s ixlans =
     (\<forall>l\<in>set ixlans.
        lans_covered h q s (data (api_lan api (URL_PDB_LAN @ ''/'' @ str (ixlan_id l)))))"

definition ix_covered ::
  "wikibase Wikihandy \<Rightarrow> (string \<rightharpoonup> qid) \<Rightarrow> peeringdb_api \<Rightarrow> wikibase \<Rightarrow> ix \<Rightarrow> bool" where
  "ix_covered h orgs api s x =
     (case ext_index s (get_qid h IXID_LABEL, str (ix_id x)) of
        None \<Rightarrow> False
      | Some q \<Rightarrow>
          (\<forall>k\<in>set (ix_keys h orgs x). (q, k) \<in> dom (claims s)) \<and>
          (case ix_ixlan_set x of
             None \<Rightarrow> True
           | Some ixlans \<Rightarrow> ixlans_covered h api q s ixlans))"

definition list_covered ::
  "wikibase Wikihandy \<Rightarrow> (string \<rightharpoonup> qid) \<Rightarrow> peeringdb_api \<Rightarrow> wikibase \<Rightarrow> ix list \<Rightarrow> bool" where
  "list_covered h orgs api s xs =
     (\<forall>x\<in>set xs.
        case data (api_ix api (URL_PDB_IXS @ ''/'' @ str (ix_id x))) of
          [] \<Rightarrow> True
        | ix_info # rest \<Rightarrow> ix_covered h orgs api s ix_info)"

section \<open>Example stores and inputs\<close>

text \<open>
  A store handle for the examples: \<^verbatim>\<open>get_node\<close> raises for the listed ASNs and
  otherwise answers the ASN as node id; \<^verbatim>\<open>add_links\<close> raises for the listed nodes
  and otherwise appends the links to the store.
\<close>

definition scripted_iyp :: "int list \<Rightarrow> node_id list \<Rightarrow> (node_id \<times> link) list IYP" where
  "scripted_iyp bad_asns bad_nodes =
     \<lparr>get_node = (\<lambda>label asn create s.
         if asn \<in> set bad_asns then (Inl (Exception ''node creation failed''), s)
         else (Inr (nat asn), s)),
      add_links = (\<lambda>n links s.
         if n \<in> set bad_nodes then (Inl (Exception ''write failed''), s)
         else (Inr (), s @ map (Pair n) links)),
      close = (\<lambda>s. (Inr (), s))\<rparr>"

definition noon :: datetime where
  "noon = \<lparr>year = 2023, month = 3, day = 14, hour = 12, minute = 34, second = 56,
           microsecond = 789\<rparr>"


text \<open>
  A \<^verbatim>\<open>Wikihandy\<close> handle for the examples. Its store is the list of the items and
  statements written so far. \<^verbatim>\<open>add_item\<close> raises for the listed labels,
  \<^verbatim>\<open>upsert_statements\<close> raises for the listed items; the only organization known is
  the one with the identifier 7, the only country \<^verbatim>\<open>JP\<close>.
\<close>

definition scripted_wh :: "string list \<Rightarrow> qid list \<Rightarrow> (qid \<times> statement list) list Wikihandy" where
  "scripted_wh bad_labels bad_items =
     \<lparr>get_pid = (\<lambda>label. ''P:'' @ label),
      get_qid = (\<lambda>label. ''Q:'' @ label),
      country2qid = (\<lambda>cc. if cc = ''JP'' then Some ''Q:Japan'' else None),
      extid2qid_qid = (\<lambda>q s. Map.empty),
      extid2qid_label = (\<lambda>label s. if label = ORGID_LABEL then [''7'' \<mapsto> ''Q:org7''] else Map.empty),
      get_qid_create = (\<lambda>label summary description s. (Inr (''Q:'' @ label), s)),
      login = (\<lambda>s. (Inr (), s)),
      add_item = (\<lambda>summary label description statements s.
         if label \<in> set bad_labels then (Inl (Exception ''item creation failed''), s)
         else (Inr (''Q:'' @ label), s @ [(''Q:'' @ label, statements)])),
      upsert_statements = (\<lambda>summary q statements s.
         if q \<in> set bad_items then (Inl (Exception ''write failed''), s)
         else (Inr (), s @ [(q, statements)])),
      prefix2qid = (\<lambda>p create s. (Inr (''Q:'' @ p), s))\<rparr>"

text \<open>
  A PeeringDB for the examples: the listed URLs answer 503, every other 200; the list
  endpoint and the detail endpoints answer from \<open>ixs\<close>, every LAN endpoint answers \<open>lans\<close>.
\<close>

definition scripted_api :: "string list \<Rightarrow> ix list \<Rightarrow> lan list \<Rightarrow> peeringdb_api" where
  "scripted_api bad_urls ixs lans =
     \<lparr>api_ix = (\<lambda>url.
         \<lparr>status_code = (if url \<in> set bad_urls then 503 else 200),
          data = (if url = URL_PDB_IXS then ixs
                  else filter (\<lambda>x. URL_PDB_IXS @ ''/'' @ str (ix_id x) = url) ixs)\<rparr>),
      api_lan = (\<lambda>url.
         \<lparr>status_code = (if url \<in> set bad_urls then 503 else 200), data = lans\<rparr>)\<rparr>"

definition ix_tokyo :: ix where
  "ix_tokyo =
     \<lparr>ix_id = 1, ix_name = '' Tokyo IX '', ix_name_long = ''Tokyo Internet Exchange'',
      ix_org_id = 7, ix_country = ''JP'', ix_website = ''https://tokyo.example'',
      ix_url_stats = ''https://tokyo.example/stats'', ix_ixlan_set = Some [\<lparr>ixlan_id = 11\<rparr>]\<rparr>"

definition ix_nowhere :: ix where
  "ix_nowhere =
     \<lparr>ix_id = 2, ix_name = ''Nowhere IX'', ix_name_long = ''Nowhere Exchange'',
      ix_org_id = 8, ix_country = [], ix_website = [], ix_url_stats = [],
      ix_ixlan_set = None\<rparr>"

definition lan_tokyo :: lan where
  "lan_tokyo = \<lparr>ixpfx_set = [\<lparr>ixpfx_prefix = ''192.0.2.0/24''\<rparr>]\<rparr>"

text \<open>
  The crawler and the world that \<^verbatim>\<open>Crawler.__init__\<close> leaves on the example handle
  at \<open>noon\<close> (lemma \<open>example_crawler_init\<close>).
\<close>

definition example_crawler ::
  "string list \<Rightarrow> qid list \<Rightarrow> (qid \<times> statement list) list ix_crawler" where
  "example_crawler bad_labels bad_items =
     \<lparr>wh = scripted_wh bad_labels bad_items,
      ixid2qid = Map.empty,
      orgid2qid = [''7'' \<mapsto> ''Q:org7''],
      today = wh_today noon,
      reference_ix =
        [(''P:source'', RStr ''Q:PeeringDB''),
         (''P:reference URL'', RStr URL_PDB_IXS),
         (''P:point in time'', RTime (wh_today noon))]\<rparr>"

definition example_world :: "((qid \<times> statement list) list, wh_call) world" where
  "example_world =
     \<lparr>store = [],
      events =
        [Call (GetQidCreate IXID_LABEL ''add PeeringDB ix IDs''
           ''Identifier for an exchange point in the PeeringDB database'')],
      stdout = [], stderr = []\<rparr>"

definition ix_osaka :: ix where
  "ix_osaka =
     \<lparr>ix_id = 3, ix_name = ''Osaka IX'', ix_name_long = ''Osaka Internet Exchange'',
      ix_org_id = 7, ix_country = ''XX'', ix_website = ''https://osaka.example'',
      ix_url_stats = [], ix_ixlan_set = Some [\<lparr>ixlan_id = 31\<rparr>]\<rparr>"

text \<open>The handle of the spec's wikibase with the label tables of the examples.\<close>

definition example_wh :: "wikibase Wikihandy" where
  "example_wh =
     spec_wh (\<lambda>label. ''P:'' @ label) (\<lambda>label. ''Q:'' @ label)
       (\<lambda>cc. if cc = ''JP'' then Some ''Q:Japan'' else None)"

section \<open>Properties of the runtime model\<close>

lemma print_simps:
  "store (print a w) = store w" "events (print a w) = events w"
  "stdout (print a w) = stdout w @ [a]" "stderr (print a w) = stderr w"
  by (simp_all add: print_def)

lemma stderr_write_simps:
  "store (stderr_write a w) = store w" "events (stderr_write a w) = events w"
  "stdout (stderr_write a w) = stdout w" "stderr (stderr_write a w) = stderr w @ [a]"
  by (simp_all add: stderr_write_def)

lemma requests_get_world:
  assumes "requests_get web url w = (req, w')"
  shows "req = web url" "events w' = events w @ [Fetch url (status_code (web url))]"
    "stdout w' = stdout w" "stderr w' = stderr w" "store w' = store w"
  using assms by (auto simp: requests_get_def Let_def)

lemma list_all_is_call_fetch_ok: "list_all is_call evs \<Longrightarrow> list_all fetch_ok evs"
  by (induction evs) (auto elim: is_call.elims)

lemma fetch_abort_append:
  "list_all fetch_ok evs1 \<Longrightarrow> fetch_abort ex (evs1 @ evs2) = fetch_abort ex evs2"
proof (induction evs1)
  case Nil
  then show ?case by simp
next
  case (Cons e evs1)
  then show ?case by (cases e) simp_all
qed

lemma fetch_abort_ok: "list_all fetch_ok evs \<Longrightarrow> fetch_abort ex evs"
  using fetch_abort_append [of evs ex "[]"] by simp

lemma fetch_abort_not_exit: "fetch_abort False evs \<Longrightarrow> list_all fetch_ok evs"
proof (induction evs)
  case Nil
  then show ?case by simp
next
  case (Cons e evs)
  then show ?case by (cases e) (simp_all split: if_splits)
qed


section \<open>Properties of the AS-relationship crawler\<close>

lemma iyp_get_node_eq:
  "get_node h l a c (store w) = (r, s) \<Longrightarrow>
   iyp_get_node h l a c w = (r, w\<lparr>store := s, events := events w @ [Call (GetNode l a c)]\<rparr>)"
  by (simp add: iyp_get_node_def)

lemma iyp_add_links_eq:
  "add_links h n ls (store w) = (r, s) \<Longrightarrow>
   iyp_add_links h n ls w = (r, w\<lparr>store := s, events := events w @ [Call (AddLinks n ls)]\<rparr>)"
  by (simp add: iyp_add_links_def)

lemma update_asn_ok:
  assumes "get_node (iyp self) ''AS'' (asn1 r) True (store w) = (Inr n1, s1)"
      and "get_node (iyp self) ''AS'' (asn2 r) True s1 = (Inr n2, s2)"
      and "add_links (iyp self) n1 [(''PEERS_WITH'', n2, reference self)] s2 = (Inr u, s3)"
  shows "update_asn self r w =
           (Inr (n1, n2),
            w\<lparr>store := s3,
              events := events w @
                [Call (GetNode ''AS'' (asn1 r) True), Call (GetNode ''AS'' (asn2 r) True),
                 Call (AddLinks n1 [(''PEERS_WITH'', n2, reference self)])]\<rparr>)"
  using assms by (simp add: update_asn_def iyp_get_node_eq iyp_add_links_eq)

lemma update_asn_caught:
  assumes "get_node (iyp self) ''AS'' (asn1 r) True (store w) = (Inr n1, s1)"
      and "get_node (iyp self) ''AS'' (asn2 r) True s1 = (Inr n2, s2)"
      and "add_links (iyp self) n1 [(''PEERS_WITH'', n2, reference self)] s2 =
             (Inl (Exception err), s3)"
  shows "update_asn self r w =
           (Inr (n1, n2),
            w\<lparr>store := s3,
              events := events w @
                [Call (GetNode ''AS'' (asn1 r) True), Call (GetNode ''AS'' (asn2 r) True),
                 Call (AddLinks n1 [(''PEERS_WITH'', n2, reference self)])],
              stdout := stdout w @ [[PStr ''Error for: '', PRel r], [PErr (Exception err)]]\<rparr>)"
  using assms by (simp add: update_asn_def iyp_get_node_eq iyp_add_links_eq print_def)

lemma update_asn_exit:
  assumes "get_node (iyp self) ''AS'' (asn1 r) True (store w) = (Inr n1, s1)"
      and "get_node (iyp self) ''AS'' (asn2 r) True s1 = (Inr n2, s2)"
      and "add_links (iyp self) n1 [(''PEERS_WITH'', n2, reference self)] s2 =
             (Inl (SystemExit m), s3)"
  shows "update_asn self r w =
           (Inl (SystemExit m),
            w\<lparr>store := s3,
              events := events w @
                [Call (GetNode ''AS'' (asn1 r) True), Call (GetNode ''AS'' (asn2 r) True),
                 Call (AddLinks n1 [(''PEERS_WITH'', n2, reference self)])]\<rparr>)"
  using assms by (simp add: update_asn_def iyp_get_node_eq iyp_add_links_eq)

lemma update_asn_fail1:
  assumes "get_node (iyp self) ''AS'' (asn1 r) True (store w) = (Inl e, s1)"
  shows "update_asn self r w =
           (Inl e, w\<lparr>store := s1, events := events w @ [Call (GetNode ''AS'' (asn1 r) True)]\<rparr>)"
  using assms by (simp add: update_asn_def iyp_get_node_eq)

lemma update_asn_fail2:
  assumes "get_node (iyp self) ''AS'' (asn1 r) True (store w) = (Inr n1, s1)"
      and "get_node (iyp self) ''AS'' (asn2 r) True s1 = (Inl e, s2)"
  shows "update_asn self r w =
           (Inl e, w\<lparr>store := s2, events := events w @
              [Call (GetNode ''AS'' (asn1 r) True), Call (GetNode ''AS'' (asn2 r) True)]\<rparr>)"
  using assms by (simp add: update_asn_def iyp_get_node_eq)

lemma as2rel_loop_append:
  "as2rel_loop self i (xs @ ys) w =
     (case as2rel_loop self i xs w of
        (Inl e, w') \<Rightarrow> (Inl e, w')
      | (Inr u, w') \<Rightarrow> as2rel_loop self (i + length xs) ys w')"
  by (induction xs arbitrary: i w) (simp_all split: prod.splits sum.splits)

lemma update_asn_calls:
  assumes "update_asn self r w = (res, w')"
  shows "\<exists>evs. events w' = events w @ evs \<and> list_all is_call evs"
  using assms
  by (auto simp: update_asn_def iyp_get_node_def iyp_add_links_def print_def Let_def
      split: prod.splits sum.splits error.splits)

lemma as2rel_loop_calls:
  assumes "as2rel_loop self i rs w = (res, w')"
  shows "\<exists>evs. events w' = events w @ evs \<and> list_all is_call evs"
  using assms
proof (induction rs arbitrary: i w)
  case Nil
  then show ?case by simp
next
  case (Cons r rs)
  obtain r1 w1 where u: "update_asn self r w = (r1, w1)" by (meson surj_pair)
  from update_asn_calls [OF u] obtain evs1 where
    e1: "events w1 = events w @ evs1" "list_all is_call evs1" by blast
  show ?case
  proof (cases r1)
    case (Inl e)
    with Cons.prems u have "w' = w1" by simp
    with e1 show ?thesis by simp
  next
    case (Inr ids)
    let ?w2 = "stderr_write (CHR 0x0D # ''Processed '' @ str (int i) @ '' relationships'') w1"
    from Cons.prems u Inr have "as2rel_loop self (Suc i) rs ?w2 = (res, w')" by simp
    from Cons.IH [OF this] obtain evs where
      "events w' = events ?w2 @ evs" "list_all is_call evs" by blast
    with e1 show ?thesis by (simp add: stderr_write_def)
  qed
qed

lemma as2rel_run_trace:
  assumes "as2rel_run self web w = (res, w')"
  shows "\<exists>evs. events w' = events w @ evs \<and> fetch_abort (is_exit res) evs"
proof -
  obtain req w1 where g: "requests_get web URL_BGPKIT_AS2REL w = (req, w1)"
    by (meson surj_pair)
  note w1 = requests_get_world [OF g]
  show ?thesis
  proof (cases "status_code req = 200")
    case False
    with assms g have "res = Inl (SystemExit ''Error while fetching AS relationships'')" "w' = w1"
      by (simp_all add: as2rel_run_def)
    with w1 False show ?thesis by (simp add: is_exit_def)
  next
    case True
    obtain r2 w2 where l: "as2rel_loop self 0 (data req) w1 = (r2, w2)" by (meson surj_pair)
    from as2rel_loop_calls [OF l] obtain evs2 where
      e2: "events w2 = events w1 @ evs2" "list_all is_call evs2" by blast
    show ?thesis
    proof (cases r2)
      case (Inl e)
      with assms g True l have "w' = w2" by (simp add: as2rel_run_def)
      with w1 e2 True show ?thesis
        by (simp add: fetch_abort_ok list_all_is_call_fetch_ok)
    next
      case (Inr u)
      with assms g True l have "iyp_close (iyp self) (stderr_write [CHR 0x0A] w2) = (res, w')"
        by (simp add: as2rel_run_def)
      then have "events w' = events w2 @ [Call Close]"
        by (auto simp: iyp_close_def stderr_write_def split: prod.splits)
      with w1 e2 True show ?thesis
        by (simp add: fetch_abort_ok list_all_is_call_fetch_ok)
    qed
  qed
qed

lemma update_asn_links:
  assumes "update_asn self r w = (res, w')"
  shows "\<exists>evs. events w' = events w @ evs \<and>
           (\<forall>e\<in>set evs. \<forall>l\<in>set (event_links e). snd (snd l) = reference self)"
  using assms
  by (auto simp: update_asn_def iyp_get_node_def iyp_add_links_def print_def Let_def
      split: prod.splits sum.splits error.splits)

lemma as2rel_loop_links:
  assumes "as2rel_loop self i rs w = (res, w')"
  shows "\<exists>evs. events w' = events w @ evs \<and>
           (\<forall>e\<in>set evs. \<forall>l\<in>set (event_links e). snd (snd l) = reference self)"
  using assms
proof (induction rs arbitrary: i w)
  case Nil
  then show ?case by simp
next
  case (Cons r rs)
  obtain r1 w1 where u: "update_asn self r w = (r1, w1)" by (meson surj_pair)
  from update_asn_links [OF u] obtain evs1 where
    e1: "events w1 = events w @ evs1"
      "\<forall>e\<in>set evs1. \<forall>l\<in>set (event_links e). snd (snd l) = reference self" by blast
  show ?case
  proof (cases r1)
    case (Inl e)
    with Cons.prems u have "w' = w1" by simp
    with e1 show ?thesis by simp
  next
    case (Inr ids)
    let ?w2 = "stderr_write (CHR 0x0D # ''Processed '' @ str (int i) @ '' relationships'') w1"
    from Cons.prems u Inr have "as2rel_loop self (Suc i) rs ?w2 = (res, w')" by simp
    from Cons.IH [OF this] obtain evs where
      "events w' = events ?w2 @ evs"
      "\<forall>e\<in>set evs. \<forall>l\<in>set (event_links e). snd (snd l) = reference self" by blast
    with e1 show ?thesis by (auto simp: stderr_write_def)
  qed
qed

lemma as2rel_run_links:
  assumes "as2rel_run self web w = (res, w')"
  shows "\<exists>evs. events w' = events w @ evs \<and>
           (\<forall>e\<in>set evs. \<forall>l\<in>set (event_links e). snd (snd l) = reference self)"
proof -
  obtain req w1 where g: "requests_get web URL_BGPKIT_AS2REL w = (req, w1)"
    by (meson surj_pair)
  note w1 = requests_get_world [OF g]
  show ?thesis
  proof (cases "status_code req = 200")
    case False
    with assms g have "w' = w1" by (simp add: as2rel_run_def)
    with w1 show ?thesis by simp
  next
    case True
    obtain r2 w2 where l: "as2rel_loop self 0 (data req) w1 = (r2, w2)" by (meson surj_pair)
    from as2rel_loop_links [OF l] obtain evs2 where
      e2: "events w2 = events w1 @ evs2"
       "\<forall>e\<in>set evs2. \<forall>l\<in>set (event_links e). snd (snd l) = reference self" by blast
    show ?thesis
    proof (cases r2)
      case (Inl e)
      with assms g True l have "w' = w2" by (simp add: as2rel_run_def)
      with w1 e2 show ?thesis by simp
    next
      case (Inr u)
      with assms g True l have "iyp_close (iyp self) (stderr_write [CHR 0x0A] w2) = (res, w')"
        by (simp add: as2rel_run_def)
      then have "events w' = events w2 @ [Call Close]"
        by (auto simp: iyp_close_def stderr_write_def split: prod.splits)
      with w1 e2 show ?thesis by auto
    qed
  qed
qed

lemma event_calls_append: "event_calls (xs @ ys) = event_calls xs @ event_calls ys"
  by (induction xs rule: event_calls.induct) simp_all

lemma apply_calls_append: "apply_calls h (xs @ ys) s = apply_calls h ys (apply_calls h xs s)"
  by (induction xs arbitrary: s) simp_all

lemma update_asn_replay:
  assumes "update_asn self r w = (res, w')"
  shows "\<exists>evs. events w' = events w @ evs \<and>
           store w' = apply_calls (iyp self) (event_calls evs) (store w)"
  using assms
  by (auto simp: update_asn_def iyp_get_node_def iyp_add_links_def print_def Let_def
      split: prod.splits sum.splits error.splits)

lemma as2rel_loop_replay:
  assumes "as2rel_loop self i rs w = (res, w')"
  shows "\<exists>evs. events w' = events w @ evs \<and>
           store w' = apply_calls (iyp self) (event_calls evs) (store w)"
  using assms
proof (induction rs arbitrary: i w)
  case Nil
  then show ?case by simp
next
  case (Cons r rs)
  obtain r1 w1 where u: "update_asn self r w = (r1, w1)" by (meson surj_pair)
  from update_asn_replay [OF u] obtain evs1 where
    e1: "events w1 = events w @ evs1"
      "store w1 = apply_calls (iyp self) (event_calls evs1) (store w)" by blast
  show ?case
  proof (cases r1)
    case (Inl e)
    with Cons.prems u have "w' = w1" by simp
    with e1 show ?thesis by simp
  next
    case (Inr ids)
    let ?w2 = "stderr_write (CHR 0x0D # ''Processed '' @ str (int i) @ '' relationships'') w1"
    from Cons.prems u Inr have "as2rel_loop self (Suc i) rs ?w2 = (res, w')" by simp
    from Cons.IH [OF this] obtain evs where
      "events w' = events ?w2 @ evs"
      "store w' = apply_calls (iyp self) (event_calls evs) (store ?w2)" by blast
    with e1 have "events w' = events w @ (evs1 @ evs) \<and>
        store w' = apply_calls (iyp self) (event_calls (evs1 @ evs)) (store w)"
      by (simp add: stderr_write_def event_calls_append apply_calls_append)
    then show ?thesis by (rule exI)
  qed
qed

lemma resolve_or_create_cached:
  "node_cache st (ns, v) = Some n \<Longrightarrow> resolve_or_create gs ns v st = (Inr n, st)"
  by (simp add: resolve_or_create_def)

lemma resolve_or_create_result:
  assumes "resolve_or_create gs ns v st = (Inr n, st')"
  shows "node_cache st' (ns, v) = Some n"
    "creations st' = creations st \<or> creations st' = creations st @ [(ns, v)]"
  using assms
  by (auto simp: resolve_or_create_def split: option.splits prod.splits sum.splits)

lemma resolve_or_create_grows:
  "node_cache st \<subseteq>\<^sub>m node_cache (snd (resolve_or_create gs ns v st))"
  by (auto simp: resolve_or_create_def map_le_def split: option.splits prod.splits sum.splits)

lemma lookup_node_grows:
  "node_cache st \<subseteq>\<^sub>m node_cache (snd (lookup_node gs ns v st))"
  by (auto simp: lookup_node_def map_le_def split: option.splits)

lemma apply_call_grows:
  "node_cache st \<subseteq>\<^sub>m node_cache (apply_call (spec_iyp gs) c st)"
proof (cases c)
  case (GetNode l a cr)
  then show ?thesis
    by (simp add: spec_iyp_def resolve_or_create_grows lookup_node_grows)
next
  case (AddLinks n ls)
  then show ?thesis by (simp add: spec_iyp_def map_le_def split: prod.splits)
next
  case Close
  then show ?thesis by (simp add: spec_iyp_def map_le_def)
qed

lemma apply_calls_grows:
  "node_cache st \<subseteq>\<^sub>m node_cache (apply_calls (spec_iyp gs) cs st)"
proof (induction cs arbitrary: st)
  case Nil
  show ?case by simp
next
  case (Cons c cs)
  have "node_cache st \<subseteq>\<^sub>m node_cache (apply_call (spec_iyp gs) c st)"
    by (rule apply_call_grows)
  also have "\<dots> \<subseteq>\<^sub>m node_cache (apply_calls (spec_iyp gs) cs (apply_call (spec_iyp gs) c st))"
    by (rule Cons.IH)
  finally show ?case by simp
qed


section \<open>Properties of the exchange-point crawler\<close>

lemma wh_call_eq:
  "m (store w) = (r, s) \<Longrightarrow> wh_call m c w = (r, w\<lparr>store := s, events := events w @ [Call c]\<rparr>)"
  by (simp add: wh_call_def)

lemma wh_call_world:
  assumes "wh_call m c w = (r, w')"
  shows "events w' = events w @ [Call c]" "stdout w' = stdout w" "stderr w' = stderr w"
  using assms by (auto simp: wh_call_def split: prod.splits)

lemma same_cfg_refl: "same_cfg c c"
  by (simp add: same_cfg_def)

lemma same_cfg_trans: "same_cfg a b \<Longrightarrow> same_cfg b c \<Longrightarrow> same_cfg a c"
  by (simp add: same_cfg_def)

lemma pfx_reference_cfg: "same_cfg c self \<Longrightarrow> pfx_reference self u = pfx_reference c u"
  by (simp add: same_cfg_def pfx_reference_def)

lemma ix_qid_cached:
  "ixid2qid self (str (ix_id x)) = Some q \<Longrightarrow> ix_qid x self w = (Inr q, self, w)"
  by (simp add: ix_qid_def dom_def)

lemma ix_qid_cases:
  assumes "ix_qid x self w = (r, self1, w1)"
  shows "(\<exists>q. ixid2qid self (str (ix_id x)) = Some q \<and> r = Inr q \<and> self1 = self \<and> w1 = w) \<or>
         (ixid2qid self (str (ix_id x)) = None \<and>
          events w1 = events w @
            [Call (AddItem ''add new peeringDB IX'' (ix_name x) (ix_name_long x)
               [Stmt2 (get_pid (wh self) ''instance of'')
                  (get_qid (wh self) ''Internet exchange point''),
                Stmt4 (get_pid (wh self) ''external ID'') (str (ix_id x)) []
                  [(get_pid (wh self) ''instance of'', get_qid (wh self) IXID_LABEL)]])] \<and>
          stdout w1 = stdout w \<and> stderr w1 = stderr w \<and>
          ((\<exists>e. r = Inl e \<and> self1 = self) \<or>
           (\<exists>q. r = Inr q \<and> self1 = self\<lparr>ixid2qid := (ixid2qid self)(str (ix_id x) \<mapsto> q)\<rparr>)))"
proof (cases "ixid2qid self (str (ix_id x))")
  case (Some q)
  with assms show ?thesis by (simp add: ix_qid_cached)
next
  case None
  obtain res w' where a: "wh_add_item (wh self) ''add new peeringDB IX'' (ix_name x) (ix_name_long x)
               [Stmt2 (get_pid (wh self) ''instance of'')
                  (get_qid (wh self) ''Internet exchange point''),
                Stmt4 (get_pid (wh self) ''external ID'') (str (ix_id x)) []
                  [(get_pid (wh self) ''instance of'', get_qid (wh self) IXID_LABEL)]] w = (res, w')"
    by (meson surj_pair)
  note ww = wh_call_world [OF a [unfolded wh_add_item_def]]
  from None assms a ww show ?thesis
    by (cases res) (auto simp: ix_qid_def dom_def Let_def)
qed

lemma ix_qid_same_cfg:
  "ix_qid x self w = (r, self1, w1) \<Longrightarrow> same_cfg self self1"
  by (drule ix_qid_cases) (auto simp: same_cfg_def)

lemma ix_qid_cache_grows:
  "ix_qid x self w = (r, self1, w1) \<Longrightarrow> ixid2qid self \<subseteq>\<^sub>m ixid2qid self1"
  by (drule ix_qid_cases) (auto simp: map_le_def)

lemma ix_qid_result_cached:
  "ix_qid x self w = (Inr q, self1, w1) \<Longrightarrow> ixid2qid self1 (str (ix_id x)) = Some q"
  by (drule ix_qid_cases) auto

lemma update_prefixes_trace:
  assumes "update_prefixes self q ref ps w = (r, w')"
    and "\<And>p. P (Call (Prefix2Qid p True))"
    and "\<And>pq. P (Call (UpsertStatements ''update peeringDB ixlan'' pq
            [Stmt3 (get_pid (wh self) ''instance of'') (get_qid (wh self) ''peering LAN'') ref,
             Stmt3 (get_pid (wh self) ''managed by'') q ref]))"
  shows "\<exists>evs. events w' = events w @ evs \<and> list_all P evs \<and> list_all is_call evs \<and>
           stdout w' = stdout w"
  using assms(1)
proof (induction ps arbitrary: w)
  case Nil
  then show ?case by simp
next
  case (Cons p ps)
  obtain r1 w1 where c1: "wh_prefix2qid (wh self) (ixpfx_prefix p) True w = (r1, w1)"
    by (meson surj_pair)
  note w1 = wh_call_world [OF c1 [unfolded wh_prefix2qid_def]]
  show ?case
  proof (cases r1)
    case (Inl e)
    with Cons.prems c1 have "w' = w1" by simp
    with w1 assms(2) show ?thesis by simp
  next
    case (Inr pq)
    obtain r2 w2 where c2: "wh_upsert_statements (wh self) ''update peeringDB ixlan'' pq
            [Stmt3 (get_pid (wh self) ''instance of'') (get_qid (wh self) ''peering LAN'') ref,
             Stmt3 (get_pid (wh self) ''managed by'') q ref] w1 = (r2, w2)"
      by (meson surj_pair)
    note w2 = wh_call_world [OF c2 [unfolded wh_upsert_statements_def]]
    show ?thesis
    proof (cases r2)
      case (Inl e)
      with Cons.prems c1 c2 Inr have "w' = w2" by simp
      with w1 w2 assms(2,3) show ?thesis by simp
    next
      case (Inr u)
      with Cons.prems c1 c2 \<open>r1 = Inr pq\<close> have "update_prefixes self q ref ps w2 = (r, w')"
        by simp
      from Cons.IH [OF this] obtain evs where
        "events w' = events w2 @ evs" "list_all P evs" "list_all is_call evs"
        "stdout w' = stdout w2" by blast
      with w1 w2 assms(2,3) show ?thesis by simp
    qed
  qed
qed

lemma update_lans_trace:
  assumes "update_lans self q ref ls w = (r, w')"
    and "\<And>p. P (Call (Prefix2Qid p True))"
    and "\<And>pq. P (Call (UpsertStatements ''update peeringDB ixlan'' pq
            [Stmt3 (get_pid (wh self) ''instance of'') (get_qid (wh self) ''peering LAN'') ref,
             Stmt3 (get_pid (wh self) ''managed by'') q ref]))"
  shows "\<exists>evs. events w' = events w @ evs \<and> list_all P evs \<and> list_all is_call evs \<and>
           stdout w' = stdout w"
  using assms(1)
proof (induction ls arbitrary: w)
  case Nil
  then show ?case by simp
next
  case (Cons l ls)
  obtain r1 w1 where c1: "update_prefixes self q ref (ixpfx_set l) w = (r1, w1)"
    by (meson surj_pair)
  from update_prefixes_trace [OF c1, of P] assms(2,3) obtain evs1 where
    e1: "events w1 = events w @ evs1" "list_all P evs1" "list_all is_call evs1"
      "stdout w1 = stdout w" by blast
  show ?case
  proof (cases r1)
    case (Inl e)
    with Cons.prems c1 have "w' = w1" by simp
    with e1 show ?thesis by simp
  next
    case (Inr u)
    with Cons.prems c1 have "update_lans self q ref ls w1 = (r, w')" by simp
    from Cons.IH [OF this] obtain evs where
      "events w' = events w1 @ evs" "list_all P evs" "list_all is_call evs"
      "stdout w' = stdout w1" by blast
    with e1 show ?thesis by simp
  qed
qed

lemma update_ixlans_trace:
  assumes "update_ixlans api self q ls w = (r, w')"
    and "\<And>u s. P (Fetch u s)"
    and "\<And>p. P (Call (Prefix2Qid p True))"
    and "\<And>pq u. P (Call (UpsertStatements ''update peeringDB ixlan'' pq
            [Stmt3 (get_pid (wh self) ''instance of'') (get_qid (wh self) ''peering LAN'')
               (pfx_reference self u),
             Stmt3 (get_pid (wh self) ''managed by'') q (pfx_reference self u)]))"
  shows "\<exists>evs. events w' = events w @ evs \<and> list_all P evs \<and> fetch_abort (is_exit r) evs \<and>
           stdout w' = stdout w"
  using assms(1)
proof (induction ls arbitrary: w)
  case Nil
  then show ?case by simp
next
  case (Cons l ls)
  let ?url = "URL_PDB_LAN @ ''/'' @ str (ixlan_id l)"
  obtain req w1 where g: "requests_get (api_lan api) ?url w = (req, w1)"
    by (meson surj_pair)
  note w1 = requests_get_world [OF g]
  show ?case
  proof (cases "status_code req = 200")
    case False
    with Cons.prems g have "r = Inl (SystemExit ''Error while fetching IXs data'')" "w' = w1"
      by (simp_all add: Let_def)
    with w1 False assms(2) show ?thesis by (simp add: is_exit_def)
  next
    case True
    obtain r2 w2 where c2: "update_lans self q (pfx_reference self ?url) (data req) w1 = (r2, w2)"
      by (meson surj_pair)
    from update_lans_trace [OF c2, of P] assms(3,4) obtain evs2 where
      e2: "events w2 = events w1 @ evs2" "list_all P evs2" "list_all is_call evs2"
        "stdout w2 = stdout w1" by blast
    have ok2: "list_all fetch_ok (Fetch ?url (status_code (api_lan api ?url)) # evs2)"
      using True w1(1) e2(3) by (simp add: list_all_is_call_fetch_ok)
    show ?thesis
    proof (cases r2)
      case (Inl e)
      with Cons.prems g c2 True have "w' = w2" by (simp add: Let_def pfx_reference_def)
      with w1 e2 assms(2) ok2 show ?thesis by (simp add: fetch_abort_ok)
    next
      case (Inr u)
      with Cons.prems g c2 True have "update_ixlans api self q ls w2 = (r, w')"
        by (simp add: Let_def pfx_reference_def)
      from Cons.IH [OF this] obtain evs where
        e: "events w' = events w2 @ evs" "list_all P evs" "fetch_abort (is_exit r) evs"
        "stdout w' = stdout w2" by blast
      from ok2 e(3) have
        "fetch_abort (is_exit r) ((Fetch ?url (status_code (api_lan api ?url)) # evs2) @ evs)"
        by (simp only: fetch_abort_append)
      with e w1 e2 assms(2) show ?thesis by simp
    qed
  qed
qed

lemma ix_statements_world:
  assumes "ix_statements self x w = (sts, w1)"
  shows "events w1 = events w" "stderr w1 = stderr w" "store w1 = store w"
    "stdout w1 = stdout w @
       (if orgid2qid self (str (ix_org_id x)) = None
        then [[PStr ''Error this organization is not in wikibase: '', PInt (ix_org_id x)]]
        else [])"
  using assms
  by (auto simp: ix_statements_def Let_def print_def split: option.splits)

lemma ix_statements_cfg:
  "same_cfg c self \<Longrightarrow> fst (ix_statements self x w) = fst (ix_statements c x w0)"
  by (simp add: ix_statements_def same_cfg_def Let_def split: option.splits)

lemma update_ix_trace:
  assumes "update_ix api x self w = (r, self1, w')"
    and F: "\<And>u s. P (Fetch u s)"
    and A: "P (Call (AddItem ''add new peeringDB IX'' (ix_name x) (ix_name_long x)
               [Stmt2 (get_pid (wh self) ''instance of'')
                  (get_qid (wh self) ''Internet exchange point''),
                Stmt4 (get_pid (wh self) ''external ID'') (str (ix_id x)) []
                  [(get_pid (wh self) ''instance of'', get_qid (wh self) IXID_LABEL)]]))"
    and U: "\<And>q. P (Call (UpsertStatements ''update peeringDB ixs'' q
               (fst (ix_statements self x w))))"
    and Q: "\<And>p. P (Call (Prefix2Qid p True))"
    and L: "\<And>pq q u. P (Call (UpsertStatements ''update peeringDB ixlan'' pq
            [Stmt3 (get_pid (wh self) ''instance of'') (get_qid (wh self) ''peering LAN'')
               (pfx_reference self u),
             Stmt3 (get_pid (wh self) ''managed by'') q (pfx_reference self u)]))"
  shows "\<exists>evs. events w' = events w @ evs \<and> list_all P evs \<and> fetch_abort (is_exit r) evs \<and>
           same_cfg self self1 \<and> ixid2qid self \<subseteq>\<^sub>m ixid2qid self1 \<and>
           stdout w' = stdout w @
             (if orgid2qid self (str (ix_org_id x)) = None
              then [[PStr ''Error this organization is not in wikibase: '', PInt (ix_org_id x)]]
              else [])"
proof -
  obtain sts w1 where s: "ix_statements self x w = (sts, w1)" by (meson surj_pair)
  note w1 = ix_statements_world [OF s]
  obtain r2 self2 w2 where q: "ix_qid x self w1 = (r2, self2, w2)" by (metis surj_pair)
  note cfg = ix_qid_same_cfg [OF q] and grows = ix_qid_cache_grows [OF q]
  from ix_qid_cases [OF q] A obtain evs2 where
    e2: "events w2 = events w1 @ evs2" "list_all P evs2" "list_all is_call evs2"
      "stdout w2 = stdout w1"
    by auto
  show ?thesis
  proof (cases r2)
    case (Inl e)
    with assms(1) s q have "self1 = self2" "w' = w2" "r = Inl e"
      by (simp_all add: update_ix_def)
    with e2 w1 cfg grows show ?thesis
      by (simp add: fetch_abort_ok list_all_is_call_fetch_ok)
  next
    case (Inr qq)
    obtain r3 w3 where u: "wh_upsert_statements (wh self2) ''update peeringDB ixs'' qq sts w2 =
        (r3, w3)" by (meson surj_pair)
    note w3 = wh_call_world [OF u [unfolded wh_upsert_statements_def]]
    from U [of qq] s have pu: "P (Call (UpsertStatements ''update peeringDB ixs'' qq sts))"
      by simp
    have wh2: "wh self2 = wh self" using cfg by (simp add: same_cfg_def)
    have ok3: "list_all fetch_ok (evs2 @ [Call (UpsertStatements ''update peeringDB ixs'' qq sts)])"
      using e2(3) by (simp add: list_all_is_call_fetch_ok)
    show ?thesis
    proof (cases r3)
      case (Inl e)
      with assms(1) s q u Inr have "self1 = self2" "w' = w3" "r = Inl e"
        by (simp_all add: update_ix_def)
      with e2 w1 w3 cfg grows pu ok3 show ?thesis
        by (simp add: fetch_abort_ok)
    next
      case u_ok: (Inr uu)
      show ?thesis
      proof (cases "ix_ixlan_set x")
        case None
        with assms(1) s q u Inr u_ok have "self1 = self2" "w' = w3" "r = Inr qq"
          by (simp_all add: update_ix_def)
        with e2 w1 w3 cfg grows pu ok3 show ?thesis
          by (simp add: fetch_abort_ok)
      next
        case (Some ixlans)
        obtain r4 w4 where l: "update_ixlans api self2 qq ixlans w3 = (r4, w4)"
          by (meson surj_pair)
        have L2: "\<And>pq u. P (Call (UpsertStatements ''update peeringDB ixlan'' pq
            [Stmt3 (get_pid (wh self2) ''instance of'') (get_qid (wh self2) ''peering LAN'')
               (pfx_reference self2 u),
             Stmt3 (get_pid (wh self2) ''managed by'') qq (pfx_reference self2 u)]))"
          using L [of _ _ qq] by (simp add: wh2 pfx_reference_cfg [OF cfg])
        from update_ixlans_trace [OF l, of P] F Q L2 obtain evs4 where
          e4: "events w4 = events w3 @ evs4" "list_all P evs4" "fetch_abort (is_exit r4) evs4"
            "stdout w4 = stdout w3" by blast
        have rr: "self1 = self2 \<and> w' = w4 \<and> is_exit r = is_exit r4"
          using assms(1) s q u Inr u_ok Some l
          by (cases r4) (auto simp: update_ix_def is_exit_def)
        from ok3 e4(3) have
          "fetch_abort (is_exit r4)
             ((evs2 @ [Call (UpsertStatements ''update peeringDB ixs'' qq sts)]) @ evs4)"
          by (simp only: fetch_abort_append)
        with rr e2 w1 w3 e4 cfg grows pu show ?thesis by simp
      qed
    qed
  qed
qed

lemma ix_loop_trace:
  assumes "ix_loop api n i xs self w = (r, self1, w')"
    and cfg: "same_cfg c self"
    and F: "\<And>u s. P (Fetch u s)"
    and A: "\<And>x :: ix. P (Call (AddItem ''add new peeringDB IX'' (ix_name x) (ix_name_long x)
               [Stmt2 (get_pid (wh c) ''instance of'')
                  (get_qid (wh c) ''Internet exchange point''),
                Stmt4 (get_pid (wh c) ''external ID'') (str (ix_id x)) []
                  [(get_pid (wh c) ''instance of'', get_qid (wh c) IXID_LABEL)]]))"
    and U: "\<And>x q. P (Call (UpsertStatements ''update peeringDB ixs'' q
               (fst (ix_statements c x w0))))"
    and Q: "\<And>p. P (Call (Prefix2Qid p True))"
    and L: "\<And>pq q u. P (Call (UpsertStatements ''update peeringDB ixlan'' pq
            [Stmt3 (get_pid (wh c) ''instance of'') (get_qid (wh c) ''peering LAN'')
               (pfx_reference c u),
             Stmt3 (get_pid (wh c) ''managed by'') q (pfx_reference c u)]))"
  shows "\<exists>evs. events w' = events w @ evs \<and> list_all P evs \<and> fetch_abort (is_exit r) evs \<and>
           same_cfg c self1 \<and> ixid2qid self \<subseteq>\<^sub>m ixid2qid self1"
  using assms(1) cfg
proof (induction xs arbitrary: i self w)
  case Nil
  then show ?case by simp
next
  case (Cons x xs)
  let ?url = "URL_PDB_IXS @ ''/'' @ str (ix_id x)"
  obtain req w1 where g: "requests_get (api_ix api) ?url w = (req, w1)"
    by (meson surj_pair)
  note w1 = requests_get_world [OF g]
  have whs: "wh self = wh c" using Cons.prems(2) by (simp add: same_cfg_def)
  show ?case
  proof (cases "status_code req = 200")
    case False
    with Cons.prems(1) g have
      "r = Inl (SystemExit ''Error while fetching IXs data'')" "w' = w1" "self1 = self"
      by simp_all
    with w1 False F Cons.prems(2) show ?thesis by (simp add: is_exit_def)
  next
    case True
    show ?thesis
    proof (cases "data req")
      case Nil
      with Cons.prems(1) g True have
        "r = Inl (Exception ''IndexError'')" "w' = w1" "self1 = self"
        by simp_all
      with w1 True F Cons.prems(2) show ?thesis by (simp add: is_exit_def)
    next
      case (Cons ix_info rest)
      obtain r2 self2 w2 where u: "update_ix api ix_info self w1 = (r2, self2, w2)"
        by (metis surj_pair)
      have U2: "\<And>q. P (Call (UpsertStatements ''update peeringDB ixs'' q
               (fst (ix_statements self ix_info w1))))"
        using U [of _ ix_info] by (simp add: ix_statements_cfg [OF Cons.prems(2), of ix_info w1 w0])
      have L2: "\<And>pq q u. P (Call (UpsertStatements ''update peeringDB ixlan'' pq
            [Stmt3 (get_pid (wh self) ''instance of'') (get_qid (wh self) ''peering LAN'')
               (pfx_reference self u),
             Stmt3 (get_pid (wh self) ''managed by'') q (pfx_reference self u)]))"
        using L by (simp add: whs pfx_reference_cfg [OF Cons.prems(2)])
      from update_ix_trace [OF u, of P] F A [of ix_info] U2 Q L2 obtain evs2 where
        e2: "events w2 = events w1 @ evs2" "list_all P evs2" "fetch_abort (is_exit r2) evs2"
          "same_cfg self self2" "ixid2qid self \<subseteq>\<^sub>m ixid2qid self2"
        by (auto simp: whs)
      have cfg2: "same_cfg c self2" using Cons.prems(2) e2(4) by (rule same_cfg_trans)
      show ?thesis
      proof (cases r2)
        case (Inl e)
        with Cons.prems(1) g True Cons u have "r = Inl e" "w' = w2" "self1 = self2"
          by simp_all
        then have "is_exit r = is_exit r2" using Inl by (simp add: is_exit_def)
        moreover note \<open>w' = w2\<close> \<open>self1 = self2\<close>
        moreover from e2(3) True w1(1) have
          "fetch_abort (is_exit r2) (Fetch ?url (status_code (api_ix api ?url)) # evs2)"
          by simp
        ultimately show ?thesis using w1 e2 F cfg2 by simp
      next
        case (Inr qq)
        have ok2: "list_all fetch_ok (Fetch ?url (status_code (api_ix api ?url)) # evs2)"
          using True w1(1) e2(3) Inr by (simp add: is_exit_def fetch_abort_not_exit)
        let ?w3 = "stderr_write
                     (CHR 0x0D # ''Processing... '' @ str (int i + 1) @ ''/'' @ str (int n)) w2"
        from Cons.prems(1) g True Cons u Inr have
          "ix_loop api n (Suc i) xs self2 ?w3 = (r, self1, w')" by simp
        from Cons.IH [OF this cfg2] obtain evs where
          e: "events w' = events ?w3 @ evs" "list_all P evs" "fetch_abort (is_exit r) evs"
            "same_cfg c self1" "ixid2qid self2 \<subseteq>\<^sub>m ixid2qid self1" by blast
        from ok2 e(3) have
          "fetch_abort (is_exit r) ((Fetch ?url (status_code (api_ix api ?url)) # evs2) @ evs)"
          by (simp only: fetch_abort_append)
        moreover have "ixid2qid self \<subseteq>\<^sub>m ixid2qid self1"
          using e2(5) e(5) by (rule map_le_trans)
        ultimately show ?thesis using e w1 e2 F by (simp add: stderr_write_def)
      qed
    qed
  qed
qed

lemma ix_run_trace:
  assumes "ix_run api self w = (r, self1, w')"
    and F: "\<And>u s. P (Fetch u s)"
    and Lg: "P (Call Login)"
    and A: "\<And>x :: ix. P (Call (AddItem ''add new peeringDB IX'' (ix_name x) (ix_name_long x)
               [Stmt2 (get_pid (wh self) ''instance of'')
                  (get_qid (wh self) ''Internet exchange point''),
                Stmt4 (get_pid (wh self) ''external ID'') (str (ix_id x)) []
                  [(get_pid (wh self) ''instance of'', get_qid (wh self) IXID_LABEL)]]))"
    and U: "\<And>x q. P (Call (UpsertStatements ''update peeringDB ixs'' q
               (fst (ix_statements self x w0))))"
    and Q: "\<And>p. P (Call (Prefix2Qid p True))"
    and L: "\<And>pq q u. P (Call (UpsertStatements ''update peeringDB ixlan'' pq
            [Stmt3 (get_pid (wh self) ''instance of'') (get_qid (wh self) ''peering LAN'')
               (pfx_reference self u),
             Stmt3 (get_pid (wh self) ''managed by'') q (pfx_reference self u)]))"
  shows "\<exists>evs. events w' = events w @ evs \<and> list_all P evs \<and> fetch_abort (is_exit r) evs \<and>
           same_cfg self self1 \<and> ixid2qid self \<subseteq>\<^sub>m ixid2qid self1"
proof -
  obtain req w1 where g: "requests_get (api_ix api) URL_PDB_IXS w = (req, w1)"
    by (meson surj_pair)
  note w1 = requests_get_world [OF g]
  show ?thesis
  proof (cases "status_code req = 200")
    case False
    with assms(1) g have
      "r = Inl (SystemExit ''Error while fetching IXs data'')" "w' = w1" "self1 = self"
      by (simp_all add: ix_run_def)
    with w1 False F show ?thesis by (simp add: is_exit_def same_cfg_refl)
  next
    case True
    obtain r2 w2 where lg: "wh_login (wh self) w1 = (r2, w2)" by (meson surj_pair)
    note w2 = wh_call_world [OF lg [unfolded wh_login_def]]
    show ?thesis
    proof (cases r2)
      case (Inl e)
      with assms(1) g True lg have "r = Inl e" "w' = w2" "self1 = self"
        by (simp_all add: ix_run_def Let_def)
      with w1 w2 True F Lg show ?thesis by (simp add: same_cfg_refl)
    next
      case (Inr uu)
      with assms(1) g True lg have
        "ix_loop api (length (data req)) 0 (data req) self w2 = (r, self1, w')"
        by (simp add: ix_run_def Let_def)
      from ix_loop_trace [OF this same_cfg_refl, of P w0] F A U Q L obtain evs where
        e: "events w' = events w2 @ evs" "list_all P evs" "fetch_abort (is_exit r) evs"
          "same_cfg self self1" "ixid2qid self \<subseteq>\<^sub>m ixid2qid self1" by blast
      from e(3) True w1(1) have
        "fetch_abort (is_exit r)
           ([Fetch URL_PDB_IXS (status_code (api_ix api URL_PDB_IXS)), Call Login] @ evs)"
        by simp
      with e w1 w2 F Lg show ?thesis by simp
    qed
  qed
qed

lemma ix_init_result:
  assumes "ix_init h utcnow w = (Inr self, w1)"
  shows "wh self = h" "today self = wh_today utcnow"
    "reference_ix self =
       [(get_pid h ''source'', RStr (get_qid h ''PeeringDB'')),
        (get_pid h ''reference URL'', RStr URL_PDB_IXS),
        (get_pid h ''point in time'', RTime (wh_today utcnow))]"
  using assms
  by (auto simp: ix_init_def Let_def split: prod.splits sum.splits)

lemma update_ix_returns:
  assumes "update_ix api x self w = (Inr q, self1, w1)"
  shows "fst (ix_qid x self (snd (ix_statements self x w))) = Inr q"
    "ixid2qid self1 (str (ix_id x)) = Some q"
proof -
  obtain sts w0 where s: "ix_statements self x w = (sts, w0)" by (meson surj_pair)
  obtain r2 self2 w2 where q: "ix_qid x self w0 = (r2, self2, w2)" by (metis surj_pair)
  from assms s q have r2: "r2 = Inr q \<and> self1 = self2"
    by (auto simp: update_ix_def split: sum.splits option.splits prod.splits)
  with s q show "fst (ix_qid x self (snd (ix_statements self x w))) = Inr q" by simp
  from r2 q show "ixid2qid self1 (str (ix_id x)) = Some q"
    by (auto dest: ix_qid_result_cached)
qed

lemma update_asn_returns:
  assumes "update_asn c r v = (Inr ids, v1)"
  shows "fst (iyp_get_node (iyp c) ''AS'' (asn1 r) True v) = Inr (fst ids)"
    "fst (iyp_get_node (iyp c) ''AS'' (asn2 r) True
            (snd (iyp_get_node (iyp c) ''AS'' (asn1 r) True v))) = Inr (snd ids)"
  using assms
  by (auto simp: update_asn_def Let_def split: prod.splits sum.splits error.splits)

lemma ix_statements_members:
  assumes "s \<in> set (fst (ix_statements self x w))"
  shows "s = Stmt2 (get_pid (wh self) ''instance of'')
               (get_qid (wh self) ''Internet exchange point'') \<or>
         statement_reference s = Some (reference_ix self)"
  using assms
  by (auto simp: ix_statements_def Let_def split: option.splits if_splits)

lemma ix_run_statements:
  assumes init: "ix_init h utcnow w0 = (Inr self, w1)"
    and run: "ix_run api self w1 = (r, self1, w2)"
    and ref: "\<And>u. Q (Stmt3 (get_pid h ''instance of'') (get_qid h ''peering LAN'')
                (pfx_reference self u))"
    and mgd: "\<And>q u. Q (Stmt3 (get_pid h ''managed by'') q (pfx_reference self u))"
    and tys: "Q (Stmt2 (get_pid h ''instance of'') (get_qid h ''Internet exchange point''))"
    and ext: "\<And>v. Q (Stmt4 (get_pid h ''external ID'') v []
                [(get_pid h ''instance of'', get_qid h IXID_LABEL)])"
    and src: "\<And>s. statement_reference s = Some (pfx_reference self URL_PDB_IXS) \<Longrightarrow> Q s"
  shows "\<exists>evs. events w2 = events w1 @ evs \<and>
           (\<forall>e\<in>set evs. \<forall>s\<in>set (event_statements e). Q s)"
proof -
  note i = ix_init_result [OF init]
  have rx: "reference_ix self = pfx_reference self URL_PDB_IXS"
    using i by (simp add: pfx_reference_def)
  have U: "\<And>x q. \<forall>s\<in>set (event_statements (Call (UpsertStatements ''update peeringDB ixs'' q
               (fst (ix_statements self x w1))))). Q s"
    using ix_statements_members [of _ self _ w1] tys src i(1) rx by auto
  from ix_run_trace [OF run, of "\<lambda>e. \<forall>s\<in>set (event_statements e). Q s" w1] U ref mgd tys ext i(1)
  obtain evs where "events w2 = events w1 @ evs"
    "list_all (\<lambda>e. \<forall>s\<in>set (event_statements e). Q s) evs"
    by auto
  then show ?thesis by (auto simp: list_all_iff)
qed

lemma reference_times_pfx: "reference_times (pfx_reference self u) = [today self]"
  by (simp add: pfx_reference_def)

lemma is_reference_pfx: "is_reference (wh self) (pfx_reference self u)"
  by (simp add: pfx_reference_def)









lemma ix_loop_cache_grows:
  assumes "ix_loop api n i xs self w = (r, self1, w')"
  shows "ixid2qid self \<subseteq>\<^sub>m ixid2qid self1"
  using ix_loop_trace [OF assms same_cfg_refl, of "\<lambda>e. True"] by blast


section \<open>Unfolding the model on the examples\<close>

lemmas as2rel_eval =
  as2rel_run_def update_asn_def iyp_get_node_def iyp_add_links_def iyp_close_def
  scripted_iyp_def as2rel_init_def world0_def stderr_write_def print_def requests_get_def
  str_def noon_def

lemmas ix_eval =
  ix_run_def update_ix_def ix_statements_def ix_qid_def ix_init_def
  wh_call_def wh_get_qid_create_def wh_login_def wh_add_item_def wh_upsert_statements_def
  wh_prefix2qid_def wh_today_def scripted_wh_def scripted_api_def
  ix_tokyo_def ix_nowhere_def ix_osaka_def lan_tokyo_def world0_def stderr_write_def print_def
  requests_get_def str_def strip_def isspace_def noon_def
  URL_PDB_IXS_def URL_PDB_LAN_def IXID_LABEL_def ORGID_LABEL_def Let_def

lemma example_crawler_init:
  "ix_init (scripted_wh bad_labels bad_items) noon (world0 []) =
     (Inr (example_crawler bad_labels bad_items), example_world)"
  by (simp add: ix_init_def wh_get_qid_create_def wh_call_def scripted_wh_def world0_def
      example_crawler_def example_world_def Let_def)

lemmas example_eval = example_crawler_def example_world_def



lemmas spec_eval =
  spec_iyp_def resolve_or_create_def lookup_node_def spec_graph_def upsert_link_def
  empty_graph_def connect_def


lemmas main_eval =
  as2rel_main_def ix_main_def spec_wh_def upsert_statement_def register_class_def new_qid_def
  empty_wikibase_def

section \<open>A second run of the AS-relationship crawler on the graph store of the spec\<close>

lemma spec_get_node:
  assumes "cache_ok st"
  shows "\<exists>n st'. get_node (spec_iyp spec_graph) ''AS'' a True st = (Inr n, st') \<and>
           cache_ok st' \<and> nodes (graph st') (''AS'', a) = Some n \<and>
           graph_le (graph st) (graph st') \<and>
           (nodes (graph st) (''AS'', a) \<noteq> None \<longrightarrow>
              graph st' = graph st \<and> creations st' = creations st)"
proof (cases "node_cache st (''AS'', a)")
  case (Some n)
  with assms have "nodes (graph st) (''AS'', a) = Some n"
    by (auto simp: cache_ok_def map_le_def dom_def)
  with Some assms show ?thesis
    by (simp add: spec_iyp_def resolve_or_create_def graph_le_def)
next
  case None
  show ?thesis
  proof (cases "nodes (graph st) (''AS'', a)")
    case (Some n)
    with None assms show ?thesis
      by (auto simp: spec_iyp_def resolve_or_create_def spec_graph_def graph_le_def
          cache_ok_def map_le_def)
  next
    case nn: None
    with None assms show ?thesis
      by (auto simp: spec_iyp_def resolve_or_create_def spec_graph_def graph_le_def
          cache_ok_def map_le_def)
  qed
qed

lemma spec_add_links:
  "add_links (spec_iyp spec_graph) n [(rel, tgt, ref)] st =
     (Inr (), st\<lparr>graph := (graph st)\<lparr>links := (links (graph st))((n, rel, tgt) \<mapsto> ref)\<rparr>\<rparr>)"
  by (simp add: spec_iyp_def spec_graph_def upsert_link_def)

lemma graph_le_refl: "graph_le g g"
  by (simp add: graph_le_def)

lemma graph_le_trans: "graph_le a b \<Longrightarrow> graph_le b c \<Longrightarrow> graph_le a c"
  by (auto simp: graph_le_def intro: map_le_trans)

lemma rel_covered_mono: "rel_covered g r \<Longrightarrow> graph_le g g' \<Longrightarrow> rel_covered g' r"
  by (auto simp: rel_covered_def graph_le_def map_le_def dom_def split: option.splits)

lemma same_sets_refl: "same_sets g g"
  by (simp add: same_sets_def)

lemma same_sets_trans: "same_sets a b \<Longrightarrow> same_sets b c \<Longrightarrow> same_sets a c"
  by (simp add: same_sets_def)

lemma rel_covered_same: "rel_covered g r \<Longrightarrow> same_sets g g' \<Longrightarrow> rel_covered g' r"
  by (auto simp: rel_covered_def same_sets_def split: option.splits)

lemma spec_update_asn:
  assumes h: "iyp c = spec_iyp spec_graph" and ok: "cache_ok (store w)"
  shows "\<exists>ids w'. update_asn c r w = (Inr ids, w') \<and> cache_ok (store w') \<and>
           graph_le (graph (store w)) (graph (store w')) \<and>
           rel_covered (graph (store w')) r \<and>
           (rel_covered (graph (store w)) r \<longrightarrow>
              same_sets (graph (store w)) (graph (store w')) \<and>
              creations (store w') = creations (store w))"
proof -
  from spec_get_node [OF ok, of "asn1 r"] obtain n1 s1 where
    g1: "get_node (iyp c) ''AS'' (asn1 r) True (store w) = (Inr n1, s1)" "cache_ok s1"
      "nodes (graph s1) (''AS'', asn1 r) = Some n1" "graph_le (graph (store w)) (graph s1)"
      "nodes (graph (store w)) (''AS'', asn1 r) \<noteq> None \<longrightarrow>
         graph s1 = graph (store w) \<and> creations s1 = creations (store w)"
    using h by auto
  from spec_get_node [OF g1(2), of "asn2 r"] obtain n2 s2 where
    g2: "get_node (iyp c) ''AS'' (asn2 r) True s1 = (Inr n2, s2)" "cache_ok s2"
      "nodes (graph s2) (''AS'', asn2 r) = Some n2" "graph_le (graph s1) (graph s2)"
      "nodes (graph s1) (''AS'', asn2 r) \<noteq> None \<longrightarrow>
         graph s2 = graph s1 \<and> creations s2 = creations s1"
    using h by auto
  let ?k = "(n1, ''PEERS_WITH'', n2)"
  let ?s3 = "s2\<lparr>graph := (graph s2)\<lparr>links := (links (graph s2))(?k \<mapsto> reference c)\<rparr>\<rparr>"
  have a: "add_links (iyp c) n1 [(''PEERS_WITH'', n2, reference c)] s2 = (Inr (), ?s3)"
    using h by (simp add: spec_add_links)
  note u = update_asn_ok [OF g1(1) g2(1) a]
  have n1': "nodes (graph s2) (''AS'', asn1 r) = Some n1"
    using g1(3) g2(4) by (auto simp: graph_le_def map_le_def dom_def)
  have le3: "graph_le (graph s2) (graph ?s3)" by (auto simp: graph_le_def)
  have "cache_ok ?s3" using g2(2) by (simp add: cache_ok_def)
  moreover have "graph_le (graph (store w)) (graph ?s3)"
    using g1(4) g2(4) le3 by (blast intro: graph_le_trans)
  moreover have "rel_covered (graph ?s3) r"
    using n1' g2(3) by (simp add: rel_covered_def)
  moreover have "rel_covered (graph (store w)) r \<longrightarrow>
              same_sets (graph (store w)) (graph ?s3) \<and> creations ?s3 = creations (store w)"
  proof
    assume cov: "rel_covered (graph (store w)) r"
    then have "nodes (graph (store w)) (''AS'', asn1 r) \<noteq> None"
      "nodes (graph (store w)) (''AS'', asn2 r) \<noteq> None"
      by (auto simp: rel_covered_def split: option.splits)
    with g1(5) g2(5) have e: "graph s2 = graph (store w)" "creations s2 = creations (store w)"
      by auto
    with cov n1' g2(3) have "?k \<in> dom (links (graph (store w)))"
      by (simp add: rel_covered_def)
    with e show "same_sets (graph (store w)) (graph ?s3) \<and> creations ?s3 = creations (store w)"
      by (auto simp: same_sets_def)
  qed
  ultimately show ?thesis using u by simp
qed

lemma spec_as2rel_loop:
  assumes h: "iyp c = spec_iyp spec_graph" and ok: "cache_ok (store w)"
  shows "\<exists>w'. as2rel_loop c i rs w = (Inr (), w') \<and> cache_ok (store w') \<and>
           graph_le (graph (store w)) (graph (store w')) \<and>
           (\<forall>r\<in>set rs. rel_covered (graph (store w')) r) \<and>
           ((\<forall>r\<in>set rs. rel_covered (graph (store w)) r) \<longrightarrow>
              same_sets (graph (store w)) (graph (store w')) \<and>
              creations (store w') = creations (store w))"
  using ok
proof (induction rs arbitrary: i w)
  case Nil
  then show ?case by (simp add: graph_le_refl same_sets_refl)
next
  case (Cons r rs)
  from spec_update_asn [OF h Cons.prems, of r] obtain ids w1 where
    u: "update_asn c r w = (Inr ids, w1)" "cache_ok (store w1)"
      "graph_le (graph (store w)) (graph (store w1))" "rel_covered (graph (store w1)) r"
      "rel_covered (graph (store w)) r \<longrightarrow>
         same_sets (graph (store w)) (graph (store w1)) \<and>
         creations (store w1) = creations (store w)"
    by blast
  let ?w2 = "stderr_write (CHR 0x0D # ''Processed '' @ str (int i) @ '' relationships'') w1"
  have s2: "store ?w2 = store w1" by (simp add: stderr_write_def)
  from Cons.IH [of ?w2 "Suc i"] u(2) s2 obtain w' where
    l: "as2rel_loop c (Suc i) rs ?w2 = (Inr (), w')" "cache_ok (store w')"
      "graph_le (graph (store w1)) (graph (store w'))"
      "\<forall>r\<in>set rs. rel_covered (graph (store w')) r"
      "(\<forall>r\<in>set rs. rel_covered (graph (store w1)) r) \<longrightarrow>
         same_sets (graph (store w1)) (graph (store w')) \<and>
         creations (store w') = creations (store w1)"
    by auto
  have "as2rel_loop c i (r # rs) w = (Inr (), w')" using u(1) l(1) by simp
  moreover have "graph_le (graph (store w)) (graph (store w'))"
    using u(3) l(3) by (rule graph_le_trans)
  moreover have "\<forall>x\<in>set (r # rs). rel_covered (graph (store w')) x"
    using l(4) rel_covered_mono [OF u(4) l(3)] by simp
  moreover have "(\<forall>x\<in>set (r # rs). rel_covered (graph (store w)) x) \<longrightarrow>
              same_sets (graph (store w)) (graph (store w')) \<and>
              creations (store w') = creations (store w)"
  proof
    assume cov: "\<forall>x\<in>set (r # rs). rel_covered (graph (store w)) x"
    with u(5) have s1: "same_sets (graph (store w)) (graph (store w1))"
      "creations (store w1) = creations (store w)" by simp_all
    from cov s1(1) have "\<forall>x\<in>set rs. rel_covered (graph (store w1)) x"
      by (auto intro: rel_covered_same)
    with l(5) have "same_sets (graph (store w1)) (graph (store w'))"
      "creations (store w') = creations (store w1)" by simp_all
    with s1 show "same_sets (graph (store w)) (graph (store w')) \<and>
              creations (store w') = creations (store w)"
      by (auto intro: same_sets_trans)
  qed
  ultimately show ?case using l(2) by blast
qed

lemma spec_as2rel_run:
  assumes h: "iyp c = spec_iyp spec_graph" and ok: "cache_ok (store w)"
    and run: "as2rel_run c web w = (res, w')"
  shows "(res = Inr () \<longrightarrow>
            (\<forall>r\<in>set (data (web URL_BGPKIT_AS2REL)). rel_covered (graph (store w')) r)) \<and>
         ((\<forall>r\<in>set (data (web URL_BGPKIT_AS2REL)). rel_covered (graph (store w)) r) \<longrightarrow>
            same_sets (graph (store w)) (graph (store w')) \<and>
            creations (store w') = creations (store w))"
proof -
  obtain req w1 where g: "requests_get web URL_BGPKIT_AS2REL w = (req, w1)"
    by (meson surj_pair)
  note w1 = requests_get_world [OF g]
  show ?thesis
  proof (cases "status_code req = 200")
    case False
    with run g have "res = Inl (SystemExit ''Error while fetching AS relationships'')" "w' = w1"
      by (simp_all add: as2rel_run_def)
    with w1 show ?thesis by (simp add: same_sets_refl)
  next
    case True
    from ok w1(5) have "cache_ok (store w1)" by simp
    from spec_as2rel_loop [OF h this, of 0 "data req"] obtain w2 where
      l: "as2rel_loop c 0 (data req) w1 = (Inr (), w2)"
        "\<forall>r\<in>set (data req). rel_covered (graph (store w2)) r"
        "(\<forall>r\<in>set (data req). rel_covered (graph (store w1)) r) \<longrightarrow>
           same_sets (graph (store w1)) (graph (store w2)) \<and>
           creations (store w2) = creations (store w1)"
      by blast
    from run g True l(1) have "iyp_close (iyp c) (stderr_write [CHR 0x0A] w2) = (res, w')"
      by (simp add: as2rel_run_def)
    then have "store w' = store w2"
      using h by (auto simp: iyp_close_def stderr_write_def spec_iyp_def)
    with l(2,3) w1(1,5) show ?thesis by simp
  qed
qed

lemma spec_as2rel_idempotent:
  assumes h1: "iyp c1 = spec_iyp spec_graph" and h2: "iyp c2 = spec_iyp spec_graph"
    and s1: "store w = connect g0" and run1: "as2rel_run c1 web w = (Inr (), w1)"
    and s2: "store v = connect (graph (store w1))" and run2: "as2rel_run c2 web v = (res, v2)"
  shows "same_sets (graph (store w1)) (graph (store v2)) \<and> creations (store v2) = []"
proof -
  have ok1: "cache_ok (store w)" using s1 by (simp add: cache_ok_def connect_def)
  have ok2: "cache_ok (store v)" using s2 by (simp add: cache_ok_def connect_def)
  from spec_as2rel_run [OF h1 ok1 run1]
  have "\<forall>r\<in>set (data (web URL_BGPKIT_AS2REL)). rel_covered (graph (store w1)) r" by simp
  then have "\<forall>r\<in>set (data (web URL_BGPKIT_AS2REL)). rel_covered (graph (store v)) r"
    using s2 by (simp add: connect_def)
  with spec_as2rel_run [OF h2 ok2 run2] s2 show ?thesis by (simp add: connect_def)
qed


section \<open>A second run of the exchange-point crawler on the wikibase of the spec\<close>

lemma fold_upsert_statement:
  "ext_index (fold (upsert_statement q) sts s) = ext_index s"
  "pfx_index (fold (upsert_statement q) sts s) = pfx_index s"
  "next_item (fold (upsert_statement q) sts s) = next_item s"
  "dom (claims (fold (upsert_statement q) sts s)) =
     dom (claims s) \<union> (\<lambda>st. (q, statement_pid st, statement_value st)) ` set sts"
  by (induction sts arbitrary: s) (auto simp: upsert_statement_def)

lemma wb_le_refl: "wb_le c s s"
  by (simp add: wb_le_def)

lemma wb_le_trans:
  assumes "wb_le c s1 s2" and "wb_le c s2 s3"
  shows "wb_le c s1 s3"
proof -
  from assms have "ext_index s1 \<subseteq>\<^sub>m ext_index s3" "pfx_index s1 \<subseteq>\<^sub>m pfx_index s3"
    unfolding wb_le_def by (blast intro: map_le_trans)+
  moreover from assms have "dom (claims s1) \<subseteq> dom (claims s3)"
    unfolding wb_le_def by blast
  moreover from assms have
    "\<forall>cls v. cls \<noteq> c \<longrightarrow> ext_index s3 (cls, v) = ext_index s1 (cls, v)"
    unfolding wb_le_def by simp
  ultimately show ?thesis unfolding wb_le_def by blast
qed

lemma wb_same_refl: "wb_same s s"
  by (simp add: wb_same_def)

lemma wb_same_trans: "wb_same s1 s2 \<Longrightarrow> wb_same s2 s3 \<Longrightarrow> wb_same s1 s3"
  by (simp add: wb_same_def)

lemma pfx_covered_mono: "pfx_covered h q s p \<Longrightarrow> wb_le c s s' \<Longrightarrow> pfx_covered h q s' p"
  by (auto simp: pfx_covered_def wb_le_def map_le_def dom_def split: option.splits)

lemma pfx_covered_same: "wb_same s s' \<Longrightarrow> pfx_covered h q s' p = pfx_covered h q s p"
  by (auto simp: pfx_covered_def wb_same_def split: option.splits)

lemma spec_upsert_statements:
  "wh_upsert_statements (spec_wh pids qids cs) su q sts w =
     (Inr (), w\<lparr>store := fold (upsert_statement q) sts (store w),
                events := events w @ [Call (UpsertStatements su q sts)]\<rparr>)"
  by (simp add: wh_upsert_statements_def wh_call_def spec_wh_def)

lemma spec_prefix2qid:
  "\<exists>pq w'. wh_prefix2qid (spec_wh pids qids cs) p True w = (Inr pq, w') \<and>
      pfx_index (store w') p = Some pq \<and> wb_le c (store w) (store w') \<and>
      ext_index (store w') = ext_index (store w) \<and>
      (pfx_index (store w) p \<noteq> None \<longrightarrow> store w' = store w)"
  by (cases "pfx_index (store w) p")
    (auto simp: wh_prefix2qid_def wh_call_def spec_wh_def wb_le_def map_le_def)

lemma spec_update_prefixes:
  assumes h: "wh self = spec_wh pids qids cs"
  shows "\<exists>w'. update_prefixes self q ref ps w = (Inr (), w') \<and>
           wb_le c (store w) (store w') \<and> ext_index (store w') = ext_index (store w) \<and>
           (\<forall>p\<in>set ps. pfx_covered (wh self) q (store w') p) \<and>
           ((\<forall>p\<in>set ps. pfx_covered (wh self) q (store w) p) \<longrightarrow>
              wb_same (store w) (store w'))"
proof (induction ps arbitrary: w)
  case Nil
  show ?case by (simp add: wb_le_refl wb_same_refl)
next
  case (Cons p ps)
  let ?sts = "[Stmt3 (get_pid (wh self) ''instance of'') (get_qid (wh self) ''peering LAN'') ref,
               Stmt3 (get_pid (wh self) ''managed by'') q ref]"
  from spec_prefix2qid [of pids qids cs "ixpfx_prefix p" w c] obtain pq w1 where
    c1: "wh_prefix2qid (wh self) (ixpfx_prefix p) True w = (Inr pq, w1)"
      "pfx_index (store w1) (ixpfx_prefix p) = Some pq" "wb_le c (store w) (store w1)"
      "ext_index (store w1) = ext_index (store w)"
      "pfx_index (store w) (ixpfx_prefix p) \<noteq> None \<longrightarrow> store w1 = store w"
    using h by auto
  define w2 where "w2 = w1\<lparr>store := fold (upsert_statement pq) ?sts (store w1),
      events := events w1 @ [Call (UpsertStatements ''update peeringDB ixlan'' pq ?sts)]\<rparr>"
  have c2: "wh_upsert_statements (wh self) ''update peeringDB ixlan'' pq ?sts w1 = (Inr (), w2)"
    using h by (simp add: spec_upsert_statements w2_def)
  have s2: "store w2 = fold (upsert_statement pq) ?sts (store w1)" by (simp add: w2_def)
  have le2: "wb_le c (store w1) (store w2)"
    unfolding s2 by (auto simp: wb_le_def upsert_statement_def)
  have e2: "ext_index (store w2) = ext_index (store w1)"
    unfolding s2 by (simp add: upsert_statement_def)
  have cov2: "pfx_covered (wh self) q (store w2) p"
    unfolding s2 using c1(2) by (simp add: pfx_covered_def upsert_statement_def)
  from Cons.IH [of w2] obtain w' where
    r: "update_prefixes self q ref ps w2 = (Inr (), w')"
      "wb_le c (store w2) (store w')" "ext_index (store w') = ext_index (store w2)"
      "\<forall>p\<in>set ps. pfx_covered (wh self) q (store w') p"
      "(\<forall>p\<in>set ps. pfx_covered (wh self) q (store w2) p) \<longrightarrow> wb_same (store w2) (store w')"
    by blast
  have "update_prefixes self q ref (p # ps) w = (Inr (), w')"
    using c1(1) c2 r(1) by simp
  moreover have "wb_le c (store w) (store w')"
    using c1(3) le2 r(2) by (blast intro: wb_le_trans)
  moreover have "ext_index (store w') = ext_index (store w)"
    using c1(4) e2 r(3) by simp
  moreover have "\<forall>x\<in>set (p # ps). pfx_covered (wh self) q (store w') x"
    using r(4) pfx_covered_mono [OF cov2 r(2)] by simp
  moreover have "(\<forall>x\<in>set (p # ps). pfx_covered (wh self) q (store w) x) \<longrightarrow>
      wb_same (store w) (store w')"
  proof
    assume cov: "\<forall>x\<in>set (p # ps). pfx_covered (wh self) q (store w) x"
    then have cp: "pfx_covered (wh self) q (store w) p" by simp
    then have "pfx_index (store w) (ixpfx_prefix p) \<noteq> None"
      by (auto simp: pfx_covered_def split: option.splits)
    with c1(5) have e1: "store w1 = store w" by simp
    with cp c1(2) have "wb_same (store w) (store w2)"
      unfolding s2 by (auto simp: wb_same_def pfx_covered_def upsert_statement_def)
    moreover from this cov have "\<forall>x\<in>set ps. pfx_covered (wh self) q (store w2) x"
      by (simp add: pfx_covered_same)
    with r(5) have "wb_same (store w2) (store w')" by simp
    ultimately show "wb_same (store w) (store w')" by (rule wb_same_trans)
  qed
  ultimately show ?case by blast
qed

lemma lans_covered_Cons:
  "lans_covered h q s (l # ls) =
     ((\<forall>p\<in>set (ixpfx_set l). pfx_covered h q s p) \<and> lans_covered h q s ls)"
  by (simp add: lans_covered_def)

lemma lans_covered_mono: "lans_covered h q s ls \<Longrightarrow> wb_le c s s' \<Longrightarrow> lans_covered h q s' ls"
  by (auto simp: lans_covered_def intro: pfx_covered_mono)

lemma lans_covered_same: "wb_same s s' \<Longrightarrow> lans_covered h q s' ls = lans_covered h q s ls"
  by (simp add: lans_covered_def pfx_covered_same)

lemma ixlans_covered_Cons:
  "ixlans_covered h api q s (l # ls) =
     (lans_covered h q s (data (api_lan api (URL_PDB_LAN @ ''/'' @ str (ixlan_id l)))) \<and>
      ixlans_covered h api q s ls)"
  by (simp add: ixlans_covered_def)

lemma ixlans_covered_mono:
  "ixlans_covered h api q s ls \<Longrightarrow> wb_le c s s' \<Longrightarrow> ixlans_covered h api q s' ls"
  by (auto simp: ixlans_covered_def intro: lans_covered_mono)

lemma ixlans_covered_same:
  "wb_same s s' \<Longrightarrow> ixlans_covered h api q s' ls = ixlans_covered h api q s ls"
  by (simp add: ixlans_covered_def lans_covered_same)

lemma spec_update_lans:
  assumes h: "wh self = spec_wh pids qids cs"
  shows "\<exists>w'. update_lans self q ref ls w = (Inr (), w') \<and>
           wb_le c (store w) (store w') \<and> ext_index (store w') = ext_index (store w) \<and>
           lans_covered (wh self) q (store w') ls \<and>
           (lans_covered (wh self) q (store w) ls \<longrightarrow> wb_same (store w) (store w'))"
proof (induction ls arbitrary: w)
  case Nil
  show ?case by (simp add: wb_le_refl wb_same_refl lans_covered_def)
next
  case (Cons l ls)
  from spec_update_prefixes [OF h, of q ref "ixpfx_set l" w c] obtain w1 where
    p: "update_prefixes self q ref (ixpfx_set l) w = (Inr (), w1)"
      "wb_le c (store w) (store w1)" "ext_index (store w1) = ext_index (store w)"
      "\<forall>p\<in>set (ixpfx_set l). pfx_covered (wh self) q (store w1) p"
      "(\<forall>p\<in>set (ixpfx_set l). pfx_covered (wh self) q (store w) p) \<longrightarrow>
         wb_same (store w) (store w1)"
    by blast
  from Cons.IH [of w1] obtain w' where
    r: "update_lans self q ref ls w1 = (Inr (), w')"
      "wb_le c (store w1) (store w')" "ext_index (store w') = ext_index (store w1)"
      "lans_covered (wh self) q (store w') ls"
      "lans_covered (wh self) q (store w1) ls \<longrightarrow> wb_same (store w1) (store w')"
    by blast
  have "update_lans self q ref (l # ls) w = (Inr (), w')" using p(1) r(1) by simp
  moreover have "wb_le c (store w) (store w')" using p(2) r(2) by (rule wb_le_trans)
  moreover have "ext_index (store w') = ext_index (store w)" using p(3) r(3) by simp
  moreover have "lans_covered (wh self) q (store w') (l # ls)"
    using p(4) r(2,4) by (auto simp: lans_covered_Cons intro: pfx_covered_mono)
  moreover have "lans_covered (wh self) q (store w) (l # ls) \<longrightarrow> wb_same (store w) (store w')"
  proof
    assume cov: "lans_covered (wh self) q (store w) (l # ls)"
    with p(5) have s1: "wb_same (store w) (store w1)" by (simp add: lans_covered_Cons)
    with cov have "lans_covered (wh self) q (store w1) ls"
      by (simp add: lans_covered_Cons lans_covered_same)
    with r(5) have "wb_same (store w1) (store w')" by simp
    with s1 show "wb_same (store w) (store w')" by (rule wb_same_trans)
  qed
  ultimately show ?case by blast
qed

lemma spec_update_ixlans:
  assumes h: "wh self = spec_wh pids qids cs"
  shows "\<exists>r w'. update_ixlans api self q ls w = (r, w') \<and>
           wb_le c (store w) (store w') \<and> ext_index (store w') = ext_index (store w) \<and>
           (r = Inr () \<longrightarrow> ixlans_covered (wh self) api q (store w') ls) \<and>
           (ixlans_covered (wh self) api q (store w) ls \<longrightarrow> wb_same (store w) (store w'))"
proof (induction ls arbitrary: w)
  case Nil
  show ?case by (simp add: wb_le_refl wb_same_refl ixlans_covered_def)
next
  case (Cons l ls)
  let ?url = "URL_PDB_LAN @ ''/'' @ str (ixlan_id l)"
  obtain req w1 where g: "requests_get (api_lan api) ?url w = (req, w1)" by (meson surj_pair)
  note w1 = requests_get_world [OF g]
  show ?case
  proof (cases "status_code req = 200")
    case False
    with g have "update_ixlans api self q (l # ls) w =
        (Inl (SystemExit ''Error while fetching IXs data''), w1)"
      by (simp add: Let_def)
    with w1(5) show ?thesis by (simp add: wb_le_refl wb_same_refl)
  next
    case True
    from spec_update_lans [OF h, of q "pfx_reference self ?url" "data req" w1 c] obtain w2 where
      p: "update_lans self q (pfx_reference self ?url) (data req) w1 = (Inr (), w2)"
        "wb_le c (store w1) (store w2)" "ext_index (store w2) = ext_index (store w1)"
        "lans_covered (wh self) q (store w2) (data req)"
        "lans_covered (wh self) q (store w1) (data req) \<longrightarrow> wb_same (store w1) (store w2)"
      by blast
    from Cons.IH [of w2] obtain r w' where
      r: "update_ixlans api self q ls w2 = (r, w')"
        "wb_le c (store w2) (store w')" "ext_index (store w') = ext_index (store w2)"
        "r = Inr () \<longrightarrow> ixlans_covered (wh self) api q (store w') ls"
        "ixlans_covered (wh self) api q (store w2) ls \<longrightarrow> wb_same (store w2) (store w')"
      by blast
    have "update_ixlans api self q (l # ls) w = (r, w')"
      using g True p(1) r(1) by (simp add: Let_def pfx_reference_def)
    moreover have "wb_le c (store w) (store w')"
      using p(2) r(2) w1(5) by (auto intro: wb_le_trans)
    moreover have "ext_index (store w') = ext_index (store w)" using p(3) r(3) w1(5) by simp
    moreover have "r = Inr () \<longrightarrow> ixlans_covered (wh self) api q (store w') (l # ls)"
      using p(4) r(2,4) w1(1) by (auto simp: ixlans_covered_Cons intro: lans_covered_mono)
    moreover have "ixlans_covered (wh self) api q (store w) (l # ls) \<longrightarrow>
        wb_same (store w) (store w')"
    proof
      assume cov: "ixlans_covered (wh self) api q (store w) (l # ls)"
      with p(5) w1(1,5) have s1: "wb_same (store w) (store w2)"
        by (simp add: ixlans_covered_Cons)
      with cov have "ixlans_covered (wh self) api q (store w2) ls"
        by (simp add: ixlans_covered_Cons ixlans_covered_same)
      with r(5) have "wb_same (store w2) (store w')" by simp
      with s1 show "wb_same (store w) (store w')" by (rule wb_same_trans)
    qed
    ultimately show ?thesis by blast
  qed
qed

lemma ix_statements_keys:
  "map (\<lambda>st. (statement_pid st, statement_value st)) (fst (ix_statements self x w)) =
     ix_keys (wh self) (orgid2qid self) x"
  by (simp add: ix_statements_def ix_keys_def Let_def split: option.splits)

lemma ix_covered_mono:
  assumes "ix_covered h orgs api s x" and "wb_le c s s'"
  shows "ix_covered h orgs api s' x"
proof -
  from assms(1) obtain q where
    q: "ext_index s (get_qid h IXID_LABEL, str (ix_id x)) = Some q"
      "\<forall>k\<in>set (ix_keys h orgs x). (q, k) \<in> dom (claims s)"
      "case ix_ixlan_set x of None \<Rightarrow> True | Some ixlans \<Rightarrow> ixlans_covered h api q s ixlans"
    by (auto simp: ix_covered_def split: option.splits)
  from q(1) assms(2) have "ext_index s' (get_qid h IXID_LABEL, str (ix_id x)) = Some q"
    by (auto simp: wb_le_def map_le_def dom_def)
  moreover from q(2) assms(2) have "\<forall>k\<in>set (ix_keys h orgs x). (q, k) \<in> dom (claims s')"
    unfolding wb_le_def by blast
  moreover from q(3) assms(2) have
    "case ix_ixlan_set x of None \<Rightarrow> True | Some ixlans \<Rightarrow> ixlans_covered h api q s' ixlans"
    by (auto split: option.splits intro: ixlans_covered_mono)
  ultimately show ?thesis by (simp add: ix_covered_def)
qed

lemma ix_covered_same:
  assumes "wb_same s s'"
  shows "ix_covered h orgs api s' x = ix_covered h orgs api s x"
  using assms ixlans_covered_same [OF assms, of h api]
  by (auto simp: ix_covered_def wb_same_def split: option.splits)

lemma spec_ix_qid:
  assumes h: "wh self = spec_wh pids qids cs" and ok: "ix_cache_ok self (store w)"
  shows "\<exists>q self1 w1. ix_qid x self w = (Inr q, self1, w1) \<and>
           ix_cache_ok self1 (store w1) \<and> same_cfg self self1 \<and>
           ext_index (store w1) (qids IXID_LABEL, str (ix_id x)) = Some q \<and>
           wb_le (qids IXID_LABEL) (store w) (store w1) \<and>
           (ext_index (store w) (qids IXID_LABEL, str (ix_id x)) \<noteq> None \<longrightarrow>
              store w1 = store w)"
proof (cases "ixid2qid self (str (ix_id x))")
  case (Some q)
  then have "ix_qid x self w = (Inr q, self, w)" by (rule ix_qid_cached)
  moreover from Some ok h have "ext_index (store w) (qids IXID_LABEL, str (ix_id x)) = Some q"
    by (simp add: ix_cache_ok_def spec_wh_def)
  ultimately show ?thesis using ok by (simp add: same_cfg_refl wb_le_refl)
next
  case None
  with ok h have n: "ext_index (store w) (qids IXID_LABEL, str (ix_id x)) = None"
    by (simp add: ix_cache_ok_def spec_wh_def)
  let ?q = "new_qid (store w)"
  let ?sts = "[Stmt2 (pids ''instance of'') (qids ''Internet exchange point''),
               Stmt4 (pids ''external ID'') (str (ix_id x)) []
                 [(pids ''instance of'', qids IXID_LABEL)]]"
  define s1 where "s1 =
    fold (register_identifier (pids ''external ID'') (pids ''instance of'') ?q) ?sts
      (fold (upsert_statement ?q) ?sts ((store w)\<lparr>next_item := Suc (next_item (store w))\<rparr>))"
  have e1: "ext_index s1 = (ext_index (store w))((qids IXID_LABEL, str (ix_id x)) \<mapsto> ?q)"
    by (simp add: s1_def register_class_def upsert_statement_def)
  have p1: "pfx_index s1 = pfx_index (store w)"
    by (simp add: s1_def register_class_def upsert_statement_def)
  have d1: "dom (claims (store w)) \<subseteq> dom (claims s1)"
    by (auto simp: s1_def register_class_def upsert_statement_def)
  have a: "wh_add_item (wh self) ''add new peeringDB IX'' (ix_name x) (ix_name_long x)
      [Stmt2 (get_pid (wh self) ''instance of'') (get_qid (wh self) ''Internet exchange point''),
       Stmt4 (get_pid (wh self) ''external ID'') (str (ix_id x)) []
         [(get_pid (wh self) ''instance of'', get_qid (wh self) IXID_LABEL)]] w =
      (Inr ?q, w\<lparr>store := s1,
         events := events w @ [Call (AddItem ''add new peeringDB IX'' (ix_name x)
           (ix_name_long x) ?sts)]\<rparr>)"
    by (simp add: wh_add_item_def wh_call_def h spec_wh_def s1_def)
  let ?self1 = "self\<lparr>ixid2qid := (ixid2qid self)(str (ix_id x) \<mapsto> ?q)\<rparr>"
  let ?w1 = "w\<lparr>store := s1,
         events := events w @ [Call (AddItem ''add new peeringDB IX'' (ix_name x)
           (ix_name_long x) ?sts)]\<rparr>"
  have r: "ix_qid x self w = (Inr ?q, ?self1, ?w1)"
    using None a by (simp add: ix_qid_def dom_def Let_def)
  have "ix_cache_ok ?self1 (store ?w1)"
    using ok h e1 by (auto simp: ix_cache_ok_def spec_wh_def fun_eq_iff)
  moreover have "same_cfg self ?self1" by (simp add: same_cfg_def)
  moreover have "ext_index (store ?w1) (qids IXID_LABEL, str (ix_id x)) = Some ?q"
    using e1 by simp
  moreover have "wb_le (qids IXID_LABEL) (store w) (store ?w1)"
    using e1 p1 d1 n by (auto simp: wb_le_def map_le_def)
  ultimately show ?thesis using r n by blast
qed

lemma spec_update_ix:
  assumes h: "wh self = spec_wh pids qids cs" and ok: "ix_cache_ok self (store w)"
  shows "\<exists>r self1 w'. update_ix api x self w = (r, self1, w') \<and>
           ix_cache_ok self1 (store w') \<and> same_cfg self self1 \<and>
           wb_le (qids IXID_LABEL) (store w) (store w') \<and>
           ((\<exists>q. r = Inr q) \<longrightarrow> ix_covered (wh self) (orgid2qid self) api (store w') x) \<and>
           (ix_covered (wh self) (orgid2qid self) api (store w) x \<longrightarrow>
              wb_same (store w) (store w'))"
proof -
  let ?c = "qids IXID_LABEL"
  let ?h = "wh self"
  let ?orgs = "orgid2qid self"
  have gq: "get_qid ?h IXID_LABEL = ?c" using h by (simp add: spec_wh_def)
  obtain sts w0 where s: "ix_statements self x w = (sts, w0)" by (meson surj_pair)
  note w0 = ix_statements_world [OF s]
  have keys: "(\<lambda>st. (statement_pid st, statement_value st)) ` set sts = set (ix_keys ?h ?orgs x)"
    using ix_statements_keys [of self x w] s by (simp flip: set_map)
  from ok w0(3) have ok0: "ix_cache_ok self (store w0)" by simp
  from spec_ix_qid [OF h ok0, of x] obtain q self1 w1 where
    q: "ix_qid x self w0 = (Inr q, self1, w1)" "ix_cache_ok self1 (store w1)"
      "same_cfg self self1" "ext_index (store w1) (?c, str (ix_id x)) = Some q"
      "wb_le ?c (store w0) (store w1)"
      "ext_index (store w0) (?c, str (ix_id x)) \<noteq> None \<longrightarrow> store w1 = store w0"
    by blast
  have wh1: "wh self1 = ?h" using q(3) by (simp add: same_cfg_def)
  define w2 where "w2 = w1\<lparr>store := fold (upsert_statement q) sts (store w1),
      events := events w1 @ [Call (UpsertStatements ''update peeringDB ixs'' q sts)]\<rparr>"
  have u: "wh_upsert_statements (wh self1) ''update peeringDB ixs'' q sts w1 = (Inr (), w2)"
    by (simp add: wh1 h spec_upsert_statements w2_def)
  have s2: "store w2 = fold (upsert_statement q) sts (store w1)" by (simp add: w2_def)
  have e2: "ext_index (store w2) = ext_index (store w1)"
    and p2: "pfx_index (store w2) = pfx_index (store w1)"
    and n2: "next_item (store w2) = next_item (store w1)"
    and d2: "dom (claims (store w2)) =
        dom (claims (store w1)) \<union> (\<lambda>k. (q, k)) ` set (ix_keys ?h ?orgs x)"
    unfolding s2 using keys by (auto simp: fold_upsert_statement image_iff)
  have le2: "wb_le ?c (store w1) (store w2)"
    using e2 p2 d2 by (auto simp: wb_le_def)
  have le02: "wb_le ?c (store w) (store w2)"
    using q(5) le2 w0(3) by (auto intro: wb_le_trans)
  have ok2: "ix_cache_ok self1 (store w2)" using q(2) e2 by (simp add: ix_cache_ok_def)
  have part2: "ext_index (store w2) (get_qid ?h IXID_LABEL, str (ix_id x)) = Some q \<and>
      (\<forall>k\<in>set (ix_keys ?h ?orgs x). (q, k) \<in> dom (claims (store w2)))"
    using q(4) e2 d2 gq by auto
  have noop2: "ix_covered ?h ?orgs api (store w) x \<longrightarrow>
      wb_same (store w) (store w2) \<and>
      (case ix_ixlan_set x of None \<Rightarrow> True
       | Some ixlans \<Rightarrow> ixlans_covered ?h api q (store w) ixlans)"
  proof
    assume cov: "ix_covered ?h ?orgs api (store w) x"
    then obtain q' where
      c: "ext_index (store w) (?c, str (ix_id x)) = Some q'"
        "\<forall>k\<in>set (ix_keys ?h ?orgs x). (q', k) \<in> dom (claims (store w))"
        "case ix_ixlan_set x of None \<Rightarrow> True
         | Some ixlans \<Rightarrow> ixlans_covered ?h api q' (store w) ixlans"
      by (auto simp: ix_covered_def gq split: option.splits)
    with q(6) w0(3) have e1: "store w1 = store w" by simp
    with q(4) c(1) have "q' = q" by simp
    with c e1 e2 p2 n2 d2 show "wb_same (store w) (store w2) \<and>
      (case ix_ixlan_set x of None \<Rightarrow> True
       | Some ixlans \<Rightarrow> ixlans_covered ?h api q (store w) ixlans)"
      by (auto simp: wb_same_def)
  qed
  show ?thesis
  proof (cases "ix_ixlan_set x")
    case None
    with s q(1) u have r: "update_ix api x self w = (Inr q, self1, w2)"
      by (simp add: update_ix_def)
    have "ix_covered ?h ?orgs api (store w2) x"
      using part2 None by (simp add: ix_covered_def)
    with r ok2 q(3) le02 noop2 show ?thesis by auto
  next
    case (Some ixlans)
    from spec_update_ixlans [of self1 pids qids cs api q ixlans w2 ?c] wh1 h obtain r3 w3 where
      l: "update_ixlans api self1 q ixlans w2 = (r3, w3)"
        "wb_le ?c (store w2) (store w3)" "ext_index (store w3) = ext_index (store w2)"
        "r3 = Inr () \<longrightarrow> ixlans_covered ?h api q (store w3) ixlans"
        "ixlans_covered ?h api q (store w2) ixlans \<longrightarrow> wb_same (store w2) (store w3)"
      by auto
    define r :: "error + qid" where "r = (case r3 of Inl e \<Rightarrow> Inl e | Inr u \<Rightarrow> Inr q)"
    have res: "update_ix api x self w = (r, self1, w3)"
      using s q(1) u Some l(1) by (cases r3) (simp_all add: update_ix_def r_def)
    have ok3: "ix_cache_ok self1 (store w3)" using ok2 l(3) by (simp add: ix_cache_ok_def)
    have le3: "wb_le ?c (store w) (store w3)" using le02 l(2) by (rule wb_le_trans)
    have cov3: "(\<exists>q. r = Inr q) \<longrightarrow> ix_covered ?h ?orgs api (store w3) x"
    proof
      assume "\<exists>q. r = Inr q"
      then have "r3 = Inr ()" by (cases r3) (simp_all add: r_def)
      with l(4) have "ixlans_covered ?h api q (store w3) ixlans" by simp
      moreover from part2 l(2,3) have
        "ext_index (store w3) (get_qid ?h IXID_LABEL, str (ix_id x)) = Some q"
        "\<forall>k\<in>set (ix_keys ?h ?orgs x). (q, k) \<in> dom (claims (store w3))"
        unfolding wb_le_def by auto
      ultimately show "ix_covered ?h ?orgs api (store w3) x"
        using Some by (simp add: ix_covered_def)
    qed
    have noop3: "ix_covered ?h ?orgs api (store w) x \<longrightarrow> wb_same (store w) (store w3)"
    proof
      assume "ix_covered ?h ?orgs api (store w) x"
      with noop2 Some have s02: "wb_same (store w) (store w2)"
        and "ixlans_covered ?h api q (store w) ixlans" by simp_all
      then have "ixlans_covered ?h api q (store w2) ixlans"
        by (simp add: ixlans_covered_same)
      with l(5) have "wb_same (store w2) (store w3)" by simp
      with s02 show "wb_same (store w) (store w3)" by (rule wb_same_trans)
    qed
    from res ok3 q(3) le3 cov3 noop3 show ?thesis by blast
  qed
qed

lemma list_covered_Cons:
  "list_covered h orgs api s (x # xs) =
     ((case data (api_ix api (URL_PDB_IXS @ ''/'' @ str (ix_id x))) of
         [] \<Rightarrow> True
       | ix_info # rest \<Rightarrow> ix_covered h orgs api s ix_info) \<and>
      list_covered h orgs api s xs)"
  by (simp add: list_covered_def)

lemma list_covered_same:
  "wb_same s s' \<Longrightarrow> list_covered h orgs api s' xs = list_covered h orgs api s xs"
  by (auto simp: list_covered_def ix_covered_same split: list.splits)

lemma spec_ix_loop:
  assumes h: "wh self = spec_wh pids qids cs" and ok: "ix_cache_ok self (store w)"
  shows "\<exists>r self1 w'. ix_loop api n i xs self w = (r, self1, w') \<and>
           wb_le (qids IXID_LABEL) (store w) (store w') \<and>
           (r = Inr () \<longrightarrow> list_covered (wh self) (orgid2qid self) api (store w') xs) \<and>
           (list_covered (wh self) (orgid2qid self) api (store w) xs \<longrightarrow>
              wb_same (store w) (store w'))"
  using h ok
proof (induction xs arbitrary: i self w)
  case Nil
  show ?case by (simp add: wb_le_refl wb_same_refl list_covered_def)
next
  case (Cons x xs)
  let ?c = "qids IXID_LABEL"
  let ?url = "URL_PDB_IXS @ ''/'' @ str (ix_id x)"
  obtain req w1 where g: "requests_get (api_ix api) ?url w = (req, w1)" by (meson surj_pair)
  note w1 = requests_get_world [OF g]
  show ?case
  proof (cases "status_code req = 200")
    case False
    with g have "ix_loop api n i (x # xs) self w =
        (Inl (SystemExit ''Error while fetching IXs data''), self, w1)" by simp
    with w1(5) show ?thesis by (simp add: wb_le_refl wb_same_refl)
  next
    case True
    show ?thesis
    proof (cases "data req")
      case Nil
      with g True have "ix_loop api n i (x # xs) self w =
          (Inl (Exception ''IndexError''), self, w1)" by simp
      with w1(5) show ?thesis by (simp add: wb_le_refl wb_same_refl)
    next
      case (Cons ix_info rest)
      from Cons.prems(2) w1(5) have ok1: "ix_cache_ok self (store w1)" by simp
      from spec_update_ix [OF Cons.prems(1) ok1, of api ix_info] obtain r2 self2 w2 where
        u: "update_ix api ix_info self w1 = (r2, self2, w2)" "ix_cache_ok self2 (store w2)"
          "same_cfg self self2" "wb_le ?c (store w1) (store w2)"
          "(\<exists>q. r2 = Inr q) \<longrightarrow> ix_covered (wh self) (orgid2qid self) api (store w2) ix_info"
          "ix_covered (wh self) (orgid2qid self) api (store w1) ix_info \<longrightarrow>
             wb_same (store w1) (store w2)"
        by blast
      have cfg: "wh self2 = wh self" "orgid2qid self2 = orgid2qid self"
        using u(3) by (simp_all add: same_cfg_def)
      have dreq: "data (api_ix api ?url) = ix_info # rest" using w1(1) Cons by simp
      show ?thesis
      proof (cases r2)
        case (Inl e)
        with g True Cons u(1) have "ix_loop api n i (x # xs) self w = (Inl e, self2, w2)"
          by simp
        moreover have "list_covered (wh self) (orgid2qid self) api (store w) (x # xs) \<longrightarrow>
            wb_same (store w) (store w2)"
          using u(6) w1(5) dreq by (simp add: list_covered_Cons)
        ultimately show ?thesis using u(4) w1(5) by auto
      next
        case (Inr qq)
        let ?w3 = "stderr_write
                     (CHR 0x0D # ''Processing... '' @ str (int i + 1) @ ''/'' @ str (int n)) w2"
        have s3: "store ?w3 = store w2" by (simp add: stderr_write_def)
        have h2: "wh self2 = spec_wh pids qids cs" using cfg(1) Cons.prems(1) by simp
        have ok3: "ix_cache_ok self2 (store ?w3)" using u(2) s3 by simp
        from Cons.IH [OF h2 ok3, of "Suc i"] cfg s3 obtain r self1 w' where
          l: "ix_loop api n (Suc i) xs self2 ?w3 = (r, self1, w')"
            "wb_le ?c (store w2) (store w')"
            "r = Inr () \<longrightarrow> list_covered (wh self) (orgid2qid self) api (store w') xs"
            "list_covered (wh self) (orgid2qid self) api (store w2) xs \<longrightarrow>
               wb_same (store w2) (store w')"
          by auto
        have res: "ix_loop api n i (x # xs) self w = (r, self1, w')"
          using g True Cons u(1) Inr l(1) by simp
        have le: "wb_le ?c (store w) (store w')"
          using u(4) l(2) w1(5) by (auto intro: wb_le_trans)
        have cov: "r = Inr () \<longrightarrow>
            list_covered (wh self) (orgid2qid self) api (store w') (x # xs)"
          using l(3) u(5) Inr l(2) dreq
          by (auto simp: list_covered_Cons intro: ix_covered_mono)
        have noop: "list_covered (wh self) (orgid2qid self) api (store w) (x # xs) \<longrightarrow>
            wb_same (store w) (store w')"
        proof
          assume c: "list_covered (wh self) (orgid2qid self) api (store w) (x # xs)"
          with u(6) w1(5) dreq have s12: "wb_same (store w) (store w2)"
            by (simp add: list_covered_Cons)
          with c have "list_covered (wh self) (orgid2qid self) api (store w2) xs"
            by (simp add: list_covered_Cons list_covered_same)
          with l(4) have "wb_same (store w2) (store w')" by simp
          with s12 show "wb_same (store w) (store w')" by (rule wb_same_trans)
        qed
        from res le cov noop show ?thesis by blast
      qed
    qed
  qed
qed

lemma spec_ix_run:
  assumes h: "wh self = spec_wh pids qids cs" and ok: "ix_cache_ok self (store w)"
    and run: "ix_run api self w = (r, self1, w')"
  shows "wb_le (qids IXID_LABEL) (store w) (store w') \<and>
         (r = Inr () \<longrightarrow>
            list_covered (wh self) (orgid2qid self) api (store w')
              (data (api_ix api URL_PDB_IXS))) \<and>
         (list_covered (wh self) (orgid2qid self) api (store w)
            (data (api_ix api URL_PDB_IXS)) \<longrightarrow> wb_same (store w) (store w'))"
proof -
  obtain req w1 where g: "requests_get (api_ix api) URL_PDB_IXS w = (req, w1)"
    by (meson surj_pair)
  note w1 = requests_get_world [OF g]
  show ?thesis
  proof (cases "status_code req = 200")
    case False
    with run g have "r = Inl (SystemExit ''Error while fetching IXs data'')" "w' = w1"
      by (simp_all add: ix_run_def)
    with w1(5) show ?thesis by (simp add: wb_le_refl wb_same_refl)
  next
    case True
    have lg: "wh_login (wh self) w1 = (Inr (), w1\<lparr>events := events w1 @ [Call Login]\<rparr>)"
      by (simp add: wh_login_def wh_call_def h spec_wh_def)
    let ?w2 = "w1\<lparr>events := events w1 @ [Call Login]\<rparr>"
    have s2: "store ?w2 = store w" using w1(5) by simp
    from ok s2 have ok2: "ix_cache_ok self (store ?w2)" by simp
    from run g True lg have
      l: "ix_loop api (length (data req)) 0 (data req) self ?w2 = (r, self1, w')"
      by (simp add: ix_run_def Let_def)
    from spec_ix_loop [OF h ok2, of api "length (data req)" 0 "data req"] l s2 w1(1)
    show ?thesis by auto
  qed
qed

lemma spec_ix_init:
  assumes "ix_init (spec_wh pids qids cs) now w = (r, w1)"
  shows "\<exists>self. r = Inr self \<and> store w1 = store w \<and> wh self = spec_wh pids qids cs \<and>
           ix_cache_ok self (store w1) \<and>
           orgid2qid self = (\<lambda>k. ext_index (store w) (qids ORGID_LABEL, k))"
  using assms
  by (auto simp: ix_init_def wh_get_qid_create_def wh_call_def spec_wh_def Let_def
      ix_cache_ok_def)

lemma spec_ix_idempotent:
  assumes d: "qids ORGID_LABEL \<noteq> qids IXID_LABEL"
    and init1: "ix_init (spec_wh pids qids cs) now1 w = (Inr c1, w1)"
    and run1: "ix_run api c1 w1 = (Inr (), c1', w1')"
    and s2: "store v = store w1'"
    and init2: "ix_init (spec_wh pids qids cs) now2 v = (Inr c2, v1)"
    and run2: "ix_run api c2 v1 = (r2, c2', v2)"
  shows "wb_same (store w1') (store v2)"
proof -
  let ?h = "spec_wh pids qids cs"
  from spec_ix_init [OF init1] have
    i1: "store w1 = store w" "wh c1 = ?h" "ix_cache_ok c1 (store w1)"
      "orgid2qid c1 = (\<lambda>k. ext_index (store w) (qids ORGID_LABEL, k))" by auto
  from spec_ix_init [OF init2] have
    i2: "store v1 = store v" "wh c2 = ?h" "ix_cache_ok c2 (store v1)"
      "orgid2qid c2 = (\<lambda>k. ext_index (store v) (qids ORGID_LABEL, k))" by auto
  from spec_ix_run [OF i1(2,3) run1] have
    r1: "wb_le (qids IXID_LABEL) (store w1) (store w1')"
      "list_covered (wh c1) (orgid2qid c1) api (store w1') (data (api_ix api URL_PDB_IXS))"
    by simp_all
  from r1(1) d i1(1) s2 have "orgid2qid c2 = orgid2qid c1"
    unfolding i1(4) i2(4) by (auto simp: wb_le_def)
  with r1(2) i1(2) i2(1,2) s2 have
    "list_covered (wh c2) (orgid2qid c2) api (store v1) (data (api_ix api URL_PDB_IXS))"
    by simp
  with spec_ix_run [OF i2(2,3) run2] i2(1) s2 show ?thesis by simp
qed


text \<open>
  Claim C7. For an AS-relationship record, once the two \<^verbatim>\<open>get_node\<close> calls (both with
  \<^verbatim>\<open>create=True\<close>) have answered \<open>n1\<close> for \<^verbatim>\<open>asn1\<close> and \<open>n2\<close> for \<^verbatim>\<open>asn2\<close>, the calls that
  \<^verbatim>\<open>update_asn\<close> issues are exactly these two and one \<^verbatim>\<open>add_links\<close> on \<open>n1\<close> with the
  single link \<^verbatim>\<open>PEERS_WITH\<close> to \<open>n2\<close>, whose reference has the source \<^verbatim>\<open>BGPKIT\<close>. The
  store that \<^verbatim>\<open>update_asn\<close> leaves is the one that this \<^verbatim>\<open>add_links\<close> of the handle
  produces from the store left by the two \<^verbatim>\<open>get_node\<close> calls: the link is written, and
  nothing else is. No \<^verbatim>\<open>add_links\<close> is issued on \<open>n2\<close> when it is another node than \<open>n1\<close>.
\<close>

theorem update_asn_peers_with:
  assumes "get_node h ''AS'' (asn1 r) True (store w) = (Inr n1, s1)"
      and "get_node h ''AS'' (asn2 r) True s1 = (Inr n2, s2)"
  shows "events (snd (update_asn (as2rel_init h utcnow) r w)) =
           events w @
             [Call (GetNode ''AS'' (asn1 r) True), Call (GetNode ''AS'' (asn2 r) True),
              Call (AddLinks n1 [(''PEERS_WITH'', n2, reference (as2rel_init h utcnow))])]
         \<and> store (snd (update_asn (as2rel_init h utcnow) r w)) =
             snd (add_links h n1 [(''PEERS_WITH'', n2, reference (as2rel_init h utcnow))] s2)
         \<and> source (reference (as2rel_init h utcnow)) = ''BGPKIT''
         \<and> (n2 \<noteq> n1 \<longrightarrow>
              (\<forall>ls. Call (AddLinks n2 ls) \<notin> set (drop (length (events w))
                       (events (snd (update_asn (as2rel_init h utcnow) r w))))))"
proof -
  let ?self = "as2rel_init h utcnow"
  have h: "iyp ?self = h" by (simp add: as2rel_init_def)
  obtain res s3 where a: "add_links h n1 [(''PEERS_WITH'', n2, reference ?self)] s2 = (res, s3)"
    by (cases "add_links h n1 [(''PEERS_WITH'', n2, reference ?self)] s2")
  have ev: "events (snd (update_asn ?self r w)) =
           events w @
             [Call (GetNode ''AS'' (asn1 r) True), Call (GetNode ''AS'' (asn2 r) True),
              Call (AddLinks n1 [(''PEERS_WITH'', n2, reference ?self)])]
         \<and> store (snd (update_asn ?self r w)) = s3"
  proof (cases res)
    case (Inr u)
    with assms a h show ?thesis by (simp add: update_asn_ok)
  next
    case (Inl e)
    show ?thesis
    proof (cases e)
      case (SystemExit m)
      with Inl assms a h show ?thesis by (simp add: update_asn_exit)
    next
      case (Exception m)
      with Inl assms a h show ?thesis by (simp add: update_asn_caught)
    qed
  qed
  have src: "source (reference ?self) = ''BGPKIT''" by (simp add: as2rel_init_def)
  from ev a src show ?thesis by simp
qed

theorem update_asn_peers_with_witness:
  "events (snd (update_asn (as2rel_init (scripted_iyp [] []) noon) \<lparr>asn1 = 64500, asn2 = 64501\<rparr>
       (world0 []))) =
     [Call (GetNode ''AS'' 64500 True), Call (GetNode ''AS'' 64501 True),
      Call (AddLinks 64500
        [(''PEERS_WITH'', 64501,
          \<lparr>source = ''BGPKIT'', reference_url = URL_BGPKIT_AS2REL,
           point_in_time = \<lparr>year = 2023, month = 3, day = 14, hour = 0, minute = 0, second = 0,
             microsecond = 0\<rparr>\<rparr>)])]
   \<and> store (snd (update_asn (as2rel_init (scripted_iyp [] []) noon) \<lparr>asn1 = 64500, asn2 = 64501\<rparr>
       (world0 []))) =
     [(64500, ''PEERS_WITH'', 64501,
       \<lparr>source = ''BGPKIT'', reference_url = URL_BGPKIT_AS2REL,
        point_in_time = \<lparr>year = 2023, month = 3, day = 14, hour = 0, minute = 0, second = 0,
          microsecond = 0\<rparr>\<rparr>)]"
  using update_asn_peers_with [of "scripted_iyp [] []" "\<lparr>asn1 = 64500, asn2 = 64501\<rparr>"
      "world0 []" 64500 "[]" 64501 "[]" noon]
  by (simp add: scripted_iyp_def world0_def as2rel_init_def noon_def)

text \<open>
  Claim C2, amended. In the AS-relationship crawler, when \<^verbatim>\<open>add_links\<close> raises an
  \<^verbatim>\<open>Exception\<close> for record \<open>r\<close> (the records \<open>pre\<close> before it were processed and both
  nodes of \<open>r\<close> resolved), \<^verbatim>\<open>update_asn\<close> returns normally, exactly one report is
  printed for \<open>r\<close> (the record, then the error) and the loop goes on with the records
  \<open>post\<close> after it.
\<close>

theorem add_links_error_isolated:
  assumes "as2rel_loop self i pre w = (Inr (), w1)"
      and "get_node (iyp self) ''AS'' (asn1 r) True (store w1) = (Inr n1, s1)"
      and "get_node (iyp self) ''AS'' (asn2 r) True s1 = (Inr n2, s2)"
      and "add_links (iyp self) n1 [(''PEERS_WITH'', n2, reference self)] s2 =
             (Inl (Exception err), s3)"
  shows "\<exists>w2. update_asn self r w1 = (Inr (n1, n2), w2)
           \<and> stdout w2 = stdout w1 @ [[PStr ''Error for: '', PRel r], [PErr (Exception err)]]
           \<and> as2rel_loop self i (pre @ r # post) w =
               as2rel_loop self (Suc (i + length pre)) post
                 (stderr_write
                    (CHR 0x0D # ''Processed '' @ str (int (i + length pre)) @ '' relationships'')
                    w2)"
proof -
  from assms(2-4) obtain w2 where
    u: "update_asn self r w1 = (Inr (n1, n2), w2)" and
    out: "stdout w2 = stdout w1 @ [[PStr ''Error for: '', PRel r], [PErr (Exception err)]]"
    by (simp add: update_asn_caught)
  from assms(1) u have
    "as2rel_loop self i (pre @ r # post) w =
       as2rel_loop self (Suc (i + length pre)) post
         (stderr_write
            (CHR 0x0D # ''Processed '' @ str (int (i + length pre)) @ '' relationships'') w2)"
    by (simp add: as2rel_loop_append)
  with u out show ?thesis by blast
qed

theorem add_links_error_isolated_witness:
  "as2rel_loop (as2rel_init (scripted_iyp [] [64502]) noon) 0
     ([\<lparr>asn1 = 64500, asn2 = 64501\<rparr>] @ \<lparr>asn1 = 64502, asn2 = 64503\<rparr> #
        [\<lparr>asn1 = 64504, asn2 = 64505\<rparr>]) (world0 []) =
   (Inr (),
    \<lparr>store =
       [(64500, ''PEERS_WITH'', 64501, reference (as2rel_init (scripted_iyp [] [64502]) noon)),
        (64504, ''PEERS_WITH'', 64505, reference (as2rel_init (scripted_iyp [] [64502]) noon))],
     events =
       [Call (GetNode ''AS'' 64500 True), Call (GetNode ''AS'' 64501 True),
        Call (AddLinks 64500
          [(''PEERS_WITH'', 64501, reference (as2rel_init (scripted_iyp [] [64502]) noon))]),
        Call (GetNode ''AS'' 64502 True), Call (GetNode ''AS'' 64503 True),
        Call (AddLinks 64502
          [(''PEERS_WITH'', 64503, reference (as2rel_init (scripted_iyp [] [64502]) noon))]),
        Call (GetNode ''AS'' 64504 True), Call (GetNode ''AS'' 64505 True),
        Call (AddLinks 64504
          [(''PEERS_WITH'', 64505, reference (as2rel_init (scripted_iyp [] [64502]) noon))])],
     stdout =
       [[PStr ''Error for: '', PRel \<lparr>asn1 = 64502, asn2 = 64503\<rparr>],
        [PErr (Exception ''write failed'')]],
     stderr =
       [CHR 0x0D # ''Processed 0 relationships'', CHR 0x0D # ''Processed 1 relationships'',
        CHR 0x0D # ''Processed 2 relationships'']\<rparr>)"
proof -
  let ?self = "as2rel_init (scripted_iyp [] [64502]) noon"
  let ?w1 = "\<lparr>store = [(64500, ''PEERS_WITH'', 64501, reference ?self)],
     events = [Call (GetNode ''AS'' 64500 True), Call (GetNode ''AS'' 64501 True),
        Call (AddLinks 64500 [(''PEERS_WITH'', 64501, reference ?self)])],
     stdout = [], stderr = [CHR 0x0D # ''Processed 0 relationships'']\<rparr>
       :: ((node_id \<times> link) list, iyp_call) world"
  have pre: "as2rel_loop ?self 0 [\<lparr>asn1 = 64500, asn2 = 64501\<rparr>] (world0 []) = (Inr (), ?w1)"
    by (simp add: update_asn_def iyp_get_node_def iyp_add_links_def scripted_iyp_def
        as2rel_init_def world0_def stderr_write_def str_def)
  have g1: "get_node (iyp ?self) ''AS'' (asn1 \<lparr>asn1 = 64502, asn2 = 64503\<rparr>) True (store ?w1) =
      (Inr 64502, store ?w1)"
    by (simp add: scripted_iyp_def as2rel_init_def)
  have g2: "get_node (iyp ?self) ''AS'' (asn2 \<lparr>asn1 = 64502, asn2 = 64503\<rparr>) True (store ?w1) =
      (Inr 64503, store ?w1)"
    by (simp add: scripted_iyp_def as2rel_init_def)
  have a: "add_links (iyp ?self) 64502 [(''PEERS_WITH'', 64503, reference ?self)] (store ?w1) =
      (Inl (Exception ''write failed''), store ?w1)"
    by (simp add: scripted_iyp_def as2rel_init_def)
  from add_links_error_isolated [OF pre g1 g2 a, of "[\<lparr>asn1 = 64504, asn2 = 64505\<rparr>]"]
  show ?thesis
    by (simp add: update_asn_def iyp_get_node_def iyp_add_links_def scripted_iyp_def
        as2rel_init_def world0_def stderr_write_def str_def print_def)
qed



text \<open>
  Claim C2 as stated fails: an error of \<^verbatim>\<open>get_node\<close> (node creation) on the first of
  two AS-relationship records ends the loop with that error, nothing is printed and the
  second record is never touched; and in the exchange-point crawler an error of
  \<^verbatim>\<open>upsert_statements\<close> on the first of two exchange points ends the run with that
  error, nothing is printed and the second exchange point is never fetched.
\<close>

theorem store_error_aborts_run:
  "as2rel_loop (as2rel_init (scripted_iyp [64500] []) noon) 0
     [\<lparr>asn1 = 64500, asn2 = 64501\<rparr>, \<lparr>asn1 = 64502, asn2 = 64503\<rparr>] (world0 []) =
   (Inl (Exception ''node creation failed''),
    \<lparr>store = [], events = [Call (GetNode ''AS'' 64500 True)], stdout = [], stderr = []\<rparr>)
   \<and> (case ix_init (scripted_wh [] [''Q: Tokyo IX '']) noon (world0 []) of
        (Inl e, w) \<Rightarrow> False
      | (Inr self, w) \<Rightarrow>
          (case ix_run (scripted_api [] [ix_tokyo, ix_nowhere] [lan_tokyo]) self w of
             (r, self1, w1) \<Rightarrow>
               r = Inl (Exception ''write failed'') \<and> stdout w1 = [] \<and>
               filter (\<lambda>e. \<not> is_call e) (events w1) =
                 [Fetch URL_PDB_IXS 200, Fetch (URL_PDB_IXS @ ''/1'') 200]))"
  by (simp add: as2rel_eval ix_eval)


text \<open>
  Claim C8, amended. In a run of either crawler, a fetch that is not answered with
  status 200 (so every answer outside 2xx) is the last event of the run, and the run
  ends with \<^verbatim>\<open>SystemExit\<close> (the list, the per-item detail and the per-LAN detail of
  the exchange-point crawler, the one document of the AS-relationship crawler). In the
  AS-relationship crawler an \<^verbatim>\<open>Exception\<close> of \<^verbatim>\<open>add_links\<close> does not end the run:
  \<^verbatim>\<open>update_asn\<close> returns normally.
\<close>

theorem fetch_failure_aborts:
  "(as2rel_run self web w = (res, w') \<longrightarrow>
      (\<exists>evs. events w' = events w @ evs \<and> fetch_abort (is_exit res) evs))
   \<and> (ix_run api c v = (r, c1, v') \<longrightarrow>
      (\<exists>evs. events v' = events v @ evs \<and> fetch_abort (is_exit r) evs))
   \<and> (get_node (iyp self) ''AS'' (asn1 rec) True (store w) = (Inr n1, s1) \<and>
      get_node (iyp self) ''AS'' (asn2 rec) True s1 = (Inr n2, s2) \<and>
      add_links (iyp self) n1 [(''PEERS_WITH'', n2, reference self)] s2 =
        (Inl (Exception err), s3) \<longrightarrow>
      fst (update_asn self rec w) = Inr (n1, n2))"
proof (intro conjI impI)
  assume "as2rel_run self web w = (res, w')"
  then show "\<exists>evs. events w' = events w @ evs \<and> fetch_abort (is_exit res) evs"
    by (rule as2rel_run_trace)
next
  assume "ix_run api c v = (r, c1, v')"
  from ix_run_trace [OF this, of "\<lambda>e. True"]
  show "\<exists>evs. events v' = events v @ evs \<and> fetch_abort (is_exit r) evs"
    by blast
next
  assume "get_node (iyp self) ''AS'' (asn1 rec) True (store w) = (Inr n1, s1) \<and>
      get_node (iyp self) ''AS'' (asn2 rec) True s1 = (Inr n2, s2) \<and>
      add_links (iyp self) n1 [(''PEERS_WITH'', n2, reference self)] s2 =
        (Inl (Exception err), s3)"
  then show "fst (update_asn self rec w) = Inr (n1, n2)"
    by (simp add: update_asn_caught)
qed


theorem fetch_failure_aborts_witness:
  "fst (as2rel_run (as2rel_init (scripted_iyp [] [64500]) noon)
          (\<lambda>url. \<lparr>status_code = 404, data = []\<rparr>) (world0 [])) =
     Inl (SystemExit ''Error while fetching AS relationships'')
   \<and> fetch_abort True
        (events (snd (as2rel_run (as2rel_init (scripted_iyp [] [64500]) noon)
          (\<lambda>url. \<lparr>status_code = 404, data = []\<rparr>) (world0 []))))
   \<and> fst (ix_run (scripted_api [URL_PDB_LAN @ ''/11''] [ix_tokyo, ix_nowhere] [lan_tokyo])
          (example_crawler [] []) (world0 [])) =
     Inl (SystemExit ''Error while fetching IXs data'')
   \<and> fetch_abort True
        (events (snd (snd (ix_run
           (scripted_api [URL_PDB_LAN @ ''/11''] [ix_tokyo, ix_nowhere] [lan_tokyo])
           (example_crawler [] []) (world0 [])))))
   \<and> last (events (snd (snd (ix_run
           (scripted_api [URL_PDB_LAN @ ''/11''] [ix_tokyo, ix_nowhere] [lan_tokyo])
           (example_crawler [] []) (world0 []))))) = Fetch (URL_PDB_LAN @ ''/11'') 503
   \<and> fst (update_asn (as2rel_init (scripted_iyp [] [64500]) noon)
          \<lparr>asn1 = 64500, asn2 = 64501\<rparr> (world0 [])) = Inr (64500, 64501)"
proof -
  let ?self = "as2rel_init (scripted_iyp [] [64500]) noon"
  let ?web = "\<lambda>url :: string. \<lparr>status_code = 404 :: int, data = [] :: as_rel list\<rparr>"
  let ?api = "scripted_api [URL_PDB_LAN @ ''/11''] [ix_tokyo, ix_nowhere] [lan_tokyo]"
  let ?c = "example_crawler [] []"
  let ?v = "world0 [] :: ((qid \<times> statement list) list, wh_call) world"
  let ?w = "world0 [] :: ((node_id \<times> link) list, iyp_call) world"
  have r1: "fst (as2rel_run ?self ?web ?w) =
      Inl (SystemExit ''Error while fetching AS relationships'')"
    by (simp add: as2rel_eval)
  have r2: "fst (ix_run ?api ?c ?v) = Inl (SystemExit ''Error while fetching IXs data'')"
    by (simp add: ix_eval example_eval)
  have l2: "last (events (snd (snd (ix_run ?api ?c ?v)))) = Fetch (URL_PDB_LAN @ ''/11'') 503"
    by (simp add: ix_eval example_eval)
  have g: "get_node (iyp ?self) ''AS'' 64500 True [] = (Inr 64500, [])"
    "get_node (iyp ?self) ''AS'' 64501 True [] = (Inr 64501, [])"
    "add_links (iyp ?self) 64500 [(''PEERS_WITH'', 64501, reference ?self)] [] =
       (Inl (Exception ''write failed''), [])"
    by (simp_all add: as2rel_init_def scripted_iyp_def)
  from fetch_failure_aborts [of ?self ?web ?w "fst (as2rel_run ?self ?web ?w)"
      "snd (as2rel_run ?self ?web ?w)" ?api ?c ?v "fst (ix_run ?api ?c ?v)"
      "fst (snd (ix_run ?api ?c ?v))" "snd (snd (ix_run ?api ?c ?v))"
      "\<lparr>asn1 = 64500, asn2 = 64501\<rparr>" 64500 "[]" 64501 "[]" "''write failed''" "[]"]
  have "fetch_abort (is_exit (fst (as2rel_run ?self ?web ?w)))
          (events (snd (as2rel_run ?self ?web ?w)))"
    and "fetch_abort (is_exit (fst (ix_run ?api ?c ?v))) (events (snd (snd (ix_run ?api ?c ?v))))"
    and "fst (update_asn ?self \<lparr>asn1 = 64500, asn2 = 64501\<rparr> ?w) = Inr (64500, 64501)"
    using g by (auto simp: world0_def)
  with r1 r2 l2 show ?thesis by (simp add: is_exit_def)
qed


text \<open>
  Claim C8 as stated fails in its second half: in the exchange-point crawler an error
  of \<^verbatim>\<open>upsert_statements\<close> for a prefix of the first exchange point ends the run with
  that error (no \<^verbatim>\<open>SystemExit\<close>), and the second exchange point is never fetched.
\<close>

theorem statement_error_aborts_ix_run:
  "(case ix_init (scripted_wh [] [''Q:192.0.2.0/24'']) noon (world0 []) of
      (Inl e, w) \<Rightarrow> False
    | (Inr self, w) \<Rightarrow>
        (case ix_run (scripted_api [] [ix_tokyo, ix_nowhere] [lan_tokyo]) self w of
           (r, self1, w1) \<Rightarrow>
             r = Inl (Exception ''write failed'') \<and> \<not> is_exit r \<and>
             last (events w1) =
               Call (UpsertStatements ''update peeringDB ixlan'' ''Q:192.0.2.0/24''
                 [Stmt3 ''P:instance of'' ''Q:peering LAN'' (pfx_reference self (URL_PDB_LAN @ ''/11'')),
                  Stmt3 ''P:managed by'' ''Q: Tokyo IX '' (pfx_reference self (URL_PDB_LAN @ ''/11''))]) \<and>
             Fetch (URL_PDB_IXS @ ''/2'') 200 \<notin> set (events w1)))"
  by (simp add: ix_eval is_exit_def pfx_reference_def)


text \<open>
  Claim C9, amended. \<^verbatim>\<open>update_ix\<close> returns one node id, the one that \<^verbatim>\<open>ix_qid\<close>
  resolved for the record (and that the cache then holds for the record's id).
  \<^verbatim>\<open>update_asn\<close> returns a pair: the node that \<^verbatim>\<open>get_node\<close> answered for \<^verbatim>\<open>asn1\<close>
  and the node it answered for \<^verbatim>\<open>asn2\<close>.
\<close>

theorem upsert_return_value:
  "(update_ix api x self w = (Inr q, self1, w1) \<longrightarrow>
      fst (ix_qid x self (snd (ix_statements self x w))) = Inr q \<and>
      ixid2qid self1 (str (ix_id x)) = Some q)
   \<and> (update_asn c r v = (Inr ids, v1) \<longrightarrow>
      fst (iyp_get_node (iyp c) ''AS'' (asn1 r) True v) = Inr (fst ids) \<and>
      fst (iyp_get_node (iyp c) ''AS'' (asn2 r) True
             (snd (iyp_get_node (iyp c) ''AS'' (asn1 r) True v))) = Inr (snd ids))"
proof (intro conjI impI)
  assume u: "update_ix api x self w = (Inr q, self1, w1)"
  show "fst (ix_qid x self (snd (ix_statements self x w))) = Inr q"
    using u by (rule update_ix_returns)
  show "ixid2qid self1 (str (ix_id x)) = Some q"
    using u by (rule update_ix_returns)
next
  assume a: "update_asn c r v = (Inr ids, v1)"
  show "fst (iyp_get_node (iyp c) ''AS'' (asn1 r) True v) = Inr (fst ids)"
    using a by (rule update_asn_returns)
  show "fst (iyp_get_node (iyp c) ''AS'' (asn2 r) True
             (snd (iyp_get_node (iyp c) ''AS'' (asn1 r) True v))) = Inr (snd ids)"
    using a by (rule update_asn_returns)
qed

theorem upsert_return_value_witness:
  "fst (update_ix (scripted_api [] [ix_tokyo] [lan_tokyo]) ix_nowhere (example_crawler [] [])
          example_world) = Inr ''Q:Nowhere IX''
   \<and> fst (ix_qid ix_nowhere (example_crawler [] [])
          (snd (ix_statements (example_crawler [] []) ix_nowhere example_world))) =
        Inr ''Q:Nowhere IX''
   \<and> fst (update_asn (as2rel_init (scripted_iyp [] []) noon) \<lparr>asn1 = 64500, asn2 = 64501\<rparr>
          (world0 [])) = Inr (64500, 64501)
   \<and> fst (iyp_get_node (scripted_iyp [] []) ''AS'' 64500 True (world0 [])) = Inr 64500"
proof -
  let ?api = "scripted_api [] [ix_tokyo] [lan_tokyo]"
  let ?c = "example_crawler [] []"
  let ?self = "as2rel_init (scripted_iyp [] []) noon"
  let ?w = "world0 [] :: ((node_id \<times> link) list, iyp_call) world"
  let ?r = "\<lparr>asn1 = 64500, asn2 = 64501\<rparr>"
  have u1: "fst (update_ix ?api ix_nowhere ?c example_world) = Inr ''Q:Nowhere IX''"
    by (simp add: ix_eval example_eval)
  have a1: "fst (update_asn ?self ?r ?w) = Inr (64500, 64501)"
    by (simp add: as2rel_eval)
  have u: "update_ix ?api ix_nowhere ?c example_world =
      (Inr ''Q:Nowhere IX'', fst (snd (update_ix ?api ix_nowhere ?c example_world)),
       snd (snd (update_ix ?api ix_nowhere ?c example_world)))"
    using u1 by (simp add: prod_eq_iff)
  have a: "update_asn ?self ?r ?w = (Inr (64500, 64501), snd (update_asn ?self ?r ?w))"
    using a1 by (simp add: prod_eq_iff)
  have i: "iyp ?self = scripted_iyp [] []" by (simp add: as2rel_init_def)
  from upsert_return_value [of ?api ix_nowhere ?c example_world "''Q:Nowhere IX''"
      "fst (snd (update_ix ?api ix_nowhere ?c example_world))"
      "snd (snd (update_ix ?api ix_nowhere ?c example_world))"
      ?self ?r ?w "(64500, 64501)" "snd (update_asn ?self ?r ?w)"] u a
  have "fst (ix_qid ix_nowhere ?c (snd (ix_statements ?c ix_nowhere example_world))) =
          Inr ''Q:Nowhere IX''"
    and "fst (iyp_get_node (iyp ?self) ''AS'' (asn1 ?r) True ?w) = Inr 64500"
    by simp_all
  with u1 a1 i show ?thesis by simp
qed


text \<open>
  Claim C9 as stated fails for the AS-relationship record: what \<^verbatim>\<open>update_asn\<close>
  returns for \<^verbatim>\<open>{asn1: 64500, asn2: 64501}\<close> is the pair of both nodes, whose second
  component is not the node of \<^verbatim>\<open>asn1\<close>.
\<close>

theorem update_asn_returns_pair:
  "(case fst (update_asn (as2rel_init (scripted_iyp [] []) noon)
                \<lparr>asn1 = 64500, asn2 = 64501\<rparr> (world0 [])) of
      Inl e \<Rightarrow> False
    | Inr (as1_qid, as2_qid) \<Rightarrow> as1_qid = 64500 \<and> as2_qid = 64501 \<and> as2_qid \<noteq> as1_qid)"
  by (simp add: as2rel_eval)

text \<open>
  Claim C5, amended. Every statement that a run of the exchange-point crawler hands to
  the store carries a reference of three parts (the source \<^verbatim>\<open>PeeringDB\<close>, a reference
  URL and a point in time), except the type statement of the exchange point
  (\<^verbatim>\<open>instance of: Internet exchange point\<close>, written with no reference) and the
  external-identifier statement of a newly created item (written with the empty
  reference). Every link that a run of the AS-relationship crawler hands to the store
  carries the reference with the source \<^verbatim>\<open>BGPKIT\<close>, the feed's URL and the point in time.
\<close>

theorem statements_carry_reference:
  "(ix_init h utcnow w0 = (Inr self, w1) \<and> ix_run api self w1 = (r, self1, w2) \<longrightarrow>
      (\<exists>evs. events w2 = events w1 @ evs \<and>
         (\<forall>e\<in>set evs. \<forall>s\<in>set (event_statements e).
            statement_sourced h s \<or> type_or_id_statement h s)))
   \<and> (as2rel_run (as2rel_init hh now) web v = (res, v') \<longrightarrow>
      (\<exists>evs. events v' = events v @ evs \<and>
         (\<forall>e\<in>set evs. \<forall>l\<in>set (event_links e).
            snd (snd l) =
              \<lparr>source = ''BGPKIT'', reference_url = URL_BGPKIT_AS2REL,
               point_in_time = midnight now\<rparr>)))"
proof (intro conjI impI)
  assume a: "ix_init h utcnow w0 = (Inr self, w1) \<and> ix_run api self w1 = (r, self1, w2)"
  then have init: "ix_init h utcnow w0 = (Inr self, w1)"
    and run: "ix_run api self w1 = (r, self1, w2)" by simp_all
  have h: "wh self = h" using init by (rule ix_init_result)
  have p: "\<And>u. is_reference h (pfx_reference self u)"
    using is_reference_pfx [of self] h by simp
  show "\<exists>evs. events w2 = events w1 @ evs \<and>
         (\<forall>e\<in>set evs. \<forall>s\<in>set (event_statements e).
            statement_sourced h s \<or> type_or_id_statement h s)"
    by (rule ix_run_statements [OF init run]) (simp_all add: statement_sourced_def p)
next
  assume "as2rel_run (as2rel_init hh now) web v = (res, v')"
  from as2rel_run_links [OF this]
  show "\<exists>evs. events v' = events v @ evs \<and>
         (\<forall>e\<in>set evs. \<forall>l\<in>set (event_links e).
            snd (snd l) =
              \<lparr>source = ''BGPKIT'', reference_url = URL_BGPKIT_AS2REL,
               point_in_time = midnight now\<rparr>)"
    by (simp add: as2rel_init_def midnight_def)
qed

theorem statements_carry_reference_witness:
  "list_all
     (\<lambda>e. list_all (\<lambda>s. statement_sourced (scripted_wh [] []) s \<or>
                         type_or_id_statement (scripted_wh [] []) s) (event_statements e))
     (tl (events (snd (snd (ix_run (scripted_api [] [ix_tokyo, ix_nowhere] [lan_tokyo])
        (example_crawler [] []) example_world)))))
   \<and> length (events (snd (snd (ix_run (scripted_api [] [ix_tokyo, ix_nowhere] [lan_tokyo])
        (example_crawler [] []) example_world)))) = 12
   \<and> list_all
     (\<lambda>e. list_all (\<lambda>l. snd (snd l) =
         \<lparr>source = ''BGPKIT'', reference_url = URL_BGPKIT_AS2REL,
          point_in_time = midnight noon\<rparr>) (event_links e))
     (events (snd (as2rel_run (as2rel_init (scripted_iyp [] []) noon)
        (\<lambda>url. \<lparr>status_code = 200, data = [\<lparr>asn1 = 64500, asn2 = 64501\<rparr>]\<rparr>) (world0 []))))
   \<and> length (events (snd (as2rel_run (as2rel_init (scripted_iyp [] []) noon)
        (\<lambda>url. \<lparr>status_code = 200, data = [\<lparr>asn1 = 64500, asn2 = 64501\<rparr>]\<rparr>) (world0 [])))) = 5"
proof -
  let ?api = "scripted_api [] [ix_tokyo, ix_nowhere] [lan_tokyo]"
  let ?c = "example_crawler [] []"
  let ?h = "scripted_wh [] []"
  let ?run = "ix_run ?api ?c example_world"
  let ?self = "as2rel_init (scripted_iyp [] []) noon"
  let ?web = "\<lambda>url :: string. \<lparr>status_code = 200 :: int, data = [\<lparr>asn1 = 64500, asn2 = 64501\<rparr>]\<rparr>"
  let ?v = "world0 [] :: ((node_id \<times> link) list, iyp_call) world"
  let ?arun = "as2rel_run ?self ?web ?v"
  have r: "?run = (fst ?run, fst (snd ?run), snd (snd ?run))" by simp
  have a: "?arun = (fst ?arun, snd ?arun)" by simp
  from statements_carry_reference [of ?h noon "world0 []" ?c example_world ?api "fst ?run"
      "fst (snd ?run)" "snd (snd ?run)" "scripted_iyp [] []" noon ?web ?v "fst ?arun" "snd ?arun"]
    example_crawler_init [of "[]" "[]"] r a
  obtain evs evs' where
    e: "events (snd (snd ?run)) = events example_world @ evs"
      "\<forall>e\<in>set evs. \<forall>s\<in>set (event_statements e).
         statement_sourced ?h s \<or> type_or_id_statement ?h s"
    and e': "events (snd ?arun) = events ?v @ evs'"
      "\<forall>e\<in>set evs'. \<forall>l\<in>set (event_links e). snd (snd l) =
         \<lparr>source = ''BGPKIT'', reference_url = URL_BGPKIT_AS2REL,
          point_in_time = midnight noon\<rparr>"
    by auto
  from e(1) have "tl (events (snd (snd ?run))) = evs" by (simp add: example_world_def)
  moreover from e'(1) have "events (snd ?arun) = evs'" by (simp add: world0_def)
  moreover have "length (events (snd (snd ?run))) = 12"
    by (simp add: ix_eval example_eval)
  moreover have "length (events (snd ?arun)) = 5"
    by (simp add: as2rel_eval)
  ultimately show ?thesis using e(2) e'(2) by (simp add: list_all_iff)
qed


text \<open>
  Claim C5 as stated fails: the statements that \<^verbatim>\<open>update_ix\<close> submits for an
  exchange point begin with the type statement, which has no reference.
\<close>

theorem type_statement_without_reference:
  "Call (UpsertStatements ''update peeringDB ixs'' ''Q:Nowhere IX''
     [Stmt2 ''P:instance of'' ''Q:Internet exchange point'',
      Stmt3 ''P:name'' ''Nowhere IX'' (reference_ix (example_crawler [] []))])
     \<in> set (events (snd (snd (update_ix (scripted_api [] [ix_nowhere] [lan_tokyo]) ix_nowhere
          (example_crawler [] []) example_world))))
   \<and> statement_reference (Stmt2 ''P:instance of'' ''Q:Internet exchange point'') = None"
  by (simp add: ix_eval example_eval)


text \<open>
  Claim C4, amended. Within one run, every statement that is submitted with a reference
  carries one point in time, and it is the same value for all of them: the clock
  reading at \<^verbatim>\<open>__init__\<close> with hour, minute, second and microsecond set to zero. This
  holds for the statements of the exchange points (reference URL of the list), for the
  statements of the prefixes (reference URL of the LAN) and for the links of the
  AS-relationship crawler. The only statements that carry no point in time are the two
  that the exchange-point crawler writes without a reference: the type statement of the
  exchange point and the external-identifier statement of a newly created item.
\<close>

theorem point_in_time_stable:
  "(ix_init h utcnow w0 = (Inr self, w1) \<and> ix_run api self w1 = (r, self1, w2) \<longrightarrow>
      (\<exists>evs. events w2 = events w1 @ evs \<and>
         (\<forall>e\<in>set evs. \<forall>s\<in>set (event_statements e).
            statement_times s = [midnight utcnow] \<or>
            (type_or_id_statement h s \<and> statement_times s = []))))
   \<and> (as2rel_run (as2rel_init hh now) web v = (res, v') \<longrightarrow>
      (\<exists>evs. events v' = events v @ evs \<and>
         (\<forall>e\<in>set evs. \<forall>l\<in>set (event_links e). point_in_time (snd (snd l)) = midnight now)))"
proof (intro conjI impI)
  assume a: "ix_init h utcnow w0 = (Inr self, w1) \<and> ix_run api self w1 = (r, self1, w2)"
  then have init: "ix_init h utcnow w0 = (Inr self, w1)"
    and run: "ix_run api self w1 = (r, self1, w2)" by simp_all
  have t: "today self = midnight utcnow"
    using ix_init_result(2) [OF init] by (simp add: wh_today_def midnight_def)
  show "\<exists>evs. events w2 = events w1 @ evs \<and>
         (\<forall>e\<in>set evs. \<forall>s\<in>set (event_statements e).
            statement_times s = [midnight utcnow] \<or>
            (type_or_id_statement h s \<and> statement_times s = []))"
    by (rule ix_run_statements [OF init run])
      (simp_all add: statement_times_def reference_times_pfx t)
next
  assume "as2rel_run (as2rel_init hh now) web v = (res, v')"
  from as2rel_run_links [OF this]
  obtain evs where "events v' = events v @ evs"
    "\<forall>e\<in>set evs. \<forall>l\<in>set (event_links e). snd (snd l) = reference (as2rel_init hh now)"
    by blast
  then have "events v' = events v @ evs \<and>
         (\<forall>e\<in>set evs. \<forall>l\<in>set (event_links e). point_in_time (snd (snd l)) = midnight now)"
    by (simp add: as2rel_init_def midnight_def)
  then show "\<exists>evs. events v' = events v @ evs \<and>
         (\<forall>e\<in>set evs. \<forall>l\<in>set (event_links e). point_in_time (snd (snd l)) = midnight now)"
    by (rule exI)
qed

theorem point_in_time_stable_witness:
  "list_all
     (\<lambda>e. list_all (\<lambda>s. statement_times s = [midnight noon] \<or>
                         (type_or_id_statement (scripted_wh [] []) s \<and> statement_times s = []))
        (event_statements e))
     (tl (events (snd (snd (ix_run (scripted_api [] [ix_tokyo, ix_nowhere] [lan_tokyo])
        (example_crawler [] []) example_world)))))
   \<and> length (events (snd (snd (ix_run (scripted_api [] [ix_tokyo, ix_nowhere] [lan_tokyo])
        (example_crawler [] []) example_world)))) = 12
   \<and> list_all
     (\<lambda>e. list_all (\<lambda>l. point_in_time (snd (snd l)) = midnight noon) (event_links e))
     (events (snd (as2rel_run (as2rel_init (scripted_iyp [] []) noon)
        (\<lambda>url. \<lparr>status_code = 200, data = [\<lparr>asn1 = 64500, asn2 = 64501\<rparr>]\<rparr>) (world0 []))))
   \<and> midnight noon =
       \<lparr>year = 2023, month = 3, day = 14, hour = 0, minute = 0, second = 0, microsecond = 0\<rparr>"
proof -
  let ?api = "scripted_api [] [ix_tokyo, ix_nowhere] [lan_tokyo]"
  let ?c = "example_crawler [] []"
  let ?h = "scripted_wh [] []"
  let ?run = "ix_run ?api ?c example_world"
  let ?self = "as2rel_init (scripted_iyp [] []) noon"
  let ?web = "\<lambda>url :: string. \<lparr>status_code = 200 :: int, data = [\<lparr>asn1 = 64500, asn2 = 64501\<rparr>]\<rparr>"
  let ?v = "world0 [] :: ((node_id \<times> link) list, iyp_call) world"
  let ?arun = "as2rel_run ?self ?web ?v"
  have r: "?run = (fst ?run, fst (snd ?run), snd (snd ?run))" by simp
  have a: "?arun = (fst ?arun, snd ?arun)" by simp
  from point_in_time_stable [of ?h noon "world0 []" ?c example_world ?api "fst ?run"
      "fst (snd ?run)" "snd (snd ?run)" "scripted_iyp [] []" noon ?web ?v "fst ?arun" "snd ?arun"]
    example_crawler_init [of "[]" "[]"] r a
  obtain evs evs' where
    e: "events (snd (snd ?run)) = events example_world @ evs"
      "\<forall>e\<in>set evs. \<forall>s\<in>set (event_statements e).
         statement_times s = [midnight noon] \<or>
         (type_or_id_statement ?h s \<and> statement_times s = [])"
    and e': "events (snd ?arun) = events ?v @ evs'"
      "\<forall>e\<in>set evs'. \<forall>l\<in>set (event_links e). point_in_time (snd (snd l)) = midnight noon"
    by auto
  from e(1) have "tl (events (snd (snd ?run))) = evs" by (simp add: example_world_def)
  moreover from e'(1) have "events (snd ?arun) = evs'" by (simp add: world0_def)
  moreover have "length (events (snd (snd ?run))) = 12"
    by (simp add: ix_eval example_eval)
  moreover have "midnight noon =
       \<lparr>year = 2023, month = 3, day = 14, hour = 0, minute = 0, second = 0, microsecond = 0\<rparr>"
    by (simp add: midnight_def noon_def)
  ultimately show ?thesis using e(2) e'(2) by (simp add: list_all_iff)
qed


text \<open>
  Claim C4 as stated fails: of the four statements that a run submits for the exchange
  point \<open>ix_nowhere\<close> (two at the creation of the item, two in the update), only the
  name carries a point in time; the two type statements and the external identifier
  carry none.
\<close>

theorem statements_without_point_in_time:
  "map statement_times (concat (map event_statements
     (events (snd (snd (ix_run (scripted_api [] [ix_nowhere] [lan_tokyo])
        (example_crawler [] []) example_world)))))) =
     [[], [], [], [midnight noon]]"
  by (simp add: ix_eval example_eval statement_times_def midnight_def)







text \<open>
  Claim C1. Exchange points: once \<^verbatim>\<open>ix_qid\<close> has returned the node \<open>q\<close> for an id
  (issuing at most one \<^verbatim>\<open>add_item\<close>), then after any further records of the run
  (\<open>ix_loop\<close> over any list, from any world) \<^verbatim>\<open>ix_qid\<close> returns \<open>q\<close> for the same id and
  leaves the crawler and the world as they are: no call is issued. AS numbers: once the
  resolver has returned the node \<open>m\<close> for a value (issuing at most one creation
  request), then after any further calls on the handle it returns \<open>m\<close> for the same
  value and leaves the state, with its list of creation requests, as it is. What a run
  of the AS-relationship loop does to the store is such a sequence of calls on the
  handle.
\<close>

theorem resolver_determinism:
  "(ix_qid x self w = (Inr q, self1, w1) \<and> ix_loop api n i xs self1 v = (r, self2, v') \<and>
    ix_id x' = ix_id x \<longrightarrow>
      ix_qid x' self2 u = (Inr q, self2, u) \<and>
      (events w1 = events w \<or>
       (\<exists>sts. events w1 =
          events w @ [Call (AddItem ''add new peeringDB IX'' (ix_name x) (ix_name_long x) sts)])))
   \<and> (get_node (spec_iyp gs) ns a True s = (Inr m, s1) \<longrightarrow>
      get_node (spec_iyp gs) ns a True (apply_calls (spec_iyp gs) cs s1) =
        (Inr m, apply_calls (spec_iyp gs) cs s1) \<and>
      (creations s1 = creations s \<or> creations s1 = creations s @ [(ns, a)]))
   \<and> (as2rel_loop c j rs z = (res, z') \<longrightarrow>
      (\<exists>evs. events z' = events z @ evs \<and>
         store z' = apply_calls (iyp c) (event_calls evs) (store z)))"
proof (intro conjI impI)
  assume a: "ix_qid x self w = (Inr q, self1, w1) \<and>
    ix_loop api n i xs self1 v = (r, self2, v') \<and> ix_id x' = ix_id x"
  then have a1: "ix_qid x self w = (Inr q, self1, w1)"
    and a2: "ix_loop api n i xs self1 v = (r, self2, v')" by simp_all
  from a1 have "ixid2qid self1 (str (ix_id x)) = Some q"
    by (rule ix_qid_result_cached)
  moreover from a2 have "ixid2qid self1 \<subseteq>\<^sub>m ixid2qid self2"
    by (rule ix_loop_cache_grows)
  ultimately have "ixid2qid self2 (str (ix_id x')) = Some q"
    using a by (auto simp: map_le_def dom_def)
  then show "ix_qid x' self2 u = (Inr q, self2, u)" by (rule ix_qid_cached)
  from a have "ix_qid x self w = (Inr q, self1, w1)" by simp
  from ix_qid_cases [OF this]
  show "events w1 = events w \<or>
       (\<exists>sts. events w1 =
          events w @ [Call (AddItem ''add new peeringDB IX'' (ix_name x) (ix_name_long x) sts)])"
    by auto
next
  assume g: "get_node (spec_iyp gs) ns a True s = (Inr m, s1)"
  then have r: "resolve_or_create gs ns a s = (Inr m, s1)" by (simp add: spec_iyp_def)
  from resolve_or_create_result(1) [OF r] apply_calls_grows [of s1 gs cs]
  have "node_cache (apply_calls (spec_iyp gs) cs s1) (ns, a) = Some m"
    by (auto simp: map_le_def dom_def)
  then show "get_node (spec_iyp gs) ns a True (apply_calls (spec_iyp gs) cs s1) =
        (Inr m, apply_calls (spec_iyp gs) cs s1)"
    by (simp add: spec_iyp_def resolve_or_create_cached)
  from resolve_or_create_result(2) [OF r]
  show "creations s1 = creations s \<or> creations s1 = creations s @ [(ns, a)]" .
next
  assume "as2rel_loop c j rs z = (res, z')"
  then show "\<exists>evs. events z' = events z @ evs \<and>
         store z' = apply_calls (iyp c) (event_calls evs) (store z)"
    by (rule as2rel_loop_replay)
qed


theorem resolver_determinism_witness:
  "fst (ix_qid ix_tokyo (example_crawler [] []) example_world) = Inr ''Q: Tokyo IX ''
   \<and> ix_qid ix_tokyo
        (fst (snd (ix_loop (scripted_api [] [ix_nowhere] []) 1 0 [ix_nowhere]
           (fst (snd (ix_qid ix_tokyo (example_crawler [] []) example_world))) example_world)))
        example_world =
      (Inr ''Q: Tokyo IX '',
       fst (snd (ix_loop (scripted_api [] [ix_nowhere] []) 1 0 [ix_nowhere]
           (fst (snd (ix_qid ix_tokyo (example_crawler [] []) example_world))) example_world)),
       example_world)
   \<and> fst (get_node (spec_iyp spec_graph) ''AS'' 64500 True (connect empty_graph)) = Inr 0
   \<and> creations (snd (get_node (spec_iyp spec_graph) ''AS'' 64500 True (connect empty_graph))) =
       [(''AS'', 64500)]
   \<and> fst (get_node (spec_iyp spec_graph) ''AS'' 64500 True
        (apply_calls (spec_iyp spec_graph) [GetNode ''AS'' 64501 True]
           (snd (get_node (spec_iyp spec_graph) ''AS'' 64500 True (connect empty_graph))))) =
       Inr 0
   \<and> creations (snd (get_node (spec_iyp spec_graph) ''AS'' 64500 True
        (apply_calls (spec_iyp spec_graph) [GetNode ''AS'' 64501 True]
           (snd (get_node (spec_iyp spec_graph) ''AS'' 64500 True (connect empty_graph)))))) =
       [(''AS'', 64500), (''AS'', 64501)]"
proof -
  let ?c = "example_crawler [] []"
  let ?api = "scripted_api [] [ix_nowhere] []"
  let ?q = "ix_qid ix_tokyo ?c example_world"
  let ?self1 = "fst (snd ?q)"
  let ?l = "ix_loop ?api 1 0 [ix_nowhere] ?self1 example_world"
  let ?h = "spec_iyp spec_graph"
  let ?s0 = "connect empty_graph"
  let ?g = "get_node ?h ''AS'' 64500 True ?s0"
  let ?s2 = "apply_calls ?h [GetNode ''AS'' 64501 True] (snd ?g)"
  let ?z = "world0 ?s0 :: (graph_db iyp_state, iyp_call) world"
  have q1: "fst ?q = Inr ''Q: Tokyo IX ''"
    by (simp add: ix_eval example_eval)
  then have q: "?q = (Inr ''Q: Tokyo IX '', ?self1, snd (snd ?q))"
    by (simp add: prod_eq_iff)
  have l: "?l = (fst ?l, fst (snd ?l), snd (snd ?l))" by simp
  have g1: "fst ?g = Inr 0" by (simp add: spec_eval)
  then have g: "?g = (Inr 0, snd ?g)" by (simp add: prod_eq_iff)
  have cr1: "creations (snd ?g) = [(''AS'', 64500)]" by (simp add: spec_eval)
  have cr2: "creations ?s2 = [(''AS'', 64500), (''AS'', 64501)]" by (simp add: spec_eval)
  note t = resolver_determinism [of ix_tokyo ?c example_world "''Q: Tokyo IX ''" ?self1
      "snd (snd ?q)" ?api 1 0 "[ix_nowhere]" example_world "fst ?l" "fst (snd ?l)"
      "snd (snd ?l)" ix_tokyo example_world spec_graph "''AS''" 64500 ?s0 0 "snd ?g"
      "[GetNode ''AS'' 64501 True]"]
  from t [THEN conjunct1, rule_format] q l
  have c1: "ix_qid ix_tokyo (fst (snd ?l)) example_world =
      (Inr ''Q: Tokyo IX '', fst (snd ?l), example_world)" by blast
  from t [THEN conjunct2, THEN conjunct1, rule_format, OF g]
  have c2: "get_node ?h ''AS'' 64500 True ?s2 = (Inr 0, ?s2)" by blast
  from q1 c1 g1 cr1 c2 cr2 show ?thesis by simp
qed


text \<open>
  Claim C3. A second run over the same upstream snapshot is a no-op on the node and
  statement sets of the store. The stores follow the specification (create if absent,
  else update in place); the crawlers are the source's. For the AS-relationship
  crawler: after a run that completed on the graph \<open>g0\<close>, a second run on the resulting
  graph, with the same document and at any clock reading, leaves the same nodes, the
  same counter of created nodes and the same statement keys (node, relation, target),
  and creates no node. For the exchange-point crawler: after a run that completed, a
  second run on the resulting wikibase, with the same PeeringDB answers and at any
  clock reading, leaves the same identifier index, the same prefix index, the same
  counter of created items and the same statement keys. The organization identifiers
  and the exchange-point identifiers are assumed to be two distinct items.
\<close>

theorem second_run_is_noop:
  "(as2rel_main (spec_iyp spec_graph) web now1 (connect g0) = (Inr (), w1) \<and>
    as2rel_main (spec_iyp spec_graph) web now2 (connect (graph (store w1))) = (res, w2) \<longrightarrow>
      same_sets (graph (store w1)) (graph (store w2)) \<and> creations (store w2) = [])
   \<and> (qids ORGID_LABEL \<noteq> qids IXID_LABEL \<and>
      ix_main (spec_wh pids qids cs) api now3 s0 = (Inr (), z1) \<and>
      ix_main (spec_wh pids qids cs) api now4 (store z1) = (r2, z2) \<longrightarrow>
      wb_same (store z1) (store z2))"
proof (rule conjI; rule impI)
  assume a: "as2rel_main (spec_iyp spec_graph) web now1 (connect g0) = (Inr (), w1) \<and>
    as2rel_main (spec_iyp spec_graph) web now2 (connect (graph (store w1))) = (res, w2)"
  let ?c1 = "as2rel_init (spec_iyp spec_graph) now1"
  let ?c2 = "as2rel_init (spec_iyp spec_graph) now2"
  let ?w = "world0 (connect g0) :: (graph_db iyp_state, iyp_call) world"
  let ?v = "world0 (connect (graph (store w1))) :: (graph_db iyp_state, iyp_call) world"
  have h: "iyp ?c1 = spec_iyp spec_graph" "iyp ?c2 = spec_iyp spec_graph"
    by (simp_all add: as2rel_init_def)
  have st: "store ?w = connect g0" "store ?v = connect (graph (store w1))"
    by (simp_all add: world0_def)
  from a have run: "as2rel_run ?c1 web ?w = (Inr (), w1)" "as2rel_run ?c2 web ?v = (res, w2)"
    by (simp_all add: as2rel_main_def)
  show "same_sets (graph (store w1)) (graph (store w2)) \<and> creations (store w2) = []"
    by (rule spec_as2rel_idempotent [OF h(1) h(2) st(1) run(1) st(2) run(2)])
next
  assume a: "qids ORGID_LABEL \<noteq> qids IXID_LABEL \<and>
      ix_main (spec_wh pids qids cs) api now3 s0 = (Inr (), z1) \<and>
      ix_main (spec_wh pids qids cs) api now4 (store z1) = (r2, z2)"
  let ?h = "spec_wh pids qids cs"
  let ?w = "world0 s0 :: (wikibase, wh_call) world"
  let ?v = "world0 (store z1) :: (wikibase, wh_call) world"
  obtain i1 w1 where init1: "ix_init ?h now3 ?w = (i1, w1)" by (meson surj_pair)
  from spec_ix_init [OF init1] obtain c1 where c1: "i1 = Inr c1" by blast
  obtain r1 c1' w1' where run1: "ix_run api c1 w1 = (r1, c1', w1')" by (metis surj_pair)
  from a init1 c1 run1 have m1: "r1 = Inr ()" "w1' = z1" by (simp_all add: ix_main_def)
  obtain i2 v1 where init2: "ix_init ?h now4 ?v = (i2, v1)" by (meson surj_pair)
  from spec_ix_init [OF init2] obtain c2 where c2: "i2 = Inr c2" by blast
  obtain r c2' v2 where run2: "ix_run api c2 v1 = (r, c2', v2)" by (metis surj_pair)
  from a init2 c2 run2 have m2: "v2 = z2" by (simp add: ix_main_def)
  have sv: "store ?v = store w1'" using m1 by (simp add: world0_def)
  from a have d: "qids ORGID_LABEL \<noteq> qids IXID_LABEL" by simp
  from spec_ix_idempotent [OF d init1 [unfolded c1] run1 [unfolded m1(1)] sv
      init2 [unfolded c2] run2] m1 m2
  show "wb_same (store z1) (store z2)" by simp
qed

theorem second_run_is_noop_witness:
  "same_sets
     (graph (store (snd (as2rel_main (spec_iyp spec_graph)
        (\<lambda>url. \<lparr>status_code = 200,
                 data = [\<lparr>asn1 = 64500, asn2 = 64501\<rparr>, \<lparr>asn1 = 64501, asn2 = 64502\<rparr>]\<rparr>)
        noon (connect empty_graph)))))
     (graph (store (snd (as2rel_main (spec_iyp spec_graph)
        (\<lambda>url. \<lparr>status_code = 200,
                 data = [\<lparr>asn1 = 64500, asn2 = 64501\<rparr>, \<lparr>asn1 = 64501, asn2 = 64502\<rparr>]\<rparr>)
        (noon\<lparr>day := 15\<rparr>)
        (connect (graph (store (snd (as2rel_main (spec_iyp spec_graph)
           (\<lambda>url. \<lparr>status_code = 200,
                    data = [\<lparr>asn1 = 64500, asn2 = 64501\<rparr>, \<lparr>asn1 = 64501, asn2 = 64502\<rparr>]\<rparr>)
           noon (connect empty_graph))))))))))
   \<and> next_id (graph (store (snd (as2rel_main (spec_iyp spec_graph)
        (\<lambda>url. \<lparr>status_code = 200,
                 data = [\<lparr>asn1 = 64500, asn2 = 64501\<rparr>, \<lparr>asn1 = 64501, asn2 = 64502\<rparr>]\<rparr>)
        noon (connect empty_graph))))) = 3
   \<and> wb_same
     (store (snd (ix_main example_wh (scripted_api [] [ix_tokyo, ix_nowhere] []) noon
        empty_wikibase)))
     (store (snd (ix_main example_wh (scripted_api [] [ix_tokyo, ix_nowhere] [])
        (noon\<lparr>day := 15\<rparr>)
        (store (snd (ix_main example_wh (scripted_api [] [ix_tokyo, ix_nowhere] []) noon
           empty_wikibase))))))
   \<and> next_item (store (snd (ix_main example_wh
        (scripted_api [] [ix_tokyo, ix_nowhere] []) noon empty_wikibase))) = 2"
proof -
  let ?H = "spec_iyp spec_graph"
  let ?web = "\<lambda>url :: string. \<lparr>status_code = 200 :: int,
                 data = [\<lparr>asn1 = 64500, asn2 = 64501\<rparr>, \<lparr>asn1 = 64501, asn2 = 64502\<rparr>]\<rparr>"
  let ?m1 = "as2rel_main ?H ?web noon (connect empty_graph)"
  let ?m2 = "as2rel_main ?H ?web (noon\<lparr>day := 15\<rparr>) (connect (graph (store (snd ?m1))))"
  let ?api = "scripted_api [] [ix_tokyo, ix_nowhere] []"
  let ?W = "spec_wh (\<lambda>label. ''P:'' @ label) (\<lambda>label. ''Q:'' @ label)
              (\<lambda>cc. if cc = ''JP'' then Some ''Q:Japan'' else None)"
  let ?x1 = "ix_main ?W ?api noon empty_wikibase"
  let ?x2 = "ix_main ?W ?api (noon\<lparr>day := 15\<rparr>) (store (snd ?x1))"
  have f1: "(case ?m1 of (r, w) \<Rightarrow> r = Inr () \<and> next_id (graph (store w)) = 3)"
    by (simp add: main_eval as2rel_eval spec_eval)
  have g1: "(case ?x1 of (r, w) \<Rightarrow> r = Inr () \<and> next_item (store w) = 2)"
    by (simp add: main_eval ix_eval)
  have d: "(\<lambda>label. ''Q:'' @ label) ORGID_LABEL \<noteq> (\<lambda>label. ''Q:'' @ label) IXID_LABEL"
    by (simp add: ORGID_LABEL_def IXID_LABEL_def)
  have p1: "?m1 = (Inr (), snd ?m1)" using f1 by (simp add: prod_eq_iff split_beta)
  have n1: "next_id (graph (store (snd ?m1))) = 3" using f1 by (simp add: split_beta)
  have p2: "?m2 = (fst ?m2, snd ?m2)" by simp
  have q1: "?x1 = (Inr (), snd ?x1)" using g1 by (simp add: prod_eq_iff split_beta)
  have k1: "next_item (store (snd ?x1)) = 2" using g1 by (simp add: split_beta)
  have q2: "?x2 = (fst ?x2, snd ?x2)" by simp
  note t = second_run_is_noop [of ?web noon empty_graph "snd ?m1" "noon\<lparr>day := 15\<rparr>"
      "fst ?m2" "snd ?m2" "\<lambda>label. ''Q:'' @ label" "\<lambda>label. ''P:'' @ label"
      "\<lambda>cc. if cc = ''JP'' then Some ''Q:Japan'' else None" ?api noon empty_wikibase
      "snd ?x1" "noon\<lparr>day := 15\<rparr>" "fst ?x2" "snd ?x2"]
  note t1 = t [THEN conjunct1, rule_format, OF conjI [OF p1 p2]]
  have c1: "same_sets (graph (store (snd ?m1))) (graph (store (snd ?m2)))"
    by (rule t1 [THEN conjunct1])
  have c2: "wb_same (store (snd ?x1)) (store (snd ?x2))"
    by (rule t [THEN conjunct2, rule_format, OF conjI [OF d conjI [OF q1 q2]]])
  show ?thesis unfolding example_wh_def
    by (intro conjI) (rule c1 n1 c2 k1)+
qed

end
